(* ===== verification/Prelude.thy ===== *)
theory Prelude
  imports Main "HOL-Library.Word"
begin

unbundle bit_operations_syntax

text \<open>
  Shared vocabulary of the development: the machine integer types, the outcome of a Rust
  computation (a value, an error, or a panic), the fixed-width arithmetic of the source
  written out on \<open>nat\<close>, and slices of byte buffers.

  Conventions. Values stored in the image keep their width as words (\<open>u8\<close> to \<open>u64\<close>).
  A \<open>usize\<close> (64 bits wide), and a \<open>u64\<close> once it takes part in address arithmetic, is a
  \<open>nat\<close> whose operations write out what happens at \<open>2 ^ 64\<close>: \<open>add_u\<close>, \<open>mul_u\<close>,
  \<open>div_u\<close> are the plain operators (they panic on overflow and on division by zero, as a
  build with overflow checks does), \<open>checked_add\<close>, \<open>checked_mul\<close>,
  \<open>saturating_add\<close> are the methods of those names. A theorem that a computation does not
  panic therefore also says that the release build, which wraps instead, computes the same.
\<close>

type_synonym u8 = "8 word"
type_synonym u16 = "16 word"
type_synonym u32 = "32 word"
type_synonym u64 = "64 word"
type_synonym bytes = "u8 list"

named_theorems slice_simps \<open>lengths, elements and composition of buffer windows\<close>
named_theorems outcome_simps \<open>evaluation of outcomes\<close>

subsection \<open>Outcomes\<close>

datatype ('e, 'a) outcome = Ok 'a | Err 'e | Panic

fun and_then :: "('e, 'a) outcome \<Rightarrow> ('a \<Rightarrow> ('e, 'b) outcome) \<Rightarrow> ('e, 'b) outcome" where
  "and_then (Ok x) f = f x"
| "and_then (Err e) f = Err e"
| "and_then Panic f = Panic"

fun or_else :: "('e, 'a) outcome \<Rightarrow> ('f, 'a) outcome \<Rightarrow> ('f, 'a) outcome" where
  "or_else (Ok x) g = Ok x"
| "or_else (Err e) g = g"
| "or_else Panic g = Panic"

fun map_err :: "('e \<Rightarrow> 'f) \<Rightarrow> ('e, 'a) outcome \<Rightarrow> ('f, 'a) outcome" where
  "map_err f (Ok x) = Ok x"
| "map_err f (Err e) = Err (f e)"
| "map_err f Panic = Panic"

fun map_ok :: "('a \<Rightarrow> 'b) \<Rightarrow> ('e, 'a) outcome \<Rightarrow> ('e, 'b) outcome" where
  "map_ok f (Ok x) = Ok (f x)"
| "map_ok f (Err e) = Err e"
| "map_ok f Panic = Panic"

definition ok_or :: "'a option \<Rightarrow> 'e \<Rightarrow> ('e, 'a) outcome" where
  "ok_or x e = (case x of Some v \<Rightarrow> Ok v | None \<Rightarrow> Err e)"

definition list_get :: "'a list \<Rightarrow> nat \<Rightarrow> 'a option" where
  "list_get xs i = (if i < length xs then Some (xs ! i) else None)"

lemma list_get_Some [simp]: "(list_get xs i = Some x) = (i < length xs \<and> xs ! i = x)"
  by (auto simp: list_get_def)

lemma list_get_None [simp]: "(list_get xs i = None) = (length xs \<le> i)"
  by (auto simp: list_get_def)

lemma ok_or_simps [simp]:
  "ok_or (Some v) e = Ok v" "ok_or None e = Err e"
  "(ok_or x e = Ok v) = (x = Some v)"
  "ok_or x e \<noteq> Panic"
  by (auto simp: ok_or_def split: option.splits)

lemma and_then_Ok_iff: "(and_then m f = Ok y) = (\<exists>x. m = Ok x \<and> f x = Ok y)"
  by (cases m) auto

lemma and_then_OkE:
  assumes "and_then m f = Ok y"
  obtains x where "m = Ok x" "f x = Ok y"
  using assms by (auto simp: and_then_Ok_iff)

lemma and_then_Panic_iff: "(and_then m f = Panic) = (m = Panic \<or> (\<exists>x. m = Ok x \<and> f x = Panic))"
  by (cases m) auto

lemma and_then_not_PanicI:
  "m \<noteq> Panic \<Longrightarrow> (\<And>x. m = Ok x \<Longrightarrow> f x \<noteq> Panic) \<Longrightarrow> and_then m f \<noteq> Panic"
  by (cases m) auto

lemma and_then_assoc: "and_then (and_then m f) g = and_then m (\<lambda>x. and_then (f x) g)"
  by (cases m) auto

lemma and_then_cong [fundef_cong]:
  "m = m' \<Longrightarrow> (\<And>x. m' = Ok x \<Longrightarrow> f x = g x) \<Longrightarrow> and_then m f = and_then m' g"
  by (cases m') auto

lemma or_else_Panic_iff: "(or_else m g = Panic) = (m = Panic \<or> (\<exists>e. m = Err e) \<and> g = Panic)"
  by (cases m) auto

lemma map_err_Panic_iff [simp]: "(map_err f m = Panic) = (m = Panic)"
  by (cases m) auto

lemma map_err_Ok_iff [simp]: "(map_err f m = Ok x) = (m = Ok x)"
  by (cases m) auto

lemma map_ok_iffs [simp]:
  "(map_ok f m = Ok y) = (\<exists>x. m = Ok x \<and> f x = y)"
  "(map_ok f m = Err e) = (m = Err e)"
  "(map_ok f m = Panic) = (m = Panic)"
  by (cases m; auto)+

subsection \<open>Fixed-width arithmetic on 64-bit quantities\<close>

definition checked_add :: "nat \<Rightarrow> nat \<Rightarrow> nat option" where
  "checked_add a b = (if a + b < 2 ^ 64 then Some (a + b) else None)"

definition checked_mul :: "nat \<Rightarrow> nat \<Rightarrow> nat option" where
  "checked_mul a b = (if a * b < 2 ^ 64 then Some (a * b) else None)"

definition saturating_add :: "nat \<Rightarrow> nat \<Rightarrow> nat" where
  "saturating_add a b = min (a + b) (2 ^ 64 - 1)"

definition add_u :: "nat \<Rightarrow> nat \<Rightarrow> ('e, nat) outcome" where
  "add_u a b = (if a + b < 2 ^ 64 then Ok (a + b) else Panic)"

definition mul_u :: "nat \<Rightarrow> nat \<Rightarrow> ('e, nat) outcome" where
  "mul_u a b = (if a * b < 2 ^ 64 then Ok (a * b) else Panic)"

definition sub_u :: "nat \<Rightarrow> nat \<Rightarrow> ('e, nat) outcome" where
  "sub_u a b = (if b \<le> a then Ok (a - b) else Panic)"

definition div_u :: "nat \<Rightarrow> nat \<Rightarrow> ('e, nat) outcome" where
  "div_u a b = (if b = 0 then Panic else Ok (a div b))"

definition mod_u :: "nat \<Rightarrow> nat \<Rightarrow> ('e, nat) outcome" where
  "mod_u a b = (if b = 0 then Panic else Ok (a mod b))"

lemma add_u_Ok [simp]: "(add_u a b = Ok c) = (c = a + b \<and> a + b < 2 ^ 64)"
  by (auto simp: add_u_def)

lemma mul_u_Ok [simp]: "(mul_u a b = Ok c) = (c = a * b \<and> a * b < 2 ^ 64)"
  by (auto simp: mul_u_def)

lemma sub_u_Ok [simp]: "(sub_u a b = Ok c) = (c = a - b \<and> b \<le> a)"
  by (auto simp: sub_u_def)

lemma div_u_Ok [simp]: "(div_u a b = Ok c) = (c = a div b \<and> b \<noteq> 0)"
  by (auto simp: div_u_def)

lemma mod_u_Ok [simp]: "(mod_u a b = Ok c) = (c = a mod b \<and> b \<noteq> 0)"
  by (auto simp: mod_u_def)

lemma arith_u_no_Err [simp]:
  "add_u a b \<noteq> Err e" "mul_u a b \<noteq> Err e" "sub_u a b \<noteq> Err e"
  "div_u a b \<noteq> Err e" "mod_u a b \<noteq> Err e"
  by (simp_all add: add_u_def mul_u_def sub_u_def div_u_def mod_u_def)

lemma arith_u_Panic [simp]:
  "(add_u a b = Panic) = (2 ^ 64 \<le> a + b)"
  "(mul_u a b = Panic) = (2 ^ 64 \<le> a * b)"
  "(sub_u a b = Panic) = (a < b)"
  "(div_u a b = Panic) = (b = 0)"
  "(mod_u a b = Panic) = (b = 0)"
  by (auto simp: add_u_def mul_u_def sub_u_def div_u_def mod_u_def)

lemma arith_u_eval [outcome_simps]:
  "a + b < 2 ^ 64 \<Longrightarrow> add_u a b = Ok (a + b)"
  "a * b < 2 ^ 64 \<Longrightarrow> mul_u a b = Ok (a * b)"
  "b \<le> a \<Longrightarrow> sub_u a b = Ok (a - b)"
  "b \<noteq> 0 \<Longrightarrow> div_u a b = Ok (a div b)"
  "b \<noteq> 0 \<Longrightarrow> mod_u a b = Ok (a mod b)"
  by simp_all

lemma checked_add_Some [simp]: "(checked_add a b = Some c) = (c = a + b \<and> a + b < 2 ^ 64)"
  by (auto simp: checked_add_def)

lemma checked_mul_Some [simp]: "(checked_mul a b = Some c) = (c = a * b \<and> a * b < 2 ^ 64)"
  by (auto simp: checked_mul_def)

lemma checked_None [simp]:
  "(checked_add a b = None) = (2 ^ 64 \<le> a + b)"
  "(checked_mul a b = None) = (2 ^ 64 \<le> a * b)"
  by (auto simp: checked_add_def checked_mul_def)

lemma saturating_add_le:
  "k < 2 ^ 64 \<Longrightarrow> (k < saturating_add a b) = (k < a + b \<and> k < 2 ^ 64 - 1)"
  by (auto simp: saturating_add_def)

lemma saturating_add_exact: "a + b < 2 ^ 64 \<Longrightarrow> saturating_add a b = a + b"
  by (simp add: saturating_add_def)

lemma saturating_add_le_iff:
  "m < 2 ^ 64 - 1 \<Longrightarrow> (saturating_add a b \<le> m) = (a + b \<le> m)"
  by (auto simp: saturating_add_def)

lemma unat_u64_bound: "unat (x :: u64) < 18446744073709551616"
  using unsigned_less [of x] by simp

lemma unat_u32_bound: "unat (x :: u32) < 4294967296"
  using unsigned_less [of x] by simp

lemma unat_u16_bound: "unat (x :: u16) < 65536"
  using unsigned_less [of x] by simp

lemma unat_u8_bound: "unat (x :: u8) < 256"
  using unsigned_less [of x] by simp

text \<open>Bit fields of words as quotients and remainders.\<close>

lemma unat_pow2: "k < LENGTH('a) \<Longrightarrow> unat (2 ^ k :: 'a :: len word) = 2 ^ k"
proof -
  assume k: "k < LENGTH('a)"
  have "unat (2 ^ k :: 'a word) = unat (of_nat (2 ^ k) :: 'a word)" by simp
  also have "\<dots> = 2 ^ k mod 2 ^ LENGTH('a)" by (rule unat_of_nat)
  also have "\<dots> = 2 ^ k" using k by simp
  finally show ?thesis .
qed

lemma unat_and_mask: "unat (w AND mask n) = unat w mod 2 ^ n"
  by (simp only: take_bit_eq_mask [symmetric] unsigned_take_bit_eq) (simp add: take_bit_eq_mod)

lemma unat_drop_bit_div: "unat (drop_bit n w) = unat w div 2 ^ n"
  by (simp only: unat_drop_bit_eq) (simp add: drop_bit_eq_div)

lemma unat_and_7: "unat (w AND 7 :: u64) = unat w mod 8"
  using unat_and_mask [of w 3] by (simp add: mask_numeral)

subsection \<open>Windows of a buffer\<close>

definition window :: "'a list \<Rightarrow> nat \<Rightarrow> nat \<Rightarrow> 'a list" where
  "window d off n = take n (drop off d)"

definition overwrite :: "'a list \<Rightarrow> nat \<Rightarrow> 'a list \<Rightarrow> 'a list" where
  "overwrite d off bs = take off d @ bs @ drop (off + length bs) d"

text \<open>The slice expression \<open>&d[a..b]\<close>, and a copy or a fill of a subslice.\<close>

definition slice :: "'a list \<Rightarrow> nat \<Rightarrow> nat \<Rightarrow> ('e, 'a list) outcome" where
  "slice d a b = (if a \<le> b \<and> b \<le> length d then Ok (window d a (b - a)) else Panic)"

definition put_slice :: "'a list \<Rightarrow> nat \<Rightarrow> 'a list \<Rightarrow> ('e, 'a list) outcome" where
  "put_slice d off bs = (if off + length bs \<le> length d then Ok (overwrite d off bs) else Panic)"

lemma length_window [simp, slice_simps]: "length (window d off n) = min n (length d - off)"
  by (simp add: window_def)

lemma nth_window [simp, slice_simps]:
  "i < n \<Longrightarrow> off + i < length d \<Longrightarrow> window d off n ! i = d ! (off + i)"
  by (simp add: window_def)

lemma window_0 [simp]: "window d off 0 = []"
  by (simp add: window_def)

lemma window_all [simp]: "length d \<le> n \<Longrightarrow> window d 0 n = d"
  by (simp add: window_def)

lemma window_window [slice_simps]:
  "o2 + n2 \<le> n1 \<Longrightarrow> window (window d o1 n1) o2 n2 = window d (o1 + o2) n2"
  by (simp add: window_def drop_take min_def add.commute)

lemma window_beyond [simp]: "length d \<le> off \<Longrightarrow> window d off n = []"
  by (simp add: window_def)

lemma window_add: "window d off (m + n) = window d off m @ window d (off + m) n"
  by (simp add: window_def take_add add.commute)

lemma window_map_nth:
  "off + n \<le> length d \<Longrightarrow> window d off n = map (\<lambda>i. d ! i) [off..<off + n]"
  by (rule nth_equalityI) auto

lemma window_append_right [slice_simps]:
  "length xs \<le> off \<Longrightarrow> window (xs @ ys) off n = window ys (off - length xs) n"
  by (simp add: window_def)

lemma window_append_left [slice_simps]:
  "off + n \<le> length xs \<Longrightarrow> window (xs @ ys) off n = window xs off n"
  by (simp add: window_def)

lemma window_eqI:
  assumes "length d = length d'" and "\<And>i. off \<le> i \<Longrightarrow> i < off + n \<Longrightarrow> i < length d \<Longrightarrow> d ! i = d' ! i"
  shows "window d off n = window d' off n"
  by (rule nth_equalityI) (use assms in auto)

lemma length_overwrite [simp, slice_simps]:
  "off + length bs \<le> length d \<Longrightarrow> length (overwrite d off bs) = length d"
  by (simp add: overwrite_def)

lemma nth_overwrite [slice_simps]:
  "off + length bs \<le> length d \<Longrightarrow> i < length d \<Longrightarrow>
   overwrite d off bs ! i = (if off \<le> i \<and> i < off + length bs then bs ! (i - off) else d ! i)"
  by (auto simp: overwrite_def nth_append)

lemma overwrite_Nil [simp]: "overwrite d off [] = d"
  by (simp add: overwrite_def)

lemma overwrite_twice [slice_simps]:
  "length bs = length cs \<Longrightarrow> off + length bs \<le> length d \<Longrightarrow>
   overwrite (overwrite d off bs) off cs = overwrite d off cs"
  by (simp add: overwrite_def)

lemma window_overwrite_same [slice_simps]:
  "off + length bs \<le> length d \<Longrightarrow> n = length bs \<Longrightarrow> window (overwrite d off bs) off n = bs"
  by (simp add: overwrite_def window_def)

lemma window_overwrite_disjoint [slice_simps]:
  "off + length bs \<le> length d \<Longrightarrow> o2 + n \<le> off \<or> off + length bs \<le> o2 \<Longrightarrow>
   window (overwrite d off bs) o2 n = window d o2 n"
  by (rule nth_equalityI) (auto simp: nth_overwrite)

lemma window_overwrite_within [slice_simps]:
  "off + length bs \<le> length d \<Longrightarrow> o2 \<le> off \<Longrightarrow> off + length bs \<le> o2 + n \<Longrightarrow>
   window (overwrite d off bs) o2 n = overwrite (window d o2 n) (off - o2) bs"
proof -
  assume a: "off + length bs \<le> length d" "o2 \<le> off" "off + length bs \<le> o2 + n"
  then have fits: "off - o2 + length bs \<le> length (window d o2 n)" by auto
  show ?thesis
    by (rule nth_equalityI) (use a fits in \<open>auto simp: nth_overwrite intro!: arg_cong [where f = "\<lambda>k. bs ! k"]\<close>)
qed

lemma overwrite_window_id [simp]:
  "off + n \<le> length d \<Longrightarrow> overwrite d off (window d off n) = d"
  by (rule nth_equalityI) (auto simp: nth_overwrite)

lemma slice_Ok [simp]:
  "(slice d a b = Ok s) = (a \<le> b \<and> b \<le> length d \<and> s = window d a (b - a))"
  by (auto simp: slice_def)

lemma slice_not_Err [simp]: "slice d a b \<noteq> Err e"
  by (simp add: slice_def)

lemma slice_Panic [simp]: "(slice d a b = Panic) = (b < a \<or> length d < b)"
  by (auto simp: slice_def)

lemma slice_eval [outcome_simps]: "a \<le> b \<Longrightarrow> b \<le> length d \<Longrightarrow> slice d a b = Ok (window d a (b - a))"
  by simp

lemma put_slice_Ok [simp]:
  "(put_slice d off bs = Ok s) = (off + length bs \<le> length d \<and> s = overwrite d off bs)"
  by (auto simp: put_slice_def)

lemma put_slice_not_Err [simp]: "put_slice d off bs \<noteq> Err e"
  by (simp add: put_slice_def)

lemma put_slice_Panic [simp]: "(put_slice d off bs = Panic) = (length d < off + length bs)"
  by (auto simp: put_slice_def)

lemma put_slice_eval [outcome_simps]:
  "off + length bs \<le> length d \<Longrightarrow> put_slice d off bs = Ok (overwrite d off bs)"
  by simp

subsection \<open>Texts\<close>

text \<open>Texts are UTF-8: the characters beyond ASCII that the source uses in them.\<close>

definition em_dash :: string where "em_dash = [CHR 0xE2, CHR 0x80, CHR 0x94]"
definition en_dash :: string where "en_dash = [CHR 0xE2, CHR 0x80, CHR 0x93]"
definition section_sign :: string where "section_sign = [CHR 0xC2, CHR 0xA7]"

end
