(* ===== verification/Error.thy ===== *)
theory Error
  imports Prelude
begin

text \<open>
  The error type of \<open>core/src/error.rs\<close> with the messages of its \<open>Display\<close>
  implementation, and the part of \<open>std::io::Error\<close> the source relies on: a kind and a
  message. \<open>OsKind\<close> stands for the kinds that the source names nowhere.
\<close>

datatype io_kind = UnexpectedEof | InvalidInput | Interrupted | Other | OsKind nat

datatype io_error = IoError io_kind string

datatype vhdx_error =
    BadMagic
  | NoValidHeader
  | InvalidRegionTable
  | BatRegionMissing
  | MetadataRegionMissing
  | MetadataMissing string
  | InvalidMetadata string
  | ContainerTooSmall nat
  | OffsetOutOfBounds
  | AddressOverflow
  | SectorOutOfRange nat nat
  | BlockNotPresent nat
  | InvalidPayloadBlockState nat nat
  | SectorBitmapNotPresent nat
  | Io io_error
  | DifferencingNotSupported

type_synonym 'a result = "(vhdx_error, 'a) outcome"
type_synonym 'a io_result = "(io_error, 'a) outcome"

definition digit :: "nat \<Rightarrow> char" where
  "digit n = ''0123456789'' ! (n mod 10)"

fun decimal :: "nat \<Rightarrow> string" where
  "decimal n = (if n < 10 then [digit n] else decimal (n div 10) @ [digit n])"

declare decimal.simps [simp del]

fun io_message :: "io_error \<Rightarrow> string" where
  "io_message (IoError k msg) = msg"

fun error_message :: "vhdx_error \<Rightarrow> string" where
  "error_message BadMagic = ''not a VHDX file (bad magic)''"
| "error_message NoValidHeader = ''no valid VHDX header found''"
| "error_message InvalidRegionTable = ''region table not found or invalid''"
| "error_message BatRegionMissing = ''BAT region not found in region table''"
| "error_message MetadataRegionMissing = ''metadata region not found in region table''"
| "error_message (MetadataMissing s) = ''required metadata item missing: '' @ s"
| "error_message (InvalidMetadata s) = ''metadata value is outside valid range: '' @ s"
| "error_message (ContainerTooSmall n) =
     ''container is too small to be a valid VHDX (minimum '' @ decimal n @ '' bytes required)''"
| "error_message OffsetOutOfBounds = ''region or BAT file offset is outside the container bounds''"
| "error_message AddressOverflow = ''BAT entry file offset calculation overflows u64''"
| "error_message (SectorOutOfRange sec sz) =
     ''sector out of range (sector '' @ decimal sec @ '', virtual disk size '' @ decimal sz @ '')''"
| "error_message (BlockNotPresent b) =
     ''BAT entry not present for payload block '' @ decimal b"
| "error_message (InvalidPayloadBlockState b st) =
     ''invalid payload BAT state '' @ decimal st @ '' for block '' @ decimal b"
| "error_message (SectorBitmapNotPresent b) =
     ''sector bitmap BAT entry is not present for partial payload block '' @ decimal b"
| "error_message (Io e) = ''I/O error: '' @ io_message e"
| "error_message DifferencingNotSupported =
     ''VHDX has a parent locator (differencing disk not supported)''"

end
