(* ===== verification/Bytes.thy ===== *)
theory Bytes
  imports Prelude
begin

text \<open>
  The bounds-checked little-endian readers of \<open>core/src/bytes.rs\<close> (and their copies
  \<open>r16\<close>, \<open>r32\<close>, \<open>r64\<close>, \<open>guid_at\<close> at the head of \<open>forensic/src/integrity.rs\<close>), with
  \<open>to_le_bytes\<close>, their inverse. An offset outside the buffer reads as zero.
\<close>

fun le_nat :: "bytes \<Rightarrow> nat" where
  "le_nat [] = 0"
| "le_nat (b # bs) = unat b + 256 * le_nat bs"

fun to_le :: "nat \<Rightarrow> nat \<Rightarrow> bytes" where
  "to_le 0 v = []"
| "to_le (Suc n) v = of_nat (v mod 256) # to_le n (v div 256)"

definition get_or_zero :: "bytes \<Rightarrow> nat \<Rightarrow> nat \<Rightarrow> bytes" where
  "get_or_zero d off n = (if off + n \<le> length d then window d off n else replicate n 0)"

definition le_u16 :: "bytes \<Rightarrow> nat \<Rightarrow> u16" where
  "le_u16 d off = of_nat (le_nat (get_or_zero d off 2))"

definition le_u32 :: "bytes \<Rightarrow> nat \<Rightarrow> u32" where
  "le_u32 d off = of_nat (le_nat (get_or_zero d off 4))"

definition le_u64 :: "bytes \<Rightarrow> nat \<Rightarrow> u64" where
  "le_u64 d off = of_nat (le_nat (get_or_zero d off 8))"

definition le_arr16 :: "bytes \<Rightarrow> nat \<Rightarrow> bytes" where
  "le_arr16 d off = get_or_zero d off 16"

definition u32_to_le :: "u32 \<Rightarrow> bytes" where
  "u32_to_le w = to_le 4 (unat w)"

definition u64_to_le :: "u64 \<Rightarrow> bytes" where
  "u64_to_le w = to_le 8 (unat w)"

subsection \<open>Laws\<close>

lemma le_nat_bound: "le_nat bs < 256 ^ length bs"
proof (induction bs)
  case Nil
  then show ?case by simp
next
  case (Cons b bs)
  have "unat b < 256" using unat_u8_bound [of b] by simp
  with Cons show ?case by simp
qed

lemma length_to_le [simp]: "length (to_le n v) = n"
  by (induction n v rule: to_le.induct) auto

lemma unat_of_nat_byte [simp]: "unat (of_nat (v mod 256) :: u8) = v mod 256"
  by (simp add: unat_of_nat)

lemma le_nat_to_le: "le_nat (to_le n v) = v mod 256 ^ n"
proof (induction n v rule: to_le.induct)
  case (1 v)
  then show ?case by simp
next
  case (2 n v)
  then show ?case by (simp add: mod_mult2_eq)
qed

lemma to_le_le_nat: "to_le (length bs) (le_nat bs) = bs"
proof (induction bs)
  case Nil
  then show ?case by simp
next
  case (Cons b bs)
  have "unat b < 256" using unat_u8_bound [of b] by simp
  with Cons show ?case by (simp add: unat_of_nat)
qed

lemma le_nat_inj: "length xs = length ys \<Longrightarrow> le_nat xs = le_nat ys \<Longrightarrow> xs = ys"
  by (metis to_le_le_nat)

lemma le_nat_replicate_0 [simp]: "le_nat (replicate n 0) = 0"
  by (induction n) auto

lemma length_get_or_zero [simp]: "length (get_or_zero d off n) = n"
  by (simp add: get_or_zero_def)

lemma get_or_zero_in [simp]: "off + n \<le> length d \<Longrightarrow> get_or_zero d off n = window d off n"
  by (simp add: get_or_zero_def)

lemma get_or_zero_out [simp]: "\<not> off + n \<le> length d \<Longrightarrow> get_or_zero d off n = replicate n 0"
  by (simp add: get_or_zero_def)

lemma unat_le:
  "unat (le_u16 d off) = le_nat (get_or_zero d off 2)"
  "unat (le_u32 d off) = le_nat (get_or_zero d off 4)"
  "unat (le_u64 d off) = le_nat (get_or_zero d off 8)"
  using le_nat_bound [of "get_or_zero d off 2"] le_nat_bound [of "get_or_zero d off 4"]
    le_nat_bound [of "get_or_zero d off 8"]
  by (simp_all add: le_u16_def le_u32_def le_u64_def unat_of_nat)

lemma le_out_of_range:
  "\<not> off + 2 \<le> length d \<Longrightarrow> le_u16 d off = 0"
  "\<not> off + 4 \<le> length d \<Longrightarrow> le_u32 d off = 0"
  "\<not> off + 8 \<le> length d \<Longrightarrow> le_u64 d off = 0"
  by (simp_all add: le_u16_def le_u32_def le_u64_def)

lemma length_le_arr16 [simp]: "length (le_arr16 d off) = 16"
  by (simp add: le_arr16_def)

lemma length_word_to_le [simp]: "length (u32_to_le w) = 4" "length (u64_to_le v) = 8"
  by (simp_all add: u32_to_le_def u64_to_le_def)

text \<open>A reader sees only the bytes of its window.\<close>

lemma get_or_zero_window [slice_simps]:
  "off + n \<le> m \<Longrightarrow> base + m \<le> length d \<Longrightarrow>
   get_or_zero (window d base m) off n = window d (base + off) n"
  by (simp add: get_or_zero_def window_window)

lemma get_or_zero_cong:
  "length d = length d' \<Longrightarrow> window d off n = window d' off n \<Longrightarrow>
   get_or_zero d off n = get_or_zero d' off n"
  by (simp add: get_or_zero_def)

text \<open>Writing a word and reading it back.\<close>

lemma le_u32_put: "off + 4 \<le> length d \<Longrightarrow> le_u32 (overwrite d off (u32_to_le w)) off = w"
  by (simp add: le_u32_def window_overwrite_same u32_to_le_def le_nat_to_le
      mod_less [OF unat_u32_bound, simplified])

lemma le_u64_put: "off + 8 \<le> length d \<Longrightarrow> le_u64 (overwrite d off (u64_to_le w)) off = w"
  by (simp add: le_u64_def window_overwrite_same u64_to_le_def le_nat_to_le
      mod_less [OF unat_u64_bound, simplified])

lemma u32_to_le_le_u32: "off + 4 \<le> length d \<Longrightarrow> u32_to_le (le_u32 d off) = window d off 4"
  using to_le_le_nat [of "window d off 4"]
  by (simp add: u32_to_le_def unat_le)

lemma u64_to_le_le_u64: "off + 8 \<le> length d \<Longrightarrow> u64_to_le (le_u64 d off) = window d off 8"
  using to_le_le_nat [of "window d off 8"]
  by (simp add: u64_to_le_def unat_le)

subsection \<open>Properties\<close>

text \<open>The little-endian accessors and \<open>to_le_bytes\<close> are inverse to each other, both ways:
  a value written at an offset is read back, and writing back what was read changes nothing.\<close>

theorem little_endian_round_trip:
  assumes "off + 8 \<le> length d"
  shows "le_u64 (overwrite d off (u64_to_le v)) off = v
    \<and> overwrite d off (u64_to_le (le_u64 d off)) = d
    \<and> le_u32 (overwrite d off (u32_to_le w)) off = w
    \<and> overwrite d off (u32_to_le (le_u32 d off)) = d"
  using assms by (simp add: le_u64_put le_u32_put u64_to_le_le_u64 u32_to_le_le_u32)

theorem little_endian_round_trip_witness:
  "le_u64 (overwrite (replicate 9 7) 1 (u64_to_le 0x0102030405060708)) 1 = 0x0102030405060708"
  using little_endian_round_trip [of 1 "replicate 9 7" "0x0102030405060708"] by simp

text \<open>Each accessor reads zero when any byte it needs lies outside the buffer.\<close>

theorem accessors_total:
  assumes "length d < off + 2"
  shows "le_u16 d off = 0 \<and> le_u32 d off = 0 \<and> le_u64 d off = 0 \<and> le_arr16 d off = replicate 16 0"
  using assms by (simp add: le_u16_def le_u32_def le_u64_def le_arr16_def)

theorem accessors_total_witness: "le_u64 [1, 2, 3] 2 = 0"
  using accessors_total [of "[1, 2, 3]" 2] by simp

end
