(* ===== verification/Crc32c.thy ===== *)
theory Crc32c
  imports Bytes
begin

text \<open>
  The CRC-32C checksum of \<open>core/src/header.rs\<close> (\<open>crc32c\<close>), bit by bit as the source
  computes it, and what it detects: any burst of at most 32 bits.
\<close>

definition crc_poly :: u32 where
  "crc_poly = 0x82F63B78"

definition crc_bit :: "u32 \<Rightarrow> u32" where
  "crc_bit crc = (if crc AND 1 \<noteq> 0 then drop_bit 1 crc XOR crc_poly else drop_bit 1 crc)"

definition crc_byte :: "u32 \<Rightarrow> u8 \<Rightarrow> u32" where
  "crc_byte crc b = (crc_bit ^^ 8) (crc XOR ucast b)"

definition crc32c :: "bytes \<Rightarrow> u32" where
  "crc32c d = foldl crc_byte 0xFFFFFFFF d XOR 0xFFFFFFFF"

lemma funpow_8: "(f ^^ 8) x = f (f (f (f (f (f (f (f x)))))))"
  by (simp add: numeral_eq_Suc)

text \<open>The published check value of CRC-32C.\<close>

lemma crc32c_check_value: "crc32c [49, 50, 51, 52, 53, 54, 55, 56, 57] = 0xE3069283"
  by (simp add: crc32c_def crc_byte_def crc_bit_def crc_poly_def funpow_8)

subsection \<open>The bit step is a linear bijection\<close>

lemma and_one_odd: "(c AND 1 \<noteq> (0::u32)) = bit c 0"
  by (simp add: and_one_eq bit_0 odd_iff_mod_2_eq_one)

lemma crc_bit_alt: "crc_bit c = (if bit c 0 then drop_bit 1 c XOR crc_poly else drop_bit 1 c)"
  by (simp add: crc_bit_def and_one_odd)

lemma crc_bit_xor: "crc_bit (a XOR b) = crc_bit a XOR crc_bit b"
  by (cases "bit a 0"; cases "bit b 0")
    (simp_all add: crc_bit_alt bit_xor_iff drop_bit_xor ac_simps)

lemma crc_bits_xor: "(crc_bit ^^ n) (a XOR b) = (crc_bit ^^ n) a XOR (crc_bit ^^ n) b"
  by (induction n arbitrary: a b) (simp_all add: crc_bit_xor)

lemma crc_poly_top: "bit crc_poly 31"
  by (simp add: crc_poly_def)

lemma crc_bit_zero: "crc_bit x = 0 \<Longrightarrow> x = 0"
proof -
  assume z: "crc_bit x = 0"
  show "x = 0"
  proof (cases "bit x 0")
    case True
    with z have "drop_bit 1 x XOR crc_poly = 0" by (simp add: crc_bit_alt)
    then have "bit (drop_bit 1 x XOR crc_poly) 31 = False" by simp
    moreover have "\<not> bit (drop_bit 1 x) 31"
      using bit_imp_le_length [of x 32] by (auto simp: bit_drop_bit_eq)
    ultimately show ?thesis using crc_poly_top by (simp add: bit_xor_iff)
  next
    case False
    with z have d: "drop_bit 1 x = 0" by (simp add: crc_bit_alt)
    show ?thesis
    proof (rule bit_eqI)
      fix n
      show "bit x n = bit (0::u32) n"
      proof (cases n)
        case 0
        with False show ?thesis by simp
      next
        case (Suc m)
        have "bit x (Suc m) = bit (drop_bit 1 x) m" by (simp add: bit_drop_bit_eq)
        with d Suc show ?thesis by simp
      qed
    qed
  qed
qed

lemma crc_bit_inj: "crc_bit a = crc_bit b \<Longrightarrow> a = b"
proof -
  assume "crc_bit a = crc_bit b"
  then have "crc_bit (a XOR b) = 0" by (simp add: crc_bit_xor)
  then have "a XOR b = 0" by (rule crc_bit_zero)
  then show "a = b" by (metis xor.assoc xor.right_neutral xor_self_eq)
qed

lemma crc_bits_inj: "(crc_bit ^^ n) a = (crc_bit ^^ n) b \<Longrightarrow> a = b"
  by (induction n) (auto dest: crc_bit_inj)

lemma xor_right_cancel: "(a XOR c = b XOR c) = (a = (b :: 'a :: len word))"
  by (metis xor.assoc xor.right_neutral xor_self_eq)

lemma crc_byte_inj: "crc_byte a b = crc_byte a' b \<Longrightarrow> a = a'"
  by (auto simp: crc_byte_def xor_right_cancel dest: crc_bits_inj)

lemma crc_fold_inj: "foldl crc_byte a bs = foldl crc_byte a' bs \<Longrightarrow> a = a'"
  by (induction bs arbitrary: a a') (auto dest: crc_byte_inj)

subsection \<open>Bursts of at most 32 bits\<close>

lemma crc_bits_push:
  "n \<le> 32 \<Longrightarrow> (\<And>k. bit y k \<Longrightarrow> k + n < 32) \<Longrightarrow> (crc_bit ^^ n) (push_bit n y) = y"
proof (induction n)
  case 0
  then show ?case by simp
next
  case (Suc n)
  have even: "\<not> bit (push_bit (Suc n) y) 0"
    by (simp only: bit_push_bit_iff) simp
  have half: "drop_bit 1 (push_bit (Suc n) y) = push_bit n y"
  proof (rule bit_eqI)
    fix k
    show "bit (drop_bit 1 (push_bit (Suc n) y)) k = bit (push_bit n y) k"
      using Suc.prems(2) [of "k - n"]
      by (auto simp: bit_drop_bit_eq bit_push_bit_iff simp del: push_bit_Suc)
  qed
  have "(crc_bit ^^ Suc n) (push_bit (Suc n) y) = (crc_bit ^^ n) (crc_bit (push_bit (Suc n) y))"
    by (simp add: funpow_swap1)
  also have "\<dots> = (crc_bit ^^ n) (push_bit n y)"
    using even half by (simp add: crc_bit_alt)
  also have "\<dots> = y"
  proof (rule Suc.IH)
    show "n \<le> 32" using Suc.prems(1) by simp
    show "k + n < 32" if "bit y k" for k
      using Suc.prems(2) [OF that] by simp
  qed
  finally show ?case .
qed

text \<open>Bit \<open>i\<close> of a message, in the order in which the checksum takes the bits in.\<close>

definition msg_bit :: "bytes \<Rightarrow> nat \<Rightarrow> bool" where
  "msg_bit m i = bit (m ! (i div 8)) (i mod 8)"

definition msg_bits :: "bytes \<Rightarrow> bool list" where
  "msg_bits m = map (msg_bit m) [0..<8 * length m]"

definition bit_step :: "u32 \<Rightarrow> bool \<Rightarrow> u32" where
  "bit_step s b = crc_bit (s XOR of_bool b)"

fun bits_word :: "bool list \<Rightarrow> u32" where
  "bits_word [] = 0"
| "bits_word (b # bs) = of_bool b XOR 2 * bits_word bs"

lemma bits_word_bit: "bit (bits_word bs) k \<longleftrightarrow> k < 32 \<and> k < length bs \<and> bs ! k"
proof (induction bs arbitrary: k)
  case (Cons b bs)
  show ?case
  proof (cases k)
    case (Suc j)
    then show ?thesis
      using Cons [of j] bit_imp_le_length [of "bits_word (b # bs)" k]
      by (auto simp: bit_xor_iff bit_double_iff bit_of_bool_iff)
  qed (simp add: bit_xor_iff bit_0 even_xor_iff)
qed simp

lemma bits_word_inj:
  "length xs = length ys \<Longrightarrow> length xs \<le> 32 \<Longrightarrow> bits_word xs = bits_word ys \<Longrightarrow> xs = ys"
proof (rule nth_equalityI)
  fix k assume "length xs = length ys" "length xs \<le> 32" "bits_word xs = bits_word ys" "k < length xs"
  then show "xs ! k = ys ! k" using bits_word_bit [of xs k] bits_word_bit [of ys k] by simp
qed

lemma bit_fold:
  "length bs \<le> 32 \<Longrightarrow> foldl bit_step s bs = (crc_bit ^^ length bs) (s XOR bits_word bs)"
proof (induction bs arbitrary: s)
  case (Cons b bs)
  have "(crc_bit ^^ 1) (push_bit 1 (bits_word bs)) = bits_word bs"
    by (rule crc_bits_push) (use Cons.prems in \<open>auto simp: bits_word_bit\<close>)
  then have push: "crc_bit (2 * bits_word bs) = bits_word bs" by (simp add: mult.commute)
  have "foldl bit_step s (b # bs) = (crc_bit ^^ length bs) (bit_step s b XOR bits_word bs)"
    using Cons by simp
  also have "bit_step s b XOR bits_word bs = crc_bit (s XOR bits_word (b # bs))"
    unfolding bit_step_def bits_word.simps crc_bit_xor push by (simp only: xor.assoc)
  finally show ?case by (simp only: list.size funpow_swap1 add_Suc_right add_0_right funpow.simps o_apply)
qed simp

lemma byte_bits: "foldl bit_step s (map (bit b) [0..<8]) = crc_byte s b"
proof -
  have "bits_word (map (bit b) [0..<8]) = ucast b"
  proof (rule bit_eqI)
    fix k
    show "bit (bits_word (map (bit b) [0..<8])) k = bit (ucast b :: u32) k"
      using bit_imp_le_length [of b k] by (auto simp: bits_word_bit bit_ucast_iff)
  qed
  then show ?thesis by (simp only: bit_fold length_map length_upt) (simp add: crc_byte_def)
qed

lemma msg_bits_Cons: "msg_bits (b # m) = map (bit b) [0..<8] @ msg_bits m"
proof (rule nth_equalityI)
  fix i assume "i < length (msg_bits (b # m))"
  then have i: "i < 8 + 8 * length m" by (simp add: msg_bits_def)
  show "msg_bits (b # m) ! i = (map (bit b) [0..<8] @ msg_bits m) ! i"
  proof (cases "i < 8")
    case True
    then show ?thesis by (simp add: msg_bits_def msg_bit_def nth_append)
  next
    case False
    then obtain j where j: "i = j + 8" using le_Suc_ex [of 8 i] by auto
    have "(j + 8) div 8 = Suc (j div 8)" "(j + 8) mod 8 = j mod 8" by simp_all
    then have "msg_bit (b # m) (j + 8) = msg_bit m j" by (simp only: msg_bit_def nth_Cons_Suc)
    with i j show ?thesis by (simp add: msg_bits_def nth_append)
  qed
qed (simp add: msg_bits_def)

lemma crc32c_bits: "crc32c m = foldl bit_step 0xFFFFFFFF (msg_bits m) XOR 0xFFFFFFFF"
proof -
  have "foldl crc_byte s m = foldl bit_step s (msg_bits m)" for s
  proof (induction m arbitrary: s)
    case (Cons b m)
    then show ?case by (simp only: foldl_Cons msg_bits_Cons foldl_append byte_bits)
  qed (simp add: msg_bits_def)
  then show ?thesis by (simp add: crc32c_def)
qed

lemma bit_fold_inj: "foldl bit_step a bs = foldl bit_step a' bs \<Longrightarrow> a = a'"
proof (induction bs arbitrary: a a')
  case (Cons b bs)
  then have "crc_bit (a XOR of_bool b) = crc_bit (a' XOR of_bool b)" by (simp only: foldl_Cons bit_step_def)
  then show ?case by (auto simp only: xor_right_cancel dest: crc_bit_inj)
qed simp

lemma msg_bits_inj: "length a = length b \<Longrightarrow> msg_bits a = msg_bits b \<Longrightarrow> a = b"
proof (induction a b rule: list_induct2)
  case (Cons x xs y ys)
  then have "map (bit x) [0..<8] = map (bit y) [0..<8]" "msg_bits xs = msg_bits ys"
    by (simp_all add: msg_bits_Cons)
  then have "bit x k = bit y k" if "k < 8" for k
    using that arg_cong [of "map (bit x) [0..<8]" "map (bit y) [0..<8]" "\<lambda>l. l ! k"] by simp
  then have "x = y" by (intro bit_eqI) auto
  with Cons \<open>msg_bits xs = msg_bits ys\<close> show ?case by simp
qed simp

lemma burst_split:
  assumes "length xs = length ys" and "\<And>i. i < length xs \<Longrightarrow> xs ! i \<noteq> ys ! i \<Longrightarrow> j \<le> i \<and> i < j + n"
  shows "take j xs = take j ys" and "drop n (drop j xs) = drop n (drop j ys)"
proof -
  show "take j xs = take j ys"
  proof (rule nth_equalityI)
    fix i assume "i < length (take j xs)"
    then show "take j xs ! i = take j ys ! i" using assms(2) [of i] by (cases "xs ! i = ys ! i") auto
  qed (simp add: assms(1))
  show "drop n (drop j xs) = drop n (drop j ys)" 
  proof (rule nth_equalityI)
    fix i assume "i < length (drop n (drop j xs))"
    then have "j + n + i < length xs" by auto
    moreover have "\<not> j + n + i < j + n" by simp
    ultimately have "xs ! (j + n + i) = ys ! (j + n + i)" using assms(2) by blast
    then show "drop n (drop j xs) ! i = drop n (drop j ys) ! i"
      using \<open>j + n + i < length xs\<close> assms(1) by (simp add: ac_simps)
  qed (simp add: assms(1))
qed

lemma split_burst: "xs = take j xs @ take n (drop j xs) @ drop n (drop j xs)"
  by (simp only: append_take_drop_id)

lemma bit_fold_split:
  "foldl bit_step s xs
     = foldl bit_step (foldl bit_step (foldl bit_step s (take j xs)) (take n (drop j xs))) (drop n (drop j xs))"
  by (subst split_burst [of xs j n]) (simp only: foldl_append)

lemma crc32c_detects_bits:
  assumes "length a = length b" and "a \<noteq> b"
    and "\<forall>i < 8 * length a. msg_bit a i \<noteq> msg_bit b i \<longrightarrow> j \<le> i \<and> i < j + 32"
  shows "crc32c a \<noteq> crc32c b"
proof
  let ?A = "msg_bits a" and ?B = "msg_bits b"
  let ?s = "foldl bit_step 0xFFFFFFFF (take j ?B)" and ?x = "take 32 (drop j ?A)" and ?y = "take 32 (drop j ?B)"
  assume "crc32c a = crc32c b"
  then have same: "foldl bit_step 0xFFFFFFFF ?A = foldl bit_step 0xFFFFFFFF ?B"
    by (simp add: crc32c_bits xor_right_cancel)
  have len: "length ?A = length ?B" using assms(1) by (simp add: msg_bits_def)
  have "j \<le> i \<and> i < j + 32" if "i < length ?A" "?A ! i \<noteq> ?B ! i" for i
    using assms(1,3) that by (simp add: msg_bits_def)
  note outside = burst_split [OF len this]
  have "foldl bit_step (foldl bit_step ?s ?x) (drop 32 (drop j ?B))
      = foldl bit_step (foldl bit_step ?s ?y) (drop 32 (drop j ?B))"
    using same bit_fold_split [of _ ?A j 32] bit_fold_split [of _ ?B j 32] by (metis outside)
  then have "foldl bit_step ?s ?x = foldl bit_step ?s ?y" by (rule bit_fold_inj)
  moreover have l: "length ?x = length ?y" using len by simp
  ultimately have "?s XOR bits_word ?x = ?s XOR bits_word ?y"
    by (auto simp: bit_fold dest: crc_bits_inj)
  then have "bits_word ?x = bits_word ?y" unfolding xor.commute [of ?s] xor_right_cancel .
  then have "?x = ?y" using l by (intro bits_word_inj) simp_all
  then have "?A = ?B" using outside split_burst [of ?A j 32] split_burst [of ?B j 32] by simp
  with assms(1,2) msg_bits_inj show False by blast
qed

text \<open>In particular every change confined to four consecutive bytes.\<close>

lemma crc32c_detects_burst:
  assumes "length xs = length ys" and "length xs \<le> 4" and "xs \<noteq> ys"
  shows "crc32c (p @ xs @ q) \<noteq> crc32c (p @ ys @ q)"
proof (rule crc32c_detects_bits [where j = "8 * length p"])
  let ?a = "p @ xs @ q" and ?b = "p @ ys @ q"
  show "\<forall>i < 8 * length ?a. msg_bit ?a i \<noteq> msg_bit ?b i \<longrightarrow> 8 * length p \<le> i \<and> i < 8 * length p + 32"
  proof (intro allI impI)
    fix i assume "msg_bit ?a i \<noteq> msg_bit ?b i"
    then have "?a ! (i div 8) \<noteq> ?b ! (i div 8)" by (auto simp: msg_bit_def)
    then have "length p \<le> i div 8" "i div 8 < length p + length xs"
      using assms(1) by (auto simp: nth_append split: if_splits)
    then show "8 * length p \<le> i \<and> i < 8 * length p + 32" using assms(2) by linarith
  qed
qed (use assms in simp_all)

subsection \<open>Properties\<close>

text \<open>C34: The checksum detects every burst of at most 32 bits, wherever it starts in the message
  and however it lies across the bytes: two different messages of one length whose bits differ only
  inside a span of 32 have different checksums.\<close>

theorem crc_burst_detected:
  assumes "length a = length b" and "a \<noteq> b"
    and "\<forall>i < 8 * length a. msg_bit a i \<noteq> msg_bit b i \<longrightarrow> j \<le> i \<and> i < j + 32"
  shows "crc32c a \<noteq> crc32c b"
  using assms by (rule crc32c_detects_bits)

text \<open>A burst of exactly 32 bits that touches five bytes.\<close>

theorem crc_burst_detected_witness:
  "crc32c [7, 0x80, 0, 0, 0, 0x40, 9] \<noteq> crc32c [7, 0, 0, 0, 0, 0x02, 9]"
proof (rule crc_burst_detected [where j = 15])
  let ?a = "[7, 0x80, 0, 0, 0, 0x40, 9] :: bytes" and ?b = "[7, 0, 0, 0, 0, 0x02, 9] :: bytes"
  have "list_all (\<lambda>i. msg_bit ?a i \<noteq> msg_bit ?b i \<longrightarrow> 15 \<le> i \<and> i < 15 + 32) [0..<56]"
    by (simp add: msg_bit_def upt_rec)
  then show "\<forall>i < 8 * length ?a. msg_bit ?a i \<noteq> msg_bit ?b i \<longrightarrow> 15 \<le> i \<and> i < 15 + 32"
    by (simp add: list_all_iff)
qed simp_all

end
