(* ===== verification/Block.thy ===== *)
theory Block
  imports Crc32c
begin

text \<open>
  Structural blocks of the container (the two headers, the two region tables): a four-byte
  signature, a CRC-32C stored at bytes 4 to 8, computed with that field zeroed. The source
  recomputes this check in \<open>verify_crc32c\<close> (\<open>core/src/header.rs\<close>), in
  \<open>parse_region_table\<close>, in \<open>block_crc\<close> and \<open>check_single_*_crc\<close>
  (\<open>forensic/src/integrity.rs\<close>), and rebuilds it in \<open>copy_block_with_crc\<close>
  (\<open>forensic/src/repair.rs\<close>). The locale \<open>sealed_block\<close> is the contract they share.
\<close>

definition zero_crc :: "bytes \<Rightarrow> bytes" where
  "zero_crc b = overwrite b 4 (replicate 4 0)"

text \<open>\<open>buf[4..8].fill(0)\<close> panics when the buffer is shorter than eight bytes.\<close>

definition block_crc :: "bytes \<Rightarrow> ('e, u32) outcome" where
  "block_crc block = and_then (put_slice block 4 (replicate 4 0)) (\<lambda>buf. Ok (crc32c buf))"

definition verify_crc32c :: "bytes \<Rightarrow> ('e, bool) outcome" where
  "verify_crc32c block =
     and_then (block_crc block) (\<lambda>crc. Ok (crc = le_u32 block 4))"

definition seal :: "bytes \<Rightarrow> bytes" where
  "seal b = overwrite b 4 (u32_to_le (crc32c (zero_crc b)))"

definition crc_ok :: "bytes \<Rightarrow> bool" where
  "crc_ok b = (crc32c (zero_crc b) = le_u32 b 4)"

definition block_valid :: "bytes \<Rightarrow> nat \<Rightarrow> bytes \<Rightarrow> nat \<Rightarrow> bool" where
  "block_valid sig sz d off =
     (off + sz \<le> length d \<and> window d off 4 = sig \<and> crc_ok (window d off sz))"

lemma block_crc_eval [outcome_simps]: "8 \<le> length b \<Longrightarrow> block_crc b = Ok (crc32c (zero_crc b))"
  by (simp add: block_crc_def zero_crc_def put_slice_def)

lemma verify_crc32c_eval [outcome_simps]: "8 \<le> length b \<Longrightarrow> verify_crc32c b = Ok (crc_ok b)"
  by (simp add: verify_crc32c_def outcome_simps crc_ok_def)

lemma length_zero_crc [simp]: "8 \<le> length b \<Longrightarrow> length (zero_crc b) = length b"
  by (simp add: zero_crc_def)

lemma length_seal [simp]: "8 \<le> length b \<Longrightarrow> length (seal b) = length b"
  by (simp add: seal_def)

lemma zero_crc_seal: "8 \<le> length b \<Longrightarrow> zero_crc (seal b) = zero_crc b"
  by (simp add: zero_crc_def seal_def overwrite_twice)

lemma crc_ok_seal: "8 \<le> length b \<Longrightarrow> crc_ok (seal b)"
  by (simp add: crc_ok_def zero_crc_seal) (simp add: seal_def le_u32_put)

lemma window_seal: "8 \<le> length b \<Longrightarrow> o2 + n \<le> 4 \<or> 8 \<le> o2 \<Longrightarrow> window (seal b) o2 n = window b o2 n"
  by (simp add: seal_def window_overwrite_disjoint)

lemma seal_crc_ok: "8 \<le> length b \<Longrightarrow> crc_ok b \<Longrightarrow> seal b = b"
  by (simp add: seal_def crc_ok_def u32_to_le_le_u32)

text \<open>
  Replacing at most four consecutive bytes outside the CRC field of a block whose CRC is
  right gives a block whose CRC is wrong.
\<close>

lemma zero_crc_overwrite:
  "8 \<le> k \<Longrightarrow> k + length xs \<le> length b \<Longrightarrow> zero_crc (overwrite b k xs) = overwrite (zero_crc b) k xs"
  unfolding zero_crc_def by (rule nth_equalityI) (auto simp: nth_overwrite)

lemma crc_ok_detects_burst:
  assumes ok: "crc_ok b" and k: "8 \<le> k" "k + length xs \<le> length b"
    and short: "length xs \<le> 4" and changed: "window b k (length xs) \<noteq> xs"
  shows "\<not> crc_ok (overwrite b k xs)"
proof
  assume "crc_ok (overwrite b k xs)"
  with ok k have same: "crc32c (overwrite (zero_crc b) k xs) = crc32c (zero_crc b)"
    by (simp add: crc_ok_def zero_crc_overwrite)
      (simp add: le_u32_def window_overwrite_disjoint)
  let ?z = "zero_crc b" and ?ys = "window (zero_crc b) k (length xs)"
  have lz: "k + length xs \<le> length ?z" using k by simp
  have ys: "?ys = window b k (length xs)"
    using k by (simp add: zero_crc_def window_overwrite_disjoint)
  have "?z = take k ?z @ ?ys @ drop (k + length xs) ?z"
    by (simp add: window_def append_assoc [symmetric] take_add [symmetric] del: append_assoc)
  with same have
    "crc32c (take k ?z @ xs @ drop (k + length xs) ?z)
      = crc32c (take k ?z @ ?ys @ drop (k + length xs) ?z)"
    by (simp add: overwrite_def)
  moreover have "length xs = length ?ys" using lz by simp
  ultimately show False
    using crc32c_detects_burst [of xs ?ys] short changed ys by metis
qed

text \<open>The signature and what follows the checksum field determine a block whose CRC is right.\<close>

lemma crc_ok_determined:
  assumes ok: "crc_ok a" "crc_ok b" and len: "length a = length b" "8 \<le> length b"
    and same: "\<And>i. i < 4 \<or> 8 \<le> i \<Longrightarrow> i < length b \<Longrightarrow> a ! i = b ! i"
  shows "a = b"
proof (rule nth_equalityI)
  have "zero_crc a = zero_crc b"
    unfolding zero_crc_def by (rule nth_equalityI) (use same len in \<open>auto simp: nth_overwrite\<close>)
  then have "le_u32 a 4 = le_u32 b 4" using ok by (simp add: crc_ok_def)
  then have w: "window a 4 4 = window b 4 4"
    using u32_to_le_le_u32 [of 4 a] u32_to_le_le_u32 [of 4 b] len by simp
  fix i assume i: "i < length a"
  show "a ! i = b ! i"
  proof (cases "i < 4 \<or> 8 \<le> i")
    case False
    then have "i - 4 < 4" "4 + (i - 4) = i" by auto
    then show ?thesis using arg_cong [OF w, of "\<lambda>l. l ! (i - 4)"] len False by simp
  qed (use same i len in simp)
qed (use len in simp)

text \<open>
  The changes that are always detected: any within the signature and the checksum field, and any
  of at most four consecutive bytes behind them. (One that straddles the end of the checksum field
  may not be: the stored checksum can move with the content.)
\<close>

definition detectable :: "nat \<Rightarrow> bytes \<Rightarrow> bool" where
  "detectable k xs \<longleftrightarrow> k + length xs \<le> 8 \<or> 8 \<le> k \<and> length xs \<le> 4"

locale sealed_block =
  fixes sig :: bytes and sz :: nat
  assumes sig_length: "length sig = 4"
    and sz_min: "8 \<le> sz"
begin

lemma valid_in_bounds: "block_valid sig sz d off \<Longrightarrow> off + sz \<le> length d"
  by (simp add: block_valid_def)

lemma valid_cong:
  assumes "length d = length d'" and "window d off sz = window d' off sz"
  shows "block_valid sig sz d off = block_valid sig sz d' off"
proof -
  have "window d off 4 = window d' off 4" if "off + sz \<le> length d"
    using arg_cong [OF assms(2), of "\<lambda>w. window w 0 4"] sz_min
    by (simp add: window_window)
  with assms show ?thesis by (auto simp: block_valid_def)
qed

lemma valid_frame:
  assumes "p + length xs \<le> length d" and "p + length xs \<le> off \<or> off + sz \<le> p"
  shows "block_valid sig sz (overwrite d p xs) off = block_valid sig sz d off"
  by (rule valid_cong) (use assms in \<open>auto simp: window_overwrite_disjoint\<close>)

lemma valid_write:
  assumes "off + sz \<le> length d" and "length b = sz" and "window b 0 4 = sig" and "crc_ok b"
  shows "block_valid sig sz (overwrite d off b) off"
proof -
  have w: "window (overwrite d off b) off sz = b"
    using assms by (simp add: window_overwrite_same)
  moreover have "window (overwrite d off b) off 4 = window b 0 4"
    using arg_cong [OF w, of "\<lambda>w. window w 0 4"] sz_min assms(1,2)
    by (simp add: window_window)
  ultimately show ?thesis using assms by (simp add: block_valid_def)
qed

lemma valid_seal:
  assumes "off + sz \<le> length d" and "length b = sz" and "window b 0 4 = sig"
  shows "block_valid sig sz (overwrite d off (seal b)) off"
  using assms sz_min by (intro valid_write) (auto simp: window_seal crc_ok_seal)

lemma valid_detects:
  assumes v: "block_valid sig sz d off" and burst: "detectable k xs" and k: "k + length xs \<le> sz"
    and changed: "window d (off + k) (length xs) \<noteq> xs"
  shows "\<not> block_valid sig sz (overwrite d (off + k) xs) off"
proof
  let ?b = "window d off sz" and ?d = "overwrite d (off + k) xs"
  assume v': "block_valid sig sz ?d off"
  from v have len: "off + sz \<le> length d" and ok: "crc_ok ?b" and sig: "window ?b 0 4 = sig"
    using sz_min by (auto simp: block_valid_def window_window)
  let ?b' = "overwrite ?b k xs"
  have b: "window ?d off sz = ?b'" using len k by (simp add: window_overwrite_within)
  have lb: "length ?b = sz" "length ?b' = sz" using len k by simp_all
  have w: "window ?b k (length xs) \<noteq> xs" using changed k len by (simp add: window_window)
  have ok': "crc_ok ?b'" and sig': "window ?b' 0 4 = sig"
    using v' len k sz_min unfolding b [symmetric] by (auto simp: block_valid_def window_window)
  show False
  proof (cases "8 \<le> k")
    case True
    then show False
      using crc_ok_detects_burst [OF ok True _ _ w] k burst ok' unfolding lb detectable_def by linarith
  next
    case early: False
    have head: "?b' ! i = ?b ! i" if "i < 4" for i
      using that arg_cong [OF trans [OF sig' sig [symmetric]], of "\<lambda>l. l ! i"] sz_min lb by simp
    have "?b' = ?b"
    proof (rule crc_ok_determined [OF ok' ok])
      show "?b' ! i = ?b ! i" if "i < 4 \<or> 8 \<le> i" "i < length ?b" for i
        using that head [of i] early burst k lb by (auto simp: detectable_def nth_overwrite)
    qed (use lb sz_min in simp_all)
    then have "window ?b k (length xs) = xs" using window_overwrite_same [of k xs ?b "length xs"] k lb by simp
    with w show False by simp
  qed
qed

lemma valid_moved:
  assumes "block_valid sig sz d o1" and "window d' o2 sz = window d o1 sz" and "o2 + sz \<le> length d'"
  shows "block_valid sig sz d' o2"
proof -
  have "window d' o2 4 = window d o1 4"
    using arg_cong [OF assms(2), of "\<lambda>w. window w 0 4"] sz_min by (simp add: window_window)
  with assms show ?thesis by (simp add: block_valid_def)
qed

end

end
