(* ===== verification/Header.thy ===== *)
theory Header
  imports Error Block
begin

text \<open>
  The header section (\<open>core/src/header.rs\<close>): two copies at fixed offsets, each sealed by
  a CRC; the active header is the valid copy with the higher sequence number.
\<close>

definition HEADER1_OFFSET :: nat where "HEADER1_OFFSET = 0x00010000"
definition HEADER2_OFFSET :: nat where "HEADER2_OFFSET = 0x00020000"
definition REGION_TABLE1_OFFSET :: nat where "REGION_TABLE1_OFFSET = 0x00030000"
definition REGION_TABLE2_OFFSET :: nat where "REGION_TABLE2_OFFSET = 0x00040000"

text \<open>The four bytes of \<open>head\<close>.\<close>

definition HEADER_SIGNATURE :: bytes where "HEADER_SIGNATURE = [0x68, 0x65, 0x61, 0x64]"
definition HEADER_SIZE :: nat where "HEADER_SIZE = 4096"

lemmas header_layout = HEADER1_OFFSET_def HEADER2_OFFSET_def REGION_TABLE1_OFFSET_def
  REGION_TABLE2_OFFSET_def HEADER_SIZE_def

record vhdx_header =
  sequence_number :: u64
  log_guid :: bytes
  log_offset :: u64
  log_length :: u32

definition parse_one_header :: "bytes \<Rightarrow> nat \<Rightarrow> vhdx_header result" where
  "parse_one_header data offset =
     and_then (ok_or (checked_add offset HEADER_SIZE) NoValidHeader) (\<lambda>hend.
     if length data < hend then Err NoValidHeader
     else
       and_then (slice data offset hend) (\<lambda>sl.
       and_then (slice sl 0 4) (\<lambda>sg.
       if sg \<noteq> HEADER_SIGNATURE then Err NoValidHeader
       else
         and_then (verify_crc32c sl) (\<lambda>ok.
         if \<not> ok then Err NoValidHeader
         else
           Ok \<lparr> sequence_number = le_u64 sl 8,
                log_guid = le_arr16 sl 48,
                log_offset = le_u64 sl 72,
                log_length = le_u32 sl 68 \<rparr>))))"

definition parse_active_header :: "bytes \<Rightarrow> vhdx_header result" where
  "parse_active_header data =
     (case parse_one_header data HEADER1_OFFSET of
        Panic \<Rightarrow> Panic
      | Ok a \<Rightarrow>
          (case parse_one_header data HEADER2_OFFSET of
             Panic \<Rightarrow> Panic
           | Ok b \<Rightarrow> if sequence_number a \<ge> sequence_number b then Ok a else Ok b
           | Err _ \<Rightarrow> Ok a)
      | Err _ \<Rightarrow>
          (case parse_one_header data HEADER2_OFFSET of
             Panic \<Rightarrow> Panic
           | Ok b \<Rightarrow> Ok b
           | Err _ \<Rightarrow> Err NoValidHeader))"

subsection \<open>Header copies as sealed blocks\<close>

interpretation hdr: sealed_block HEADER_SIGNATURE HEADER_SIZE
  by unfold_locales (simp_all add: HEADER_SIGNATURE_def HEADER_SIZE_def)

abbreviation header_valid :: "bytes \<Rightarrow> nat \<Rightarrow> bool" where
  "header_valid \<equiv> block_valid HEADER_SIGNATURE HEADER_SIZE"

text \<open>The fields of a header copy, read in place.\<close>

definition header_at :: "bytes \<Rightarrow> nat \<Rightarrow> vhdx_header" where
  "header_at d off =
     \<lparr> sequence_number = le_u64 d (off + 8),
       log_guid = le_arr16 d (off + 48),
       log_offset = le_u64 d (off + 72),
       log_length = le_u32 d (off + 68) \<rparr>"

lemma header_at_window:
  "off + HEADER_SIZE \<le> length d \<Longrightarrow>
   \<lparr> sequence_number = le_u64 (window d off HEADER_SIZE) 8,
     log_guid = le_arr16 (window d off HEADER_SIZE) 48,
     log_offset = le_u64 (window d off HEADER_SIZE) 72,
     log_length = le_u32 (window d off HEADER_SIZE) 68 \<rparr> = header_at d off"
  by (simp add: header_at_def le_u64_def le_u32_def le_arr16_def window_window HEADER_SIZE_def)

lemma parse_one_header_eq:
  "offset + HEADER_SIZE < 2 ^ 64 \<Longrightarrow>
   parse_one_header d offset =
     (if header_valid d offset then Ok (header_at d offset) else Err NoValidHeader)"
proof -
  assume bound: "offset + HEADER_SIZE < 2 ^ 64"
  show ?thesis
  proof (cases "offset + HEADER_SIZE \<le> length d")
    case True
    have sig: "window (window d offset HEADER_SIZE) 0 4 = window d offset 4"
      by (simp add: window_window HEADER_SIZE_def)
    have len: "length (window d offset HEADER_SIZE) = HEADER_SIZE"
      using True by simp
    have v: "verify_crc32c (window d offset HEADER_SIZE) = Ok (crc_ok (window d offset HEADER_SIZE))"
      by (rule verify_crc32c_eval) (simp only: len, simp add: HEADER_SIZE_def)
    have s4: "slice (window d offset HEADER_SIZE) 0 4 = Ok (window d offset 4)"
      using len sig by (simp add: slice_def HEADER_SIZE_def)
    show ?thesis
      using True bound header_at_window [OF True]
      by (simp add: parse_one_header_def checked_add_def slice_def [of d] block_valid_def v s4)
  next
    case False
    with bound show ?thesis
      by (simp add: parse_one_header_def checked_add_def block_valid_def)
  qed
qed

lemma parse_header_copies:
  "parse_one_header d HEADER1_OFFSET =
     (if header_valid d HEADER1_OFFSET then Ok (header_at d HEADER1_OFFSET) else Err NoValidHeader)"
  "parse_one_header d HEADER2_OFFSET =
     (if header_valid d HEADER2_OFFSET then Ok (header_at d HEADER2_OFFSET) else Err NoValidHeader)"
  by (rule parse_one_header_eq, simp add: header_layout)+

text \<open>The abstract choice: among the valid copies, a latest one, the first copy on a tie.\<close>

definition active_header :: "bytes \<Rightarrow> vhdx_header option" where
  "active_header d =
     (let copies = map (header_at d) (filter (header_valid d) [HEADER1_OFFSET, HEADER2_OFFSET])
      in find (\<lambda>h. \<forall>g \<in> set copies. sequence_number g \<le> sequence_number h) copies)"

lemma parse_active_header_refines:
  "parse_active_header d = ok_or (active_header d) NoValidHeader"
  by (auto simp: parse_active_header_def parse_header_copies active_header_def Let_def)

lemma parse_active_header_total: "parse_active_header d \<noteq> Panic"
  by (simp add: parse_active_header_refines)

text \<open>The header parser reads nothing beyond the second copy.\<close>

lemma header_valid_prefix:
  assumes "off + HEADER_SIZE \<le> n" and "n \<le> length d"
  shows "header_valid (take n d) off = header_valid d off"
proof -
  have "window (take n d) off HEADER_SIZE = window d off HEADER_SIZE"
    using assms by (simp add: window_def drop_take min_def)
  moreover have "window (take n d) off 4 = window d off 4"
    using assms by (simp add: window_def drop_take min_def HEADER_SIZE_def)
  ultimately show ?thesis using assms by (auto simp: block_valid_def)
qed

lemma header_at_prefix:
  assumes "off + HEADER_SIZE \<le> n" and "n \<le> length d"
  shows "header_at (take n d) off = header_at d off"
proof -
  have g: "get_or_zero (take n d) (off + k) m = get_or_zero d (off + k) m"
    if "k + m \<le> HEADER_SIZE" for k m
    using assms that by (simp add: get_or_zero_def window_def drop_take min_def)
  show ?thesis
    by (simp add: header_at_def le_u64_def le_u32_def le_arr16_def g HEADER_SIZE_def)
qed

lemma parse_active_header_prefix:
  assumes "HEADER2_OFFSET + HEADER_SIZE \<le> n" and "n \<le> length d"
  shows "parse_active_header (take n d) = parse_active_header d"
proof -
  have "HEADER1_OFFSET + HEADER_SIZE \<le> n" using assms by (simp add: header_layout)
  then show ?thesis
    using assms
    by (simp add: parse_active_header_def parse_header_copies header_valid_prefix header_at_prefix)
qed

subsection \<open>Properties\<close>

text \<open>C26: The active header is the valid copy with the higher sequence number, the first copy
  when they are equal, and there is none exactly when neither copy is valid; choosing it never
  panics, whatever the bytes.\<close>

theorem active_header_chosen:
  "parse_active_header d = ok_or (active_header d) NoValidHeader \<and> parse_active_header d \<noteq> Panic"
  by (simp add: parse_active_header_refines)

text \<open>C15: A header copy that is accepted is refused after any change within its signature and
  checksum field, and after any change of at most four consecutive bytes behind that field. (A
  change that straddles the end of the checksum field is not covered: the stored checksum could be
  made to fit the changed content.)\<close>

theorem header_tampering_detected:
  assumes "parse_one_header d off = Ok h" and "off + HEADER_SIZE < 2 ^ 64"
    and "k + length xs \<le> 8 \<or> 8 \<le> k \<and> length xs \<le> 4" and "k + length xs \<le> HEADER_SIZE"
    and "window d (off + k) (length xs) \<noteq> xs"
  shows "parse_one_header (overwrite d (off + k) xs) off = Err NoValidHeader"
proof -
  have "header_valid d off"
    using assms(1,2) by (simp add: parse_one_header_eq split: if_splits)
  from hdr.valid_detects [OF this _ assms(4,5)] assms(3)
  show ?thesis using assms(2) by (simp add: detectable_def parse_one_header_eq)
qed

text \<open>A header whose fields are all zero.\<close>

definition blank_header :: bytes where
  "blank_header = seal (HEADER_SIGNATURE @ replicate 4092 0)"

lemma blank_header_valid: "length blank_header = HEADER_SIZE" "header_valid blank_header 0"
proof -
  let ?b = "HEADER_SIGNATURE @ replicate 4092 0"
  have len: "length ?b = HEADER_SIZE" by (simp add: HEADER_SIGNATURE_def HEADER_SIZE_def)
  then have len8: "8 \<le> length ?b" by (simp add: HEADER_SIZE_def)
  from len show l: "length blank_header = HEADER_SIZE"
    unfolding blank_header_def by (simp add: HEADER_SIZE_def)
  have "window blank_header 0 4 = window ?b 0 4"
    unfolding blank_header_def using len8 by (rule window_seal) simp
  also have "\<dots> = HEADER_SIGNATURE" by (simp add: window_def HEADER_SIGNATURE_def)
  finally have w: "window blank_header 0 4 = HEADER_SIGNATURE" .
  have "crc_ok blank_header"
    unfolding blank_header_def using len by (intro crc_ok_seal) (simp add: HEADER_SIZE_def)
  then show "header_valid blank_header 0"
    using l w by (simp add: block_valid_def)
qed

theorem header_tampering_detected_witness:
  "parse_one_header (overwrite blank_header (0 + 72) [1]) 0 = Err NoValidHeader"
proof (rule header_tampering_detected)
  show "parse_one_header blank_header 0 = Ok (header_at blank_header 0)"
    using blank_header_valid by (simp add: parse_one_header_eq HEADER_SIZE_def)
  have len: "length (HEADER_SIGNATURE @ replicate 4092 (0 :: u8)) = 4096"
    by (simp add: HEADER_SIGNATURE_def)
  have "window blank_header 72 1 = window (HEADER_SIGNATURE @ replicate 4092 0) 72 1"
    unfolding blank_header_def using len by (intro window_seal) simp_all
  also have "\<dots> = window (replicate 4092 0) 68 1"
    by (subst window_append_right) (simp_all add: HEADER_SIGNATURE_def)
  finally have "window blank_header 72 1 = window (replicate 4092 0) 68 1" .
  then show "window blank_header (0 + 72) (length [1]) \<noteq> [1]"
    by (simp add: window_def)
qed (simp_all add: HEADER_SIZE_def)

text \<open>A container that ends with its first header copy.\<close>

definition blank_image :: bytes where
  "blank_image = replicate 65536 0 @ blank_header"

lemma blank_image_window: "window blank_image (65536 + k) n = window blank_header k n"
  by (simp add: blank_image_def window_def)

lemma length_blank_image: "length blank_image = 69632"
  by (simp add: blank_image_def blank_header_valid HEADER_SIZE_def)

lemma blank_image_header:
  "parse_active_header blank_image = Ok (header_at blank_image HEADER1_OFFSET)"
  "log_length (header_at blank_image HEADER1_OFFSET) = 0"
proof -
  have "header_valid blank_image HEADER1_OFFSET"
    using blank_header_valid blank_image_window [of 0]
    by (simp add: block_valid_def length_blank_image header_layout)
  moreover have "\<not> header_valid blank_image HEADER2_OFFSET"
    by (simp add: block_valid_def length_blank_image header_layout)
  ultimately show "parse_active_header blank_image = Ok (header_at blank_image HEADER1_OFFSET)"
    unfolding parse_active_header_def parse_header_copies by simp
  have "window blank_header 68 4 = window (HEADER_SIGNATURE @ replicate 4092 0) 68 4"
    unfolding blank_header_def by (intro window_seal) (simp_all add: HEADER_SIGNATURE_def)
  also have "\<dots> = window (replicate 4092 0) 64 4"
    by (subst window_append_right) (simp_all add: HEADER_SIGNATURE_def)
  finally have "window blank_image (65536 + 68) 4 = replicate 4 0"
    unfolding blank_image_window by (simp add: window_def)
  then show "log_length (header_at blank_image HEADER1_OFFSET) = 0"
    by (simp add: header_at_def le_u32_def length_blank_image header_layout)
qed

end
