(* ===== verification/Region.thy ===== *)
theory Region
  imports Header
begin

text \<open>
  The region table (\<open>core/src/region.rs\<close>): a sealed 64 KB block listing regions by GUID.
  The BAT and the metadata region must be present, and every listed region must lie within
  the container.
\<close>

text \<open>The four bytes of \<open>regi\<close>.\<close>

definition REGION_TABLE_SIGNATURE :: bytes where
  "REGION_TABLE_SIGNATURE = [0x72, 0x65, 0x67, 0x69]"

definition REGION_ENTRY_SIZE :: nat where "REGION_ENTRY_SIZE = 32"
definition REGION_TABLE_CRC_COVERAGE :: nat where "REGION_TABLE_CRC_COVERAGE = 65536"
definition MB :: nat where "MB = 0x00100000"
definition REGION_ENTRY_COUNT_MAX :: nat where "REGION_ENTRY_COUNT_MAX = 2048"

definition BAT_GUID :: bytes where
  "BAT_GUID =
     [0x66, 0x77, 0xC2, 0x2D, 0x23, 0xF6, 0x00, 0x42,
      0x9D, 0x64, 0x11, 0x5E, 0x9B, 0xFD, 0x4A, 0x08]"

definition METADATA_GUID :: bytes where
  "METADATA_GUID =
     [0x06, 0xA2, 0x7C, 0x8B, 0x90, 0x47, 0x9A, 0x4B,
      0xB8, 0xFE, 0x57, 0x5F, 0x05, 0x0F, 0x88, 0x6E]"

record region_entry =
  re_guid :: bytes
  re_file_offset :: u64
  re_length :: u32

record region_table =
  rt_bat :: region_entry
  rt_metadata :: region_entry

text \<open>The loop over the entries: it stops at the end of the table, and at the first error.\<close>

fun region_loop ::
  "bytes \<Rightarrow> nat \<Rightarrow> nat list \<Rightarrow> region_entry option \<Rightarrow> region_entry option \<Rightarrow>
   (region_entry option \<times> region_entry option) result" where
  "region_loop sl container_len [] bat metadata = Ok (bat, metadata)"
| "region_loop sl container_len (i # is) bat metadata =
     (let base = 16 + i * REGION_ENTRY_SIZE in
      if base + REGION_ENTRY_SIZE > length sl then Ok (bat, metadata)
      else
        and_then (slice sl base (base + 16)) (\<lambda>guid.
        let file_offset = le_u64 sl (base + 16);
            len = le_u32 sl (base + 24)
        in
        and_then (ok_or (checked_add (unat file_offset) (unat len)) OffsetOutOfBounds) (\<lambda>region_end.
        if region_end > container_len then Err OffsetOutOfBounds
        else
          let entry = \<lparr> re_guid = guid, re_file_offset = file_offset, re_length = len \<rparr> in
          if guid = BAT_GUID then region_loop sl container_len is (Some entry) metadata
          else if guid = METADATA_GUID then region_loop sl container_len is bat (Some entry)
          else region_loop sl container_len is bat metadata)))"

definition parse_region_table :: "bytes \<Rightarrow> nat \<Rightarrow> nat \<Rightarrow> region_table result" where
  "parse_region_table data offset container_len =
     and_then (add_u offset 16) (\<lambda>min_end.
     if length data < min_end then Err InvalidRegionTable
     else
       and_then (slice data offset (length data)) (\<lambda>sl.
       and_then (slice sl 0 4) (\<lambda>sg.
       if sg \<noteq> REGION_TABLE_SIGNATURE then Err InvalidRegionTable
       else
         let stored_crc = le_u32 sl 4;
             coverage = min 65536 (length sl)
         in
         and_then (slice sl 0 coverage) (\<lambda>buf.
         and_then (block_crc (buf @ replicate (65536 - length buf) 0)) (\<lambda>crc.
         if crc \<noteq> stored_crc then Err InvalidRegionTable
         else
           let entry_count = min (unat (le_u32 sl 8)) REGION_ENTRY_COUNT_MAX in
           and_then (region_loop sl container_len [0..<entry_count] None None) (\<lambda>(bat, metadata).
           and_then (ok_or bat BatRegionMissing) (\<lambda>b.
           and_then (ok_or metadata MetadataRegionMissing) (\<lambda>m.
           Ok \<lparr> rt_bat = b, rt_metadata = m \<rparr>))))))))"

interpretation rgn: sealed_block REGION_TABLE_SIGNATURE REGION_TABLE_CRC_COVERAGE
  by unfold_locales (simp_all add: REGION_TABLE_SIGNATURE_def REGION_TABLE_CRC_COVERAGE_def)

abbreviation region_table_valid :: "bytes \<Rightarrow> nat \<Rightarrow> bool" where
  "region_table_valid \<equiv> block_valid REGION_TABLE_SIGNATURE REGION_TABLE_CRC_COVERAGE"

subsection \<open>What an accepted table guarantees\<close>

definition entry_end :: "region_entry \<Rightarrow> nat" where
  "entry_end e = unat (re_file_offset e) + unat (re_length e)"

definition entry_in :: "nat \<Rightarrow> bytes \<Rightarrow> region_entry option \<Rightarrow> bool" where
  "entry_in container_len guid e =
     (case e of None \<Rightarrow> True | Some r \<Rightarrow> re_guid r = guid \<and> entry_end r \<le> container_len)"

lemma guids_differ: "BAT_GUID \<noteq> METADATA_GUID" "METADATA_GUID \<noteq> BAT_GUID"
  by (simp_all add: BAT_GUID_def METADATA_GUID_def)

lemma region_loop_inv:
  assumes "region_loop sl n is bat metadata = Ok (b, m)"
    and "entry_in n BAT_GUID bat" and "entry_in n METADATA_GUID metadata"
  shows "entry_in n BAT_GUID b \<and> entry_in n METADATA_GUID m"
  using assms
proof (induction sl n "is" bat metadata rule: region_loop.induct)
  case (1 sl n bat metadata)
  then show ?case by simp
next
  case (2 sl n i "is" bat metadata)
  show ?case
    using "2.prems" "2.IH"
    by (auto simp: Let_def and_then_Ok_iff entry_in_def entry_end_def split: if_splits)
qed

lemma region_loop_total: "region_loop sl n is bat metadata \<noteq> Panic"
proof (induction sl n "is" bat metadata rule: region_loop.induct)
  case (1 sl n bat metadata)
  then show ?case by simp
next
  case (2 sl n i "is" bat metadata)
  then show ?case
    by (auto simp: Let_def and_then_Panic_iff REGION_ENTRY_SIZE_def)
qed

lemma parse_region_table_total:
  assumes "offset + 16 < 2 ^ 64"
  shows "parse_region_table d offset n \<noteq> Panic"
proof -
  have pad: "block_crc (window x 0 (min 65536 k) @ replicate (65536 - min 65536 k) 0)
      \<noteq> (Panic :: u32 result)" if "length x = k" for x :: bytes and k
    using that by (subst block_crc_eval) auto
  have "length (window d offset (length d - offset)) = length d - offset" by simp
  from pad [OF this] assms show ?thesis
    by (auto simp: parse_region_table_def and_then_Panic_iff Let_def region_loop_total
        split: prod.splits)
qed

lemma parse_region_table_OkD:
  assumes "parse_region_table d offset n = Ok rt"
  shows "re_guid (rt_bat rt) = BAT_GUID" "entry_end (rt_bat rt) \<le> n"
    and "re_guid (rt_metadata rt) = METADATA_GUID" "entry_end (rt_metadata rt) \<le> n"
    and "window d offset 4 = REGION_TABLE_SIGNATURE" "offset + 16 \<le> length d"
proof -
  from assms obtain b m cnt where
    loop: "region_loop (window d offset (length d - offset)) n [0..<cnt] None None
      = Ok (Some b, Some m)"
    and rt: "rt = \<lparr> rt_bat = b, rt_metadata = m \<rparr>"
    and sig: "window (window d offset (length d - offset)) 0 4 = REGION_TABLE_SIGNATURE"
    and len: "offset + 16 \<le> length d"
    by (auto simp: parse_region_table_def and_then_Ok_iff Let_def split: if_splits)
  from region_loop_inv [OF loop] have "entry_in n BAT_GUID (Some b) \<and> entry_in n METADATA_GUID (Some m)"
    by (simp add: entry_in_def)
  with rt show "re_guid (rt_bat rt) = BAT_GUID" "entry_end (rt_bat rt) \<le> n"
    "re_guid (rt_metadata rt) = METADATA_GUID" "entry_end (rt_metadata rt) \<le> n"
    by (auto simp: entry_in_def)
  show "window d offset 4 = REGION_TABLE_SIGNATURE" "offset + 16 \<le> length d"
    using sig len by (simp_all add: window_window)
qed

text \<open>An accepted table that is fully in the buffer is a sealed block.\<close>

lemma parse_region_table_sealed:
  assumes "parse_region_table d offset n = Ok rt"
    and "offset + REGION_TABLE_CRC_COVERAGE \<le> length d"
  shows "region_table_valid d offset"
proof -
  let ?sl = "window d offset (length d - offset)"
  have big: "65536 \<le> length ?sl"
    using assms(2) by (simp add: REGION_TABLE_CRC_COVERAGE_def)
  have w: "window ?sl 0 65536 = window d offset 65536"
    using assms(2) by (simp add: window_window REGION_TABLE_CRC_COVERAGE_def)
  have "block_crc (window d offset 65536) = (Ok (le_u32 ?sl 4) :: u32 result)"
    using assms(1) big w
    by (auto simp: parse_region_table_def and_then_Ok_iff Let_def min_absorb1 split: if_splits)
  moreover have "block_crc (window d offset 65536)
      = (Ok (crc32c (zero_crc (window d offset 65536))) :: u32 result)"
    using big by (intro block_crc_eval) simp
  moreover have "le_u32 ?sl 4 = le_u32 (window d offset 65536) 4"
    using big by (simp add: le_u32_def window_window)
  ultimately have "crc_ok (window d offset 65536)"
    by (simp add: crc_ok_def)
  with assms parse_region_table_OkD(5) [OF assms(1)] show ?thesis
    by (simp add: block_valid_def REGION_TABLE_CRC_COVERAGE_def)
qed

subsection \<open>Properties\<close>

text \<open>C18: A region table that is accepted is sealed by its checksum, its two regions carry the BAT
  and the metadata GUID, and both lie within the container, with no wrap-around of their end.\<close>

theorem accepted_regions_in_container:
  assumes "parse_region_table d off n = Ok rt" and "off + REGION_TABLE_CRC_COVERAGE \<le> length d"
  shows "region_table_valid d off
    \<and> re_guid (rt_bat rt) = BAT_GUID \<and> re_guid (rt_metadata rt) = METADATA_GUID
    \<and> unat (re_file_offset (rt_bat rt)) + unat (re_length (rt_bat rt)) \<le> n
    \<and> unat (re_file_offset (rt_metadata rt)) + unat (re_length (rt_metadata rt)) \<le> n"
  using parse_region_table_sealed [OF assms] parse_region_table_OkD [OF assms(1)]
  by (simp add: entry_end_def)

text \<open>A table with the BAT at 1 MiB and the metadata at 2 MiB, one MiB each.\<close>

definition sample_entries :: bytes where
  "sample_entries =
     REGION_TABLE_SIGNATURE @ [0, 0, 0, 0] @ [2, 0, 0, 0] @ [0, 0, 0, 0]
     @ BAT_GUID @ [0, 0, 16, 0, 0, 0, 0, 0] @ [0, 0, 16, 0] @ [1, 0, 0, 0]
     @ METADATA_GUID @ [0, 0, 32, 0, 0, 0, 0, 0] @ [0, 0, 16, 0] @ [1, 0, 0, 0]"

definition sample_table :: bytes where
  "sample_table = seal (sample_entries @ replicate 65456 0)"

lemma length_sample_entries: "length sample_entries = 80"
  by (simp add: sample_entries_def REGION_TABLE_SIGNATURE_def BAT_GUID_def METADATA_GUID_def)

lemma length_sample_table: "length sample_table = 65536"
  unfolding sample_table_def by (simp add: length_sample_entries)

lemma sample_table_window:
  assumes "o1 + n \<le> 80" and "o1 + n \<le> 4 \<or> 8 \<le> o1"
  shows "window sample_table o1 n = window sample_entries o1 n"
proof -
  have "window sample_table o1 n = window (sample_entries @ replicate 65456 0) o1 n"
    unfolding sample_table_def using assms(2)
    by (intro window_seal) (simp_all add: length_sample_entries)
  also have "\<dots> = window sample_entries o1 n"
    using assms(1) by (intro window_append_left) (simp add: length_sample_entries)
  finally show ?thesis .
qed

lemma sample_table_get:
  assumes "o1 + n \<le> 80" and "8 \<le> o1"
  shows "get_or_zero sample_table o1 n = window sample_entries o1 n"
  using assms by (simp add: length_sample_table sample_table_window)

lemma sample_table_crc: "crc_ok sample_table"
  unfolding sample_table_def by (rule crc_ok_seal) (simp add: length_sample_entries)

lemma sample_fields:
  "window sample_table 0 4 = REGION_TABLE_SIGNATURE"
  "le_u32 sample_table 8 = 2"
  "window sample_table 16 16 = BAT_GUID" "window sample_table 48 16 = METADATA_GUID"
  "le_u64 sample_table 32 = 0x100000" "le_u64 sample_table 64 = 0x200000"
  "le_u32 sample_table 40 = 0x100000" "le_u32 sample_table 72 = 0x100000"
  by (simp_all add: sample_table_window le_u32_def le_u64_def sample_table_get)
    (simp_all add: sample_entries_def REGION_TABLE_SIGNATURE_def BAT_GUID_def METADATA_GUID_def window_def)

lemma sample_table_parsed:
  "parse_region_table sample_table 0 0x300000 =
     Ok \<lparr> rt_bat = \<lparr> re_guid = BAT_GUID, re_file_offset = 0x100000, re_length = 0x100000 \<rparr>,
          rt_metadata = \<lparr> re_guid = METADATA_GUID, re_file_offset = 0x200000, re_length = 0x100000 \<rparr> \<rparr>"
proof -
  have all: "slice sample_table 0 (length sample_table) = Ok sample_table"
    by (simp add: slice_def)
  have s4: "slice sample_table 0 4 = Ok REGION_TABLE_SIGNATURE"
    by (simp add: slice_def length_sample_table sample_fields)
  have cov: "min 65536 (length sample_table) = 65536" by (simp add: length_sample_table)
  have s64: "slice sample_table 0 65536 = Ok sample_table"
    by (simp add: slice_def length_sample_table)
  have crc: "block_crc (sample_table @ replicate (65536 - length sample_table) 0)
      = (Ok (le_u32 sample_table 4) :: u32 result)"
    using sample_table_crc by (simp add: length_sample_table block_crc_eval crc_ok_def)
  have loop: "region_loop sample_table 0x300000 [0..<2] None None
      = Ok (Some \<lparr> re_guid = BAT_GUID, re_file_offset = 0x100000, re_length = 0x100000 \<rparr>,
            Some \<lparr> re_guid = METADATA_GUID, re_file_offset = 0x200000, re_length = 0x100000 \<rparr>)"
    by (simp add: upt_rec Let_def REGION_ENTRY_SIZE_def length_sample_table slice_def sample_fields
        checked_add_def guids_differ)
  have count: "min (unat (le_u32 sample_table 8)) REGION_ENTRY_COUNT_MAX = 2"
    by (simp add: sample_fields REGION_ENTRY_COUNT_MAX_def)
  show ?thesis
    unfolding parse_region_table_def all s4 Let_def cov s64 and_then.simps crc count loop
    by (simp add: add_u_def length_sample_table all s4 crc count loop)
qed

theorem accepted_regions_in_container_witness:
  "region_table_valid sample_table 0"
  using accepted_regions_in_container [OF sample_table_parsed]
  by (simp add: REGION_TABLE_CRC_COVERAGE_def length_sample_table)

end
