(* ===== verification/Metadata.thy ===== *)
theory Metadata
  imports Error Bytes
begin

text \<open>
  The metadata region (\<open>core/src/metadata.rs\<close>): a table of items found by GUID, of which
  the reader keeps the block size, the parent flag, the virtual disk size and the logical
  sector size, and the validation those values must pass.
\<close>

text \<open>The eight bytes of \<open>metadata\<close>.\<close>

definition METADATA_TABLE_SIGNATURE :: bytes where
  "METADATA_TABLE_SIGNATURE = [0x6D, 0x65, 0x74, 0x61, 0x64, 0x61, 0x74, 0x61]"

definition BLOCK_SIZE_MIN :: u32 where "BLOCK_SIZE_MIN = push_bit 20 1"
definition BLOCK_SIZE_MAX :: u32 where "BLOCK_SIZE_MAX = push_bit 20 256"
definition VALID_SECTOR_SIZES :: "u32 list" where "VALID_SECTOR_SIZES = [512, 4096]"
definition VIRTUAL_DISK_SIZE_MAX :: u64 where "VIRTUAL_DISK_SIZE_MAX = 64 * push_bit 40 1"

definition GUID_FILE_PARAMETERS :: bytes where
  "GUID_FILE_PARAMETERS =
     [0x37, 0x67, 0xA1, 0xCA, 0x36, 0xFA, 0x43, 0x4D,
      0xB3, 0xB6, 0x33, 0xF0, 0xAA, 0x44, 0xE7, 0x6B]"

definition GUID_VIRTUAL_DISK_SIZE :: bytes where
  "GUID_VIRTUAL_DISK_SIZE =
     [0x24, 0x42, 0xA5, 0x2F, 0x1B, 0xCD, 0x76, 0x48,
      0xB2, 0x11, 0x5B, 0xE0, 0x7A, 0x6C, 0xE3, 0x2C]"

definition GUID_VIRTUAL_DISK_SIZE_QEMU_COMPAT :: bytes where
  "GUID_VIRTUAL_DISK_SIZE_QEMU_COMPAT =
     [0x24, 0x42, 0xA5, 0x2F, 0x1B, 0xCD, 0x76, 0x48,
      0xB2, 0x11, 0x5D, 0xBE, 0xD8, 0x3B, 0xF4, 0xB8]"

definition GUID_LOGICAL_SECTOR_SIZE :: bytes where
  "GUID_LOGICAL_SECTOR_SIZE =
     [0x1D, 0xBF, 0x41, 0x81, 0x6F, 0xA9, 0x09, 0x47,
      0xBA, 0x47, 0xF2, 0x33, 0xA8, 0xFA, 0xAB, 0x5F]"

definition GUID_PHYSICAL_SECTOR_SIZE :: bytes where
  "GUID_PHYSICAL_SECTOR_SIZE =
     [0xC7, 0x48, 0xA3, 0xCD, 0x5D, 0x44, 0x71, 0x44,
      0x9C, 0xC9, 0xE9, 0x88, 0x52, 0x51, 0xC5, 0x56]"

definition GUID_VIRTUAL_DISK_ID :: bytes where
  "GUID_VIRTUAL_DISK_ID =
     [0xAB, 0x12, 0xCA, 0xBE, 0xE6, 0xB2, 0x23, 0x45,
      0x93, 0xEF, 0xC3, 0x09, 0xE0, 0x00, 0xC7, 0x46]"

definition GUID_PARENT_LOCATOR :: bytes where
  "GUID_PARENT_LOCATOR =
     [0x2D, 0x5F, 0xD3, 0xA8, 0x0B, 0xB3, 0x4D, 0x45,
      0xAB, 0xF7, 0xD3, 0xD8, 0x48, 0x34, 0xAB, 0x0C]"

record vhdx_metadata =
  block_size :: u32
  has_parent :: bool
  virtual_disk_size :: u64
  logical_sector_size :: u32

text \<open>\<open>u32::count_ones\<close>.\<close>

definition count_ones :: "u32 \<Rightarrow> nat" where
  "count_ones w = length (filter (bit w) [0..<32])"

definition chunk_ratio :: "vhdx_metadata \<Rightarrow> ('e, nat) outcome" where
  "chunk_ratio m =
     and_then (mul_u (2 ^ 23) (unat (logical_sector_size m))) (\<lambda>p.
     div_u p (unat (block_size m)))"

definition validate :: "vhdx_metadata \<Rightarrow> unit result" where
  "validate m =
     (if block_size m < BLOCK_SIZE_MIN \<or> block_size m > BLOCK_SIZE_MAX
      then Err (InvalidMetadata ''BlockSize must be in [1 MB, 256 MB]'')
      else if count_ones (block_size m) \<noteq> 1
      then Err (InvalidMetadata ''BlockSize must be a power of two'')
      else if logical_sector_size m \<notin> set VALID_SECTOR_SIZES
      then Err (InvalidMetadata ''LogicalSectorSize must be 512 or 4096'')
      else if virtual_disk_size m = 0
      then Err (InvalidMetadata ''VirtualDiskSize cannot be zero'')
      else if virtual_disk_size m > VIRTUAL_DISK_SIZE_MAX
      then Err (InvalidMetadata ''VirtualDiskSize exceeds the 64 TiB spec limit'')
      else
        and_then (mod_u (unat (virtual_disk_size m)) (unat (logical_sector_size m))) (\<lambda>r.
        if r \<noteq> 0
        then Err (InvalidMetadata ''VirtualDiskSize must be a multiple of LogicalSectorSize'')
        else Ok ()))"

text \<open>The values collected while the items are scanned.\<close>

record meta_items =
  mi_block_size :: "u32 option"
  mi_has_parent :: bool
  mi_virtual_disk_size :: "u64 option"
  mi_logical_sector_size :: "u32 option"

definition no_items :: meta_items where
  "no_items = \<lparr> mi_block_size = None, mi_has_parent = False,
                mi_virtual_disk_size = None, mi_logical_sector_size = None \<rparr>"

definition apply_item :: "bytes \<Rightarrow> bytes \<Rightarrow> meta_items \<Rightarrow> meta_items" where
  "apply_item guid item acc =
     (if guid = GUID_FILE_PARAMETERS \<and> length item \<ge> 8
      then acc\<lparr> mi_block_size := Some (le_u32 item 0),
               mi_has_parent := (le_u32 item 4 AND 2 \<noteq> 0) \<rparr>
      else if (guid = GUID_VIRTUAL_DISK_SIZE \<or> guid = GUID_VIRTUAL_DISK_SIZE_QEMU_COMPAT)
            \<and> length item \<ge> 8
      then acc\<lparr> mi_virtual_disk_size := Some (le_u64 item 0) \<rparr>
      else if guid = GUID_LOGICAL_SECTOR_SIZE \<and> length item \<ge> 4
      then acc\<lparr> mi_logical_sector_size := Some (le_u32 item 0) \<rparr>
      else acc)"

text \<open>
  The loop: it stops at the end of the region and skips an item whose data lies outside
  the buffer.
\<close>

fun metadata_loop :: "bytes \<Rightarrow> nat \<Rightarrow> bytes \<Rightarrow> nat list \<Rightarrow> meta_items \<Rightarrow> meta_items result" where
  "metadata_loop data start region [] acc = Ok acc"
| "metadata_loop data start region (i # is) acc =
     (let base = 32 + i * 32 in
      if base + 32 > length region then Ok acc
      else
        and_then (slice region base (base + 16)) (\<lambda>guid.
        let item_offset = unat (le_u32 region (base + 16));
            item_len = unat (le_u32 region (base + 20))
        in
        and_then (add_u start item_offset) (\<lambda>data_start.
        and_then (add_u data_start item_len) (\<lambda>data_end.
        if length data < data_end then metadata_loop data start region is acc
        else
          and_then (slice data data_start data_end) (\<lambda>item.
          metadata_loop data start region is (apply_item guid item acc))))))"

definition parse_metadata :: "bytes \<Rightarrow> nat \<Rightarrow> u32 \<Rightarrow> vhdx_metadata result" where
  "parse_metadata data region_offset region_len =
     (let start = region_offset in
      and_then (add_u start (unat region_len)) (\<lambda>rend.
      if length data < rend then Err (MetadataMissing ''region out of bounds'')
      else
      and_then (add_u start 8) (\<lambda>min_end.
      if rend < min_end then Err (MetadataMissing ''region out of bounds'')
      else
      and_then (slice data start rend) (\<lambda>region.
      and_then (slice region 0 8) (\<lambda>sg.
      if sg \<noteq> METADATA_TABLE_SIGNATURE then Err (MetadataMissing ''bad metadata signature'')
      else
      let entry_count = unat (le_u16 region 10) in
      and_then (metadata_loop data start region [0..<entry_count] no_items) (\<lambda>acc.
      and_then (ok_or (mi_block_size acc) (MetadataMissing ''BlockSize'')) (\<lambda>bs.
      and_then (ok_or (mi_virtual_disk_size acc) (MetadataMissing ''VirtualDiskSize'')) (\<lambda>vds.
      Ok \<lparr> block_size = bs,
           has_parent = mi_has_parent acc,
           virtual_disk_size = vds,
           logical_sector_size =
             (case mi_logical_sector_size acc of Some s \<Rightarrow> s | None \<Rightarrow> 512) \<rparr>))))))))"

subsection \<open>Totality\<close>

lemma metadata_loop_total:
  "length data + 2 ^ 33 < 2 ^ 64 \<Longrightarrow> start \<le> length data \<Longrightarrow>
   metadata_loop data start region is acc \<noteq> Panic"
proof (induction data start region "is" acc rule: metadata_loop.induct)
  case (1 data start region acc)
  then show ?case by simp
next
  case (2 data start region i "is" acc)
  note b = unat_u32_bound
  show ?case
    using "2.IH" "2.prems" b [of "le_u32 region (48 + i * 32)"] b [of "le_u32 region (52 + i * 32)"]
    by (auto simp: Let_def and_then_Panic_iff)
qed

lemma parse_metadata_total:
  assumes "length data < 2 ^ 63" and "off \<le> length data"
  shows "parse_metadata data off len \<noteq> Panic"
proof -
  note b = unat_u32_bound [of len]
  show ?thesis
    using assms b by (auto simp: parse_metadata_def Let_def and_then_Panic_iff metadata_loop_total)
qed

subsection \<open>What validation accepts\<close>

text \<open>The values MS-VHDX allows, as a predicate on numbers.\<close>

definition metadata_ok :: "vhdx_metadata \<Rightarrow> bool" where
  "metadata_ok m =
     ((\<exists>k \<in> {20..28}. unat (block_size m) = 2 ^ k)
      \<and> unat (logical_sector_size m) \<in> {512, 4096}
      \<and> 0 < unat (virtual_disk_size m) \<and> unat (virtual_disk_size m) \<le> 2 ^ 46
      \<and> unat (logical_sector_size m) dvd unat (virtual_disk_size m))"

lemma filter_singleton_iff:
  "length (filter P [0..<n]) = 1 \<longleftrightarrow> (\<exists>k<n. \<forall>i<n. P i = (i = k))"
proof -
  have "length (filter P [0..<n]) = card {i. i < n \<and> P i}"
    by (simp add: distinct_card [symmetric] conj_commute)
  also have "\<dots> = 1 \<longleftrightarrow> (\<exists>k. {i. i < n \<and> P i} = {k})"
    by (rule card_1_singleton_iff [unfolded One_nat_def [symmetric]])
  also have "\<dots> \<longleftrightarrow> (\<exists>k<n. \<forall>i<n. P i = (i = k))"
    by (auto simp: set_eq_iff)
  finally show ?thesis .
qed

lemma unat_exp: "k < 32 \<Longrightarrow> unat (2 ^ k :: u32) = 2 ^ k"
  by (rule unat_pow2) simp

lemma count_ones_1: "count_ones w = 1 \<longleftrightarrow> (\<exists>k<32. unat w = 2 ^ k)"
proof -
  have "count_ones w = 1 \<longleftrightarrow> (\<exists>k<32. \<forall>i<32. bit w i = (i = k))"
    by (simp add: count_ones_def filter_singleton_iff [unfolded One_nat_def])
  also have "\<dots> \<longleftrightarrow> (\<exists>k<32. w = 2 ^ k)"
  proof -
    have "(\<forall>i<32. bit w i = (i = k)) = (w = 2 ^ k)" if "k < 32" for k
    proof
      assume h: "\<forall>i<32. bit w i = (i = k)"
      show "w = 2 ^ k"
        by (rule bit_word_eqI) (use h that in \<open>simp add: bit_exp_iff eq_commute\<close>)
    qed (use that in \<open>auto simp: bit_exp_iff\<close>)
    then show ?thesis by auto
  qed
  also have "\<dots> \<longleftrightarrow> (\<exists>k<32. unat w = 2 ^ k)"
    by (metis unat_exp unsigned_word_eqI)
  finally show ?thesis .
qed

lemma validate_not_Panic: "validate m \<noteq> Panic"
  by (auto simp: validate_def VALID_SECTOR_SIZES_def and_then_Panic_iff)

lemma pow2_range: "(2::nat) ^ 20 \<le> 2 ^ k \<and> (2::nat) ^ k \<le> 2 ^ 28 \<longleftrightarrow> k \<in> {20..28}"
  by (simp only: power_increasing_iff [of "2::nat"] one_less_numeral_iff semiring_norm atLeastAtMost_iff)

lemma block_size_range:
  "\<not> (w < BLOCK_SIZE_MIN \<or> w > BLOCK_SIZE_MAX) \<longleftrightarrow> 2 ^ 20 \<le> unat w \<and> unat w \<le> 2 ^ 28"
  by (auto simp: BLOCK_SIZE_MIN_def BLOCK_SIZE_MAX_def word_less_nat_alt not_less)

lemma block_size_ok_iff:
  "(\<not> (w < BLOCK_SIZE_MIN \<or> w > BLOCK_SIZE_MAX) \<and> count_ones w = 1)
     = (\<exists>k \<in> {20..28}. unat w = 2 ^ k)"
proof
  assume h: "\<not> (w < BLOCK_SIZE_MIN \<or> w > BLOCK_SIZE_MAX) \<and> count_ones w = 1"
  then have "\<exists>k<32. unat w = 2 ^ k" using count_ones_1 [of w] by blast
  then obtain k where k: "unat w = 2 ^ k" by blast
  from h have "(2::nat) ^ 20 \<le> 2 ^ k \<and> (2::nat) ^ k \<le> 2 ^ 28"
    using block_size_range [of w] k by simp
  then have "k \<in> {20..28}" by (rule pow2_range [THEN iffD1])
  with k show "\<exists>k \<in> {20..28}. unat w = 2 ^ k" by blast
next
  assume "\<exists>k \<in> {20..28}. unat w = 2 ^ k"
  then obtain k where k: "k \<in> {20..28}" "unat w = 2 ^ k" by blast
  from k(1) have "(2::nat) ^ 20 \<le> 2 ^ k \<and> (2::nat) ^ k \<le> 2 ^ 28" by (rule pow2_range [THEN iffD2])
  with k have "2 ^ 20 \<le> unat w \<and> unat w \<le> 2 ^ 28" by simp
  moreover have "count_ones w = 1"
    unfolding count_ones_1 using k by (intro exI [of _ k]) auto
  ultimately show "\<not> (w < BLOCK_SIZE_MIN \<or> w > BLOCK_SIZE_MAX) \<and> count_ones w = 1"
    using block_size_range by blast
qed

lemma sector_size_ok_iff:
  "(s \<in> set VALID_SECTOR_SIZES) = (unat s \<in> {512, 4096})"
  by (auto simp: VALID_SECTOR_SIZES_def word_unat_eq_iff)

lemma disk_size_max: "unat VIRTUAL_DISK_SIZE_MAX = 2 ^ 46"
  by (simp add: VIRTUAL_DISK_SIZE_MAX_def)

lemma disk_size_ok_iff:
  "(v \<noteq> 0 \<and> \<not> v > VIRTUAL_DISK_SIZE_MAX) = (0 < unat v \<and> unat v \<le> 2 ^ 46)"
  by (auto simp: word_less_nat_alt disk_size_max unat_gt_0 not_less)

lemma validate_iff: "(validate m = Ok ()) = metadata_ok m"
proof -
  have "(validate m = Ok ()) =
      (\<not> (block_size m < BLOCK_SIZE_MIN \<or> block_size m > BLOCK_SIZE_MAX)
       \<and> count_ones (block_size m) = 1
       \<and> logical_sector_size m \<in> set VALID_SECTOR_SIZES
       \<and> virtual_disk_size m \<noteq> 0 \<and> \<not> virtual_disk_size m > VIRTUAL_DISK_SIZE_MAX
       \<and> unat (virtual_disk_size m) mod unat (logical_sector_size m) = 0)"
    by (auto simp: validate_def and_then_Ok_iff VALID_SECTOR_SIZES_def)
  also have "\<dots> = metadata_ok m"
    using block_size_ok_iff [of "block_size m"] sector_size_ok_iff [of "logical_sector_size m"]
      disk_size_ok_iff [of "virtual_disk_size m"]
    unfolding metadata_ok_def dvd_eq_mod_eq_0 by blast
  finally show ?thesis .
qed

subsection \<open>The chunk ratio\<close>

definition block_bytes :: "vhdx_metadata \<Rightarrow> nat" where
  "block_bytes m = unat (block_size m)"

definition sector_bytes :: "vhdx_metadata \<Rightarrow> nat" where
  "sector_bytes m = unat (logical_sector_size m)"

definition disk_bytes :: "vhdx_metadata \<Rightarrow> nat" where
  "disk_bytes m = unat (virtual_disk_size m)"

definition ratio :: "vhdx_metadata \<Rightarrow> nat" where
  "ratio m = 2 ^ 23 * sector_bytes m div block_bytes m"

lemma metadata_okE:
  assumes "metadata_ok m"
  obtains k l where "k \<in> {20..28}" "l \<in> {9, 12}" "block_bytes m = 2 ^ k" "sector_bytes m = 2 ^ l"
    "ratio m = 2 ^ (23 + l - k)"
proof -
  from assms obtain k where k: "k \<in> {20..28}" "block_bytes m = 2 ^ k"
    by (auto simp: metadata_ok_def block_bytes_def)
  from assms have "sector_bytes m = 2 ^ 9 \<or> sector_bytes m = 2 ^ 12"
    by (auto simp: metadata_ok_def sector_bytes_def)
  then obtain l where l: "l \<in> {9, 12}" "sector_bytes m = 2 ^ l" by blast
  have "ratio m = 2 ^ (23 + l) div 2 ^ k"
    unfolding ratio_def k(2) l(2) by (simp only: power_add)
  also have "\<dots> = 2 ^ (23 + l - k)"
    using k(1) l(1) by (intro power_diff [symmetric]) auto
  finally show ?thesis using that k l by blast
qed

lemma chunk_ratio_eval:
  assumes "metadata_ok m"
  shows "chunk_ratio m = Ok (ratio m)"
proof -
  from assms obtain k where k: "unat (block_size m) = 2 ^ k" by (auto simp: metadata_ok_def)
  have "unat (logical_sector_size m) < 2 ^ 32"
    using unat_u32_bound [of "logical_sector_size m"] by simp
  then show ?thesis
    using k by (simp add: chunk_ratio_def outcome_simps ratio_def sector_bytes_def block_bytes_def)
qed

text \<open>
  A chunk covers exactly \<open>2 ^ 23\<close> sectors, whose ownership bits fill exactly one 1 MiB
  bitmap block, and a block holds a multiple of eight sectors.
\<close>

lemma geometry:
  assumes "metadata_ok m"
  shows "ratio m * block_bytes m = 2 ^ 23 * sector_bytes m"
    and "ratio m * (block_bytes m div sector_bytes m) = 2 ^ 23"
    and "8 dvd block_bytes m div sector_bytes m"
    and "sector_bytes m dvd block_bytes m"
    and "16 \<le> ratio m" "ratio m \<le> 2 ^ 15"
    and "0 < block_bytes m" "block_bytes m \<le> 2 ^ 28"
    and "512 \<le> sector_bytes m" "sector_bytes m \<le> 4096"
    and "disk_bytes m \<le> 2 ^ 46"
proof -
  obtain k l where k: "k \<in> {20..28}" and l: "l \<in> {9, 12}"
    and b: "block_bytes m = 2 ^ k" and s: "sector_bytes m = 2 ^ l"
    and r: "ratio m = 2 ^ (23 + l - k)"
    using assms by (rule metadata_okE)
  have kl: "l \<le> k" "k \<le> 23 + l" using k l by auto
  have q: "block_bytes m div sector_bytes m = 2 ^ (k - l)"
    unfolding b s using kl by (simp add: power_diff)
  show "ratio m * block_bytes m = 2 ^ 23 * sector_bytes m"
    unfolding r b s power_add [symmetric] using kl by simp
  show "ratio m * (block_bytes m div sector_bytes m) = 2 ^ 23"
    unfolding r q power_add [symmetric] using kl by simp
  have "(2::nat) ^ 3 dvd 2 ^ (k - l)" using k l by (intro le_imp_power_dvd) auto
  then show "8 dvd block_bytes m div sector_bytes m" unfolding q by simp
  show "sector_bytes m dvd block_bytes m" unfolding b s using kl by (intro le_imp_power_dvd) auto
  have "(2::nat) ^ 4 \<le> 2 ^ (23 + l - k)" "(2::nat) ^ (23 + l - k) \<le> 2 ^ 15"
    using k l by (intro power_increasing; auto)+
  then show "16 \<le> ratio m" "ratio m \<le> 2 ^ 15" unfolding r by simp_all
  show "0 < block_bytes m" unfolding b by simp
  have "(2::nat) ^ k \<le> 2 ^ 28" using k by (intro power_increasing) auto
  then show "block_bytes m \<le> 2 ^ 28" unfolding b .
  show "512 \<le> sector_bytes m" "sector_bytes m \<le> 4096" unfolding s using l by auto
  show "disk_bytes m \<le> 2 ^ 46" using assms by (simp add: metadata_ok_def disk_bytes_def)
qed

subsection \<open>Properties\<close>

text \<open>C24: Validation accepts exactly the metadata the format allows: a block size that is a power
  of two from 1 MiB to 256 MiB, sectors of 512 or 4096 bytes, and a disk of at least one byte
  and at most 64 TiB that is a multiple of the sector size; it never panics.\<close>

theorem validation_exact:
  "(validate m = Ok ()) = metadata_ok m \<and> validate m \<noteq> Panic"
  by (simp add: validate_iff validate_not_Panic)

text \<open>C33: On validated metadata the chunk ratio is computed without overflow or division by zero;
  a chunk of \<open>ratio\<close> blocks has exactly as many sectors as its 1 MiB bitmap block has bits, and
  a block is a whole number of bitmap bytes.\<close>

theorem chunk_geometry:
  assumes "validate m = Ok ()"
  shows "chunk_ratio m = Ok (ratio m) \<and> 16 \<le> ratio m \<and> ratio m \<le> 2 ^ 15
    \<and> ratio m * (block_bytes m div sector_bytes m) = 8 * 2 ^ 20
    \<and> 8 dvd block_bytes m div sector_bytes m"
proof -
  have ok: "metadata_ok m" using assms validate_iff by blast
  show ?thesis using chunk_ratio_eval [OF ok] geometry(2,3,5,6) [OF ok] by simp
qed

theorem chunk_geometry_witness:
  "chunk_ratio \<lparr> block_size = 0x100000, has_parent = False, virtual_disk_size = 4096,
      logical_sector_size = 512 \<rparr> = Ok 4096"
proof -
  let ?m = "\<lparr> block_size = 0x100000, has_parent = False, virtual_disk_size = 4096,
      logical_sector_size = 512 \<rparr>"
  have "metadata_ok ?m" by (auto simp: metadata_ok_def intro!: bexI [of _ 20])
  then have "validate ?m = Ok ()" by (simp only: validate_iff)
  from chunk_geometry [OF this] show ?thesis
    by (simp add: ratio_def sector_bytes_def block_bytes_def)
qed

end
