(* ===== verification/Bat.thy ===== *)
theory Bat
  imports Metadata
begin

text \<open>
  The block allocation table (\<open>core/src/bat.rs\<close>): where the bytes of a virtual offset live.
  Payload entries of a chunk are followed by one sector bitmap entry, so block \<open>b\<close> is found
  at index \<open>b + b div ratio\<close>.
\<close>

definition PAYLOAD_BLOCK_NOT_PRESENT :: nat where "PAYLOAD_BLOCK_NOT_PRESENT = 0"
definition PAYLOAD_BLOCK_UNDEFINED :: nat where "PAYLOAD_BLOCK_UNDEFINED = 1"
definition PAYLOAD_BLOCK_ZERO :: nat where "PAYLOAD_BLOCK_ZERO = 2"
definition PAYLOAD_BLOCK_UNMAPPED :: nat where "PAYLOAD_BLOCK_UNMAPPED = 3"
definition PAYLOAD_BLOCK_FULLY_PRESENT :: nat where "PAYLOAD_BLOCK_FULLY_PRESENT = 6"
definition PAYLOAD_BLOCK_PARTIALLY_PRESENT :: nat where "PAYLOAD_BLOCK_PARTIALLY_PRESENT = 7"
definition SECTOR_BITMAP_BLOCK_PRESENT :: nat where "SECTOR_BITMAP_BLOCK_PRESENT = 6"
definition MIB :: nat where "MIB = 0x00100000"

lemmas block_states = PAYLOAD_BLOCK_NOT_PRESENT_def PAYLOAD_BLOCK_UNDEFINED_def
  PAYLOAD_BLOCK_ZERO_def PAYLOAD_BLOCK_UNMAPPED_def PAYLOAD_BLOCK_FULLY_PRESENT_def
  PAYLOAD_BLOCK_PARTIALLY_PRESENT_def SECTOR_BITMAP_BLOCK_PRESENT_def

datatype read_target =
    File nat
  | Parent
  | Zero
  | Partial (partial_file_offset: nat) (partial_bitmap_byte_file_offset: nat) (partial_bitmap_bit: nat)

record bat =
  bat_entries :: "u64 list"
  bat_meta :: vhdx_metadata
  region_offset :: nat

definition parse_bat :: "bytes \<Rightarrow> nat \<Rightarrow> u32 \<Rightarrow> vhdx_metadata \<Rightarrow> bat result" where
  "parse_bat data bat_offset bat_len meta =
     and_then (add_u bat_offset (unat bat_len)) (\<lambda>bend.
     if length data < bend then Err BatRegionMissing
     else
       and_then (slice data bat_offset bend) (\<lambda>bat_bytes.
       let entry_count = length bat_bytes div 8 in
       Ok \<lparr> bat_entries = map (\<lambda>i. le_u64 bat_bytes (i * 8)) [0..<entry_count],
            bat_meta = meta,
            region_offset = bat_offset \<rparr>))"

definition entry_state :: "u64 \<Rightarrow> nat" where
  "entry_state e = unat (e AND 7)"

definition entry_offset_mb :: "u64 \<Rightarrow> nat" where
  "entry_offset_mb e = unat (drop_bit 20 e)"

text \<open>The part of \<open>read_target_for_byte\<close> that resolves a partially present block.\<close>

definition partial_target ::
  "bat \<Rightarrow> nat \<Rightarrow> nat \<Rightarrow> nat \<Rightarrow> nat \<Rightarrow> nat \<Rightarrow> read_target result" where
  "partial_target b data_block_index offset_within_block blk_size ratio_val file_offset =
     and_then (div_u data_block_index ratio_val) (\<lambda>chunk_index.
     and_then (ok_or (Option.bind (checked_add ratio_val 1) (\<lambda>entries_per_chunk.
                      Option.bind (checked_mul chunk_index entries_per_chunk) (\<lambda>index.
                      checked_add index ratio_val))) AddressOverflow) (\<lambda>bitmap_bat_index.
     and_then (ok_or (list_get (bat_entries b) bitmap_bat_index)
                 (SectorBitmapNotPresent data_block_index)) (\<lambda>bitmap_entry.
     if entry_state bitmap_entry \<noteq> SECTOR_BITMAP_BLOCK_PRESENT
     then Err (SectorBitmapNotPresent data_block_index)
     else
       let lss = unat (logical_sector_size (bat_meta b)) in
       and_then (div_u blk_size lss) (\<lambda>sectors_per_block.
       and_then (mod_u data_block_index ratio_val) (\<lambda>block_in_chunk.
       and_then (div_u offset_within_block lss) (\<lambda>sector_in_block.
       and_then (ok_or (Option.bind (checked_mul block_in_chunk sectors_per_block) (\<lambda>base.
                        checked_add base sector_in_block)) AddressOverflow) (\<lambda>sector_in_chunk.
       and_then (ok_or (Option.bind (checked_mul (entry_offset_mb bitmap_entry) MIB) (\<lambda>off.
                        checked_add off (sector_in_chunk div 8))) AddressOverflow)
         (\<lambda>bitmap_byte_file_offset.
       Ok (Partial file_offset bitmap_byte_file_offset (sector_in_chunk mod 8))))))))))"

definition read_target_for_byte :: "bat \<Rightarrow> nat \<Rightarrow> read_target result" where
  "read_target_for_byte b virtual_byte =
     (let meta = bat_meta b in
      if virtual_byte \<ge> unat (virtual_disk_size meta)
      then and_then (div_u virtual_byte (unat (logical_sector_size meta))) (\<lambda>sec.
           Err (SectorOutOfRange sec (unat (virtual_disk_size meta))))
      else
        let blk_size = unat (block_size meta) in
        and_then (div_u virtual_byte blk_size) (\<lambda>data_block_index.
        and_then (mod_u virtual_byte blk_size) (\<lambda>offset_within_block.
        and_then (chunk_ratio meta) (\<lambda>ratio_val.
        and_then (div_u data_block_index ratio_val) (\<lambda>chunk_index.
        and_then (add_u data_block_index chunk_index) (\<lambda>bat_index.
        and_then (ok_or (list_get (bat_entries b) bat_index)
                    (BlockNotPresent data_block_index)) (\<lambda>bat_entry.
        let state = entry_state bat_entry in
        if state = PAYLOAD_BLOCK_NOT_PRESENT then Ok Parent
        else if state = PAYLOAD_BLOCK_UNDEFINED \<or> state = PAYLOAD_BLOCK_ZERO
              \<or> state = PAYLOAD_BLOCK_UNMAPPED then Ok Zero
        else if \<not> (state = PAYLOAD_BLOCK_FULLY_PRESENT \<or> state = PAYLOAD_BLOCK_PARTIALLY_PRESENT)
        then Err (InvalidPayloadBlockState data_block_index state)
        else
          and_then (ok_or (Option.bind (checked_mul (entry_offset_mb bat_entry) MIB) (\<lambda>off.
                           checked_add off offset_within_block)) AddressOverflow) (\<lambda>file_offset.
          if state = PAYLOAD_BLOCK_FULLY_PRESENT then Ok (File file_offset)
          else partial_target b data_block_index offset_within_block blk_size ratio_val
                 file_offset))))))))"

subsection \<open>The interleaving of payload and bitmap entries\<close>

definition payload_index :: "vhdx_metadata \<Rightarrow> nat \<Rightarrow> nat" where
  "payload_index m blk = blk + blk div ratio m"

definition bitmap_index :: "vhdx_metadata \<Rightarrow> nat \<Rightarrow> nat" where
  "bitmap_index m c = c * (ratio m + 1) + ratio m"

lemma payload_index_split:
  "payload_index m blk = (blk div ratio m) * (ratio m + 1) + blk mod ratio m"
proof -
  have "blk = (blk div ratio m) * ratio m + blk mod ratio m" by simp
  then show ?thesis unfolding payload_index_def by (metis add.commute add.assoc distrib_left mult.right_neutral)
qed

lemma payload_index_div_mod:
  assumes "0 < ratio m"
  shows "payload_index m blk div (ratio m + 1) = blk div ratio m"
    and "payload_index m blk mod (ratio m + 1) = blk mod ratio m"
proof -
  have lt: "blk mod ratio m < ratio m + 1" using assms by (simp add: less_SucI)
  show "payload_index m blk div (ratio m + 1) = blk div ratio m"
    unfolding payload_index_split using lt by (simp add: div_mult_self3 del: add_Suc_right)
  show "payload_index m blk mod (ratio m + 1) = blk mod ratio m"
    unfolding payload_index_split using lt by (simp del: add_Suc_right)
qed

lemma payload_index_inj:
  assumes "0 < ratio m" and "payload_index m b1 = payload_index m b2"
  shows "b1 = b2"
proof -
  have "b1 div ratio m = b2 div ratio m" "b1 mod ratio m = b2 mod ratio m"
    using assms payload_index_div_mod [of m b1] payload_index_div_mod [of m b2] by simp_all
  then show ?thesis by (metis div_mult_mod_eq)
qed

lemma payload_not_bitmap:
  assumes "0 < ratio m"
  shows "payload_index m blk \<noteq> bitmap_index m c"
proof
  assume "payload_index m blk = bitmap_index m c"
  then have "blk mod ratio m = bitmap_index m c mod (ratio m + 1)"
    using assms payload_index_div_mod(2) by metis
  also have "\<dots> = ratio m"
    unfolding bitmap_index_def by (simp only: mod_mult_self3) simp
  finally show False using assms by (metis mod_less_divisor nat_neq_iff)
qed

subsection \<open>The lookup as the format describes it\<close>

text \<open>
  The ownership bit of a sector is bit number \<open>(v div sector) mod 2 ^ 23\<close> of the bitmap
  block of its chunk; no address computation but the block's own can overflow.
\<close>

definition bat_lookup :: "bat \<Rightarrow> nat \<Rightarrow> read_target result" where
  "bat_lookup b v =
     (let m = bat_meta b; blk = v div block_bytes m; off = v mod block_bytes m in
      case list_get (bat_entries b) (payload_index m blk) of
        None \<Rightarrow> Err (BlockNotPresent blk)
      | Some e \<Rightarrow>
          if entry_state e = 0 then Ok Parent
          else if entry_state e \<le> 3 then Ok Zero
          else if entry_state e \<le> 5 then Err (InvalidPayloadBlockState blk (entry_state e))
          else if 2 ^ 64 \<le> entry_offset_mb e * MIB + off then Err AddressOverflow
          else if entry_state e = 6 then Ok (File (entry_offset_mb e * MIB + off))
          else
            (case list_get (bat_entries b) (bitmap_index m (blk div ratio m)) of
               None \<Rightarrow> Err (SectorBitmapNotPresent blk)
             | Some be \<Rightarrow>
                 if entry_state be \<noteq> 6 then Err (SectorBitmapNotPresent blk)
                 else
                   let sec = (v div sector_bytes m) mod 2 ^ 23 in
                   Ok (Partial (entry_offset_mb e * MIB + off)
                         (entry_offset_mb be * MIB + sec div 8) (sec mod 8))))"

lemma entry_state_bound: "entry_state e < 8"
  by (simp add: entry_state_def unat_and_7)

lemma entry_offset_mb_bound: "entry_offset_mb e < 2 ^ 44"
  using unat_u64_bound [of e] by (simp add: entry_offset_mb_def unat_drop_bit_div)

lemma sector_in_chunk:
  assumes "metadata_ok m"
  shows "(v div block_bytes m mod ratio m) * (block_bytes m div sector_bytes m)
           + v mod block_bytes m div sector_bytes m = (v div sector_bytes m) mod 2 ^ 23"
proof -
  let ?B = "block_bytes m" and ?S = "sector_bytes m" and ?q = "block_bytes m div sector_bytes m"
  have B: "?B = ?q * ?S" using geometry(4) [OF assms] by simp
  have S: "0 < ?S" using geometry(9) [OF assms] by linarith
  have r: "?q * ratio m = 2 ^ 23" using geometry(2) [OF assms] by (simp add: mult.commute)
  have "v mod ?B = ?S * (v div ?S mod ?q) + v mod ?S"
    by (subst B) (simp add: mod_mult2_eq mult.commute)
  then have "v mod ?B div ?S = (v div ?S) mod ?q"
    using S by simp
  moreover have "v div ?B = (v div ?S) div ?q"
    by (subst B) (simp add: div_mult2_eq mult.commute)
  moreover have "(v div ?S) mod 2 ^ 23 = (v div ?S div ?q mod ratio m) * ?q + (v div ?S) mod ?q"
    unfolding r [symmetric] mod_mult2_eq by (simp only: mult.commute)
  ultimately show ?thesis by simp
qed

lemma mb_mul: "checked_mul (entry_offset_mb e) MIB = Some (entry_offset_mb e * MIB)"
  using entry_offset_mb_bound [of e] by (simp add: MIB_def)

lemma disk_offset_bounds:
  assumes "metadata_ok m" and "v < disk_bytes m"
  shows "v div block_bytes m \<le> 2 ^ 26" and "v div block_bytes m div ratio m \<le> 2 ^ 26"
proof -
  have v: "v \<le> 2 ^ 46" using geometry(11) [OF assms(1)] assms(2) by linarith
  obtain k where k: "20 \<le> k" "block_bytes m = 2 ^ k"
    using metadata_okE [OF assms(1)] by (metis atLeastAtMost_iff)
  have "(2::nat) ^ 20 \<le> 2 ^ k" using k(1) by (rule power_increasing) simp
  then have "v div block_bytes m \<le> v div 2 ^ 20" unfolding k(2) by (intro div_le_mono2) simp_all
  also have "\<dots> \<le> 2 ^ 46 div 2 ^ 20" by (rule div_le_mono [OF v])
  finally show "v div block_bytes m \<le> 2 ^ 26" by simp
  then show "v div block_bytes m div ratio m \<le> 2 ^ 26"
    by (rule order_trans [OF div_le_dividend])
qed

lemma bitmap_index_eval:
  assumes "metadata_ok m" and "v < disk_bytes m"
  shows "Option.bind (checked_add (ratio m) 1) (\<lambda>n.
           Option.bind (checked_mul (v div block_bytes m div ratio m) n) (\<lambda>i.
           checked_add i (ratio m)))
         = Some (bitmap_index m (v div block_bytes m div ratio m))"
proof -
  let ?c = "v div block_bytes m div ratio m"
  have r: "ratio m \<le> 2 ^ 15" by (rule geometry(6) [OF assms(1)])
  have "?c * (ratio m + 1) \<le> 2 ^ 26 * (2 ^ 15 + 1)"
    using disk_offset_bounds(2) [OF assms] r by (intro mult_le_mono) auto
  then show ?thesis using r by (simp add: checked_add_def checked_mul_def bitmap_index_def)
qed

lemma partial_target_eval:
  assumes ok: "metadata_ok (bat_meta b)" and v: "v < disk_bytes (bat_meta b)"
  defines "m \<equiv> bat_meta b"
  shows "partial_target b (v div block_bytes m) (v mod block_bytes m) (block_bytes m) (ratio m) pos =
    (case list_get (bat_entries b) (bitmap_index m (v div block_bytes m div ratio m)) of
       None \<Rightarrow> Err (SectorBitmapNotPresent (v div block_bytes m))
     | Some be \<Rightarrow>
         if entry_state be \<noteq> 6 then Err (SectorBitmapNotPresent (v div block_bytes m))
         else
           let sec = (v div sector_bytes m) mod 2 ^ 23 in
           Ok (Partial pos (entry_offset_mb be * MIB + sec div 8) (sec mod 8)))"
proof -
  let ?blk = "v div block_bytes m" and ?off = "v mod block_bytes m"
  let ?q = "block_bytes m div sector_bytes m" and ?sec = "(v div sector_bytes m) mod 2 ^ 23"
  have m: "metadata_ok m" "v < disk_bytes m" using ok v by (simp_all add: m_def)
  have r0: "ratio m \<noteq> 0" and s0: "sector_bytes m \<noteq> 0"
    using geometry(5,9) [OF m(1)] by linarith+
  have sum: "?blk mod ratio m * ?q + ?off div sector_bytes m = ?sec"
    by (rule sector_in_chunk [OF m(1)])
  have sec_lt: "?sec < 2 ^ 23" by simp
  have sec_eval: "Option.bind (checked_mul (?blk mod ratio m) ?q)
      (\<lambda>base. checked_add base (?off div sector_bytes m)) = Some ?sec"
    using sum sec_lt by (simp add: checked_add_def checked_mul_def)
  have pos_eval: "Option.bind (checked_mul (entry_offset_mb be) MIB)
      (\<lambda>off. checked_add off (?sec div 8)) = Some (entry_offset_mb be * MIB + ?sec div 8)" for be
    using entry_offset_mb_bound [of be] sec_lt
    by (simp add: mb_mul checked_add_def) (simp add: MIB_def)
  have lss: "unat (logical_sector_size (bat_meta b)) = sector_bytes m"
    by (simp add: sector_bytes_def m_def)
  show ?thesis
    unfolding partial_target_def
    using bitmap_index_eval [OF m] sec_eval pos_eval r0 s0
    by (auto simp: div_u_def mod_u_def lss block_states Let_def list_get_def)
qed

lemma read_target_eval:
  assumes "metadata_ok (bat_meta b)" and "v < disk_bytes (bat_meta b)"
  shows "read_target_for_byte b v = bat_lookup b v"
proof -
  define m where "m = bat_meta b"
  have m: "metadata_ok m" "v < disk_bytes m" using assms by (simp_all add: m_def)
  let ?blk = "v div block_bytes m" and ?off = "v mod block_bytes m"
  have B: "unat (block_size m) = block_bytes m" by (simp add: block_bytes_def)
  have nz: "block_bytes m \<noteq> 0" "ratio m \<noteq> 0" using geometry(5,7) [OF m(1)] by linarith+
  have idx: "add_u ?blk (?blk div ratio m) = (Ok (payload_index m ?blk) :: nat result)"
    using disk_offset_bounds [OF m] by (simp add: add_u_def payload_index_def)
  have in_disk: "\<not> unat (virtual_disk_size m) \<le> v" using m(2) by (simp add: disk_bytes_def)
  have off: "Option.bind (checked_mul (entry_offset_mb e) MIB) (\<lambda>o1. checked_add o1 ?off)
      = (if 2 ^ 64 \<le> entry_offset_mb e * MIB + ?off then None
         else Some (entry_offset_mb e * MIB + ?off))" for e
    by (simp add: mb_mul checked_add_def not_less)
  have part: "partial_target b ?blk ?off (block_bytes m) (ratio m) pos =
    (case list_get (bat_entries b) (bitmap_index m (?blk div ratio m)) of
       None \<Rightarrow> Err (SectorBitmapNotPresent ?blk)
     | Some be \<Rightarrow>
         if entry_state be \<noteq> 6 then Err (SectorBitmapNotPresent ?blk)
         else let sec = (v div sector_bytes m) mod 2 ^ 23 in
           Ok (Partial pos (entry_offset_mb be * MIB + sec div 8) (sec mod 8)))" for pos
    unfolding m_def by (rule partial_target_eval [OF assms])
  have "read_target_for_byte b v =
      and_then (ok_or (list_get (bat_entries b) (payload_index m ?blk)) (BlockNotPresent ?blk))
       (\<lambda>e. let state = entry_state e in
        if state = 0 then Ok Parent
        else if state = 1 \<or> state = 2 \<or> state = 3 then Ok Zero
        else if \<not> (state = 6 \<or> state = 7) then Err (InvalidPayloadBlockState ?blk state)
        else
          and_then (ok_or (Option.bind (checked_mul (entry_offset_mb e) MIB)
                            (\<lambda>o1. checked_add o1 ?off)) AddressOverflow) (\<lambda>pos.
          if state = 6 then Ok (File pos)
          else partial_target b ?blk ?off (block_bytes m) (ratio m) pos))"
    using in_disk nz
    unfolding read_target_for_byte_def m_def [symmetric] block_states Let_def B
    by (simp add: div_u_def mod_u_def chunk_ratio_eval [OF m(1)] idx)
  also have "\<dots> = bat_lookup b v"
  proof (cases "list_get (bat_entries b) (payload_index m ?blk)")
    case None
    show ?thesis unfolding bat_lookup_def m_def [symmetric] Let_def None by simp
  next
    case (Some e)
    have "entry_state e < 8" by (rule entry_state_bound)
    then have "entry_state e \<in> {0, 1, 2, 3, 4, 5, 6, 7}" by auto
    then show ?thesis
      unfolding bat_lookup_def m_def [symmetric] Let_def Some off
      by (auto simp: part [unfolded Let_def] ok_or_def)
  qed
  finally show ?thesis .
qed

lemma read_target_total:
  assumes "metadata_ok (bat_meta b)"
  shows "read_target_for_byte b v \<noteq> Panic"
proof (cases "v < disk_bytes (bat_meta b)")
  case True
  with assms show ?thesis
    by (auto simp: read_target_eval bat_lookup_def Let_def split: option.splits)
next
  case False
  moreover have "sector_bytes (bat_meta b) \<noteq> 0" using geometry(9) [OF assms] by linarith
  ultimately show ?thesis
    by (simp add: read_target_for_byte_def disk_bytes_def sector_bytes_def and_then_Panic_iff Let_def)
qed

subsection \<open>Properties\<close>

text \<open>C3: On validated metadata the lookup of a virtual byte, with its checked address arithmetic,
  computes what the format describes: the payload entry of the byte's block decides, and the
  owner of a sector of a partially present block is one bit of the bitmap block of its chunk. It
  never panics, on any offset.\<close>

theorem lookup_refines_format:
  assumes "validate (bat_meta b) = Ok ()"
  shows "read_target_for_byte b v \<noteq> Panic
    \<and> read_target_for_byte b v =
        (if v < disk_bytes (bat_meta b) then bat_lookup b v
         else Err (SectorOutOfRange (v div sector_bytes (bat_meta b)) (disk_bytes (bat_meta b))))"
proof -
  have ok: "metadata_ok (bat_meta b)" using assms validate_iff by blast
  have s: "unat (logical_sector_size (bat_meta b)) \<noteq> 0"
    using geometry(9) [OF ok] by (simp add: sector_bytes_def)
  have "read_target_for_byte b v
      = Err (SectorOutOfRange (v div sector_bytes (bat_meta b)) (disk_bytes (bat_meta b)))"
    if "\<not> v < disk_bytes (bat_meta b)"
    using that s
    by (simp add: read_target_for_byte_def Let_def disk_bytes_def sector_bytes_def div_u_def)
  then show ?thesis
    using read_target_total [OF ok, of v] read_target_eval [OF ok, of v] by (cases "v < disk_bytes (bat_meta b)") simp_all
qed

theorem lookup_refines_format_witness:
  "read_target_for_byte
     \<lparr> bat_entries = [6], bat_meta = \<lparr> block_size = 0x100000, has_parent = False,
         virtual_disk_size = 4096, logical_sector_size = 512 \<rparr>, region_offset = 0 \<rparr> 9
   = Ok (File 9)"
proof -
  let ?m = "\<lparr> block_size = 0x100000, has_parent = False, virtual_disk_size = 4096,
      logical_sector_size = 512 \<rparr>"
  let ?b = "\<lparr> bat_entries = [6], bat_meta = ?m, region_offset = 0 \<rparr>"
  have "metadata_ok ?m" by (auto simp: metadata_ok_def intro!: bexI [of _ 20])
  then have "validate (bat_meta ?b) = Ok ()" by (simp add: validate_iff)
  from lookup_refines_format [OF this, of 9] show ?thesis
    by (simp add: bat_lookup_def disk_bytes_def block_bytes_def sector_bytes_def ratio_def
        payload_index_def list_get_def entry_state_def entry_offset_mb_def Let_def)
qed

text \<open>No two blocks share a payload entry, and no payload entry is the bitmap entry of a
  chunk: the interleaving of the table is injective.\<close>

theorem table_slots_disjoint:
  assumes "validate m = Ok ()"
  shows "(payload_index m b1 = payload_index m b2) = (b1 = b2)
    \<and> payload_index m b1 \<noteq> bitmap_index m c"
proof -
  have "metadata_ok m" using assms validate_iff by blast
  then have "0 < ratio m" using geometry(5) [of m] by simp
  then show ?thesis using payload_index_inj payload_not_bitmap by blast
qed

theorem table_slots_disjoint_witness:
  "payload_index \<lparr> block_size = 0x100000, has_parent = False, virtual_disk_size = 4096,
      logical_sector_size = 512 \<rparr> 4096
   \<noteq> bitmap_index \<lparr> block_size = 0x100000, has_parent = False, virtual_disk_size = 4096,
      logical_sector_size = 512 \<rparr> 0"
proof -
  let ?m = "\<lparr> block_size = 0x100000, has_parent = False, virtual_disk_size = 4096,
      logical_sector_size = 512 \<rparr>"
  have "metadata_ok ?m" by (auto simp: metadata_ok_def intro!: bexI [of _ 20])
  then have "validate ?m = Ok ()" by (simp add: validate_iff)
  from table_slots_disjoint [OF this] show ?thesis by blast
qed

end
