(* ===== verification/Backing.thy ===== *)
theory Backing
  imports Error Bytes
begin

text \<open>
  Positioned reads (\<open>core/src/backing.rs\<close>). The operating system behind a file handle, and
  the boxed reader behind \<open>Backing::Reader\<close>, are not part of the repository: a value of
  \<open>os_file\<close> gives their behaviour. \<open>os_interrupts\<close> is how often a read at an offset is
  interrupted before it is answered, \<open>os_eintr\<close> the message of the interruption, \<open>os_reply\<close> what the
  read then answers (a byte count, possibly short, or a failure of some other kind), \<open>os_seek\<close> the
  error of a seek that fails, and \<open>os_stat\<close> whether asking for the length succeeds. Reads through a
  sub-range, memory and a boxed reader follow the source.
\<close>

datatype os_failure = FailEof | FailInput | FailOther | FailKind nat

datatype os_answer = Got nat | OsFail os_failure string

fun failure_kind :: "os_failure \<Rightarrow> io_kind" where
  "failure_kind FailEof = UnexpectedEof"
| "failure_kind FailInput = InvalidInput"
| "failure_kind FailOther = Other"
| "failure_kind (FailKind n) = OsKind n"

record os_file =
  os_content :: bytes
  os_interrupts :: "nat \<Rightarrow> nat"
  os_eintr :: string
  os_reply :: "nat \<Rightarrow> nat \<Rightarrow> os_answer"
  os_seek :: "nat \<Rightarrow> io_error option"
  os_stat :: bool

datatype backing =
    BackingFile os_file
  | BackingSub os_file nat nat
  | BackingMem bytes
  | BackingReader os_file bool nat

text \<open>
  What one system read delivers: at most what was asked for and what the file holds.
\<close>

definition os_bytes :: "os_file \<Rightarrow> nat \<Rightarrow> nat \<Rightarrow> nat \<Rightarrow> bytes" where
  "os_bytes f pos want n = window (os_content f) pos (min n want)"

lemma length_os_bytes [simp]: "length (os_bytes f pos want n) \<le> want"
  by (simp add: os_bytes_def)

lemma nonempty_decreases: "bs \<noteq> [] \<Longrightarrow> a < b \<Longrightarrow> b - (a + length bs) < b - (a :: nat)"
  by (cases bs) auto

text \<open>
  The loop of \<open>pread\<close>: an interrupted read is retried, an empty answer ends the loop. The
  result is the part of the buffer that was filled.
\<close>

function pread_loop :: "os_file \<Rightarrow> nat \<Rightarrow> nat \<Rightarrow> nat \<Rightarrow> nat \<Rightarrow> bytes \<Rightarrow> bytes io_result" where
  "pread_loop f offset want filled tries acc =
     (if filled < want then
        and_then (add_u offset filled) (\<lambda>pos.
        if tries < os_interrupts f (offset + filled)
        then pread_loop f offset want filled (Suc tries) acc
        else
          (case os_reply f pos (want - filled) of
             OsFail k msg \<Rightarrow> Err (IoError (failure_kind k) msg)
           | Got n \<Rightarrow>
               let bs = os_bytes f pos (want - filled) n in
               if bs = [] then Ok acc
               else pread_loop f offset want (filled + length bs) 0 (acc @ bs)))
      else Ok acc)"
  by pat_completeness auto
termination
  by (relation "measures [\<lambda>(f, offset, want, filled, tries, acc). want - filled,
        \<lambda>(f, offset, want, filled, tries, acc). os_interrupts f (offset + filled) - tries]")
    (auto intro!: nonempty_decreases)

declare pread_loop.simps [simp del]

definition pread :: "os_file \<Rightarrow> nat \<Rightarrow> nat \<Rightarrow> bytes io_result" where
  "pread f want offset = pread_loop f offset want 0 0 []"

text \<open>
  The loop over a boxed reader after its seek. It does not retry: the caller of a boxed
  reader sees each failure, an interrupted read included.
\<close>

function reader_loop :: "os_file \<Rightarrow> nat \<Rightarrow> nat \<Rightarrow> nat \<Rightarrow> bytes \<Rightarrow> bytes io_result" where
  "reader_loop f offset want filled acc =
     (if filled < want then
        if 0 < os_interrupts f (offset + filled) then Err (IoError Interrupted (os_eintr f))
        else
        (case os_reply f (offset + filled) (want - filled) of
           OsFail k msg \<Rightarrow> Err (IoError (failure_kind k) msg)
         | Got n \<Rightarrow>
             let bs = os_bytes f (offset + filled) (want - filled) n in
             if bs = [] then Ok acc
             else reader_loop f offset want (filled + length bs) (acc @ bs))
      else Ok acc)"
  by pat_completeness auto
termination
  by (relation "measure (\<lambda>(f, offset, want, filled, acc). want - filled)")
    (auto intro!: nonempty_decreases)

declare reader_loop.simps [simp del]

fun backing_len :: "backing \<Rightarrow> nat" where
  "backing_len (BackingFile f) = (if os_stat f then length (os_content f) else 0)"
| "backing_len (BackingSub f base len) = len"
| "backing_len (BackingMem b) = length b"
| "backing_len (BackingReader f poisoned len) = len"

definition backing_sub :: "os_file \<Rightarrow> nat \<Rightarrow> nat \<Rightarrow> backing" where
  "backing_sub f base len = BackingSub f base len"

definition backing_from_bytes :: "bytes \<Rightarrow> backing" where
  "backing_from_bytes d = BackingMem d"

text \<open>The \<open>Debug\<close> implementation, as \<open>{:?}\<close> prints it.\<close>

fun backing_debug :: "backing \<Rightarrow> string" where
  "backing_debug (BackingFile f) = ''File { len: '' @ decimal (backing_len (BackingFile f)) @ '' }''"
| "backing_debug (BackingSub f base len) =
     ''Sub { base: '' @ decimal base @ '', len: '' @ decimal len @ '' }''"
| "backing_debug (BackingMem d) = ''Mem { len: '' @ decimal (length d) @ '' }''"
| "backing_debug (BackingReader f poisoned len) = ''Reader { len: '' @ decimal len @ '' }''"

definition backing_is_empty :: "backing \<Rightarrow> bool" where
  "backing_is_empty b = (backing_len b = 0)"

text \<open>\<open>read_at b want offset\<close>: the bytes placed in a buffer of length \<open>want\<close>.\<close>

fun read_at :: "backing \<Rightarrow> nat \<Rightarrow> nat \<Rightarrow> bytes io_result" where
  "read_at (BackingFile f) want offset = pread f want offset"
| "read_at (BackingSub f base len) want offset =
     (let avail = len - offset in
      if avail = 0 then Ok []
      else
        let n = min want avail in
        and_then (add_u base offset) (\<lambda>pos. pread f n pos))"
| "read_at (BackingMem b) want offset =
     (let off = min offset (length b);
          src = drop off b;
          n = min (length src) want
      in Ok (take n src))"
| "read_at (BackingReader f poisoned len) want offset =
     (let avail = len - offset in
      if avail = 0 then Ok []
      else
        let n = min want avail in
        if poisoned then Err (IoError Other ''backing reader mutex poisoned'')
        else
          (case os_seek f offset of
             Some e \<Rightarrow> Err e
           | None \<Rightarrow> reader_loop f offset n 0 []))"

definition read_exact_at :: "backing \<Rightarrow> nat \<Rightarrow> nat \<Rightarrow> bytes io_result" where
  "read_exact_at b offset len = read_at b len offset"

subsection \<open>The interface: a faithful backing\<close>

text \<open>
  What the parser and the data path rely on: a read delivers the requested window of one
  fixed content, clipped at its end. Offsets are \<open>u64\<close> values.
\<close>

locale faithful_backing =
  fixes b :: backing and content :: bytes
  assumes len_content: "backing_len b = length content"
    and read_content: "offset < 2 ^ 64 \<Longrightarrow> read_at b want offset = Ok (window content offset want)"
begin

lemma read_exact_content: "offset < 2 ^ 64 \<Longrightarrow> read_exact_at b offset n = Ok (window content offset n)"
  by (simp add: read_exact_at_def read_content)

lemma read_full:
  "offset + n \<le> length content \<Longrightarrow> offset < 2 ^ 64 \<Longrightarrow>
   \<exists>bs. read_at b n offset = Ok bs \<and> length bs = n"
  by (simp add: read_content)

lemma read_short_only_at_end:
  "offset < 2 ^ 64 \<Longrightarrow> read_at b n offset = Ok bs \<Longrightarrow> length bs < n \<Longrightarrow>
   backing_len b = offset + length bs \<or> backing_len b \<le> offset"
  by (auto simp: read_content len_content)

lemma read_split:
  "offset + m < 2 ^ 64 \<Longrightarrow>
   read_at b (m + n) offset
     = and_then (read_at b m offset) (\<lambda>xs.
       and_then (read_at b n (offset + m)) (\<lambda>ys. Ok (xs @ ys)))"
  by (simp add: read_content window_add)

end

text \<open>An in-memory backing is faithful to its bytes.\<close>

lemma read_at_mem: "read_at (BackingMem d) want offset = Ok (window d offset want)"
  by (simp add: window_def Let_def min_def)

interpretation mem: faithful_backing "BackingMem d" d for d
  by unfold_locales (simp_all only: backing_len.simps read_at_mem)

text \<open>
  A file whose system calls make progress: a read inside the file delivers something, and
  none fails. Short answers and interruptions remain possible.
\<close>

definition progressing :: "os_file \<Rightarrow> bool" where
  "progressing f =
     (os_stat f \<and> length (os_content f) < 2 ^ 64
      \<and> (\<forall>pos. os_seek f pos = None)
      \<and> (\<forall>pos want. \<exists>n. os_reply f pos want = Got n
           \<and> (0 < want \<longrightarrow> pos < length (os_content f) \<longrightarrow> 0 < n)))"

text \<open>Nothing interrupts the reads: what a boxed reader needs besides, since it does not retry.\<close>

definition uninterrupted :: "os_file \<Rightarrow> bool" where
  "uninterrupted f = (\<forall>pos. os_interrupts f pos = 0)"

lemma os_bytes_empty:
  "os_bytes f pos want n = [] \<longleftrightarrow> n = 0 \<or> want = 0 \<or> length (os_content f) \<le> pos"
proof -
  have "os_bytes f pos want n = [] \<longleftrightarrow> length (os_bytes f pos want n) = 0" by simp
  also have "\<dots> \<longleftrightarrow> n = 0 \<or> want = 0 \<or> length (os_content f) \<le> pos"
    by (auto simp: os_bytes_def)
  finally show ?thesis .
qed

lemma os_bytes_step:
  assumes "bs = os_bytes f pos want n"
  shows "bs @ window (os_content f) (pos + length bs) (want - length bs)
       = window (os_content f) pos want"
proof -
  let ?c = "os_content f"
  have bs: "bs = window ?c pos (length bs)"
    using assms by (simp add: os_bytes_def window_def min_def)
  have "length bs \<le> want" using assms by simp
  then have "window ?c pos want = window ?c pos (length bs + (want - length bs))" by simp
  also have "\<dots> = window ?c pos (length bs) @ window ?c (pos + length bs) (want - length bs)"
    by (rule window_add)
  finally show ?thesis using bs by simp
qed

lemma pread_loop_content:
  assumes "progressing f" and "offset < 2 ^ 64"
    and "filled \<le> want" and "filled = 0 \<or> offset + filled \<le> length (os_content f)"
  shows "pread_loop f offset want filled tries acc
       = Ok (acc @ window (os_content f) (offset + filled) (want - filled))"
  using assms
proof (induction f offset want filled tries acc rule: pread_loop.induct)
  case (1 f offset want filled tries acc)
  show ?case
  proof (cases "filled < want")
    case False
    then show ?thesis by (simp add: pread_loop.simps [of f offset want filled])
  next
    case lt: True
    have pos: "add_u offset filled = (Ok (offset + filled) :: nat io_result)"
      using "1.prems" by (auto simp: progressing_def)
    show ?thesis
    proof (cases "tries < os_interrupts f (offset + filled)")
      case True
      with lt pos "1.prems" "1.IH"(1) [OF lt pos True] show ?thesis
        by (simp add: outcome_simps pread_loop.simps [of f offset want filled tries])
    next
      case False
      obtain n where n: "os_reply f (offset + filled) (want - filled) = Got n"
        "offset + filled < length (os_content f) \<Longrightarrow> 0 < n"
        using "1.prems"(1) lt unfolding progressing_def by (metis zero_less_diff)
      define bs where "bs = os_bytes f (offset + filled) (want - filled) n"
      show ?thesis
      proof (cases "bs = []")
        case True
        then have "length (os_content f) \<le> offset + filled"
          using n(2) lt by (fastforce simp: bs_def os_bytes_empty not_less)
        with True lt False pos n(1) show ?thesis
          by (simp add: outcome_simps pread_loop.simps [of f offset want filled tries] bs_def [symmetric] Let_def)
      next
        case ne: False
        have fits: "offset + (filled + length bs) \<le> length (os_content f)"
        proof -
          have "offset + filled < length (os_content f)"
            using ne by (simp add: bs_def os_bytes_empty not_le)
          then show ?thesis by (simp add: bs_def os_bytes_def)
        qed
        have le: "filled + length bs \<le> want"
          using lt by (simp add: bs_def os_bytes_def)
        have "pread_loop f offset want (filled + length bs) 0 (acc @ bs)
            = Ok ((acc @ bs) @ window (os_content f) (offset + (filled + length bs))
                    (want - (filled + length bs)))"
          using "1.IH"(2) [OF lt pos False n(1) bs_def ne] "1.prems" le fits by blast
        also have "\<dots> = Ok (acc @ window (os_content f) (offset + filled) (want - filled))"
          using os_bytes_step [OF bs_def] by (simp add: add.assoc)
        finally show ?thesis
          using lt False pos n(1) ne
          by (simp add: outcome_simps pread_loop.simps [of f offset want filled tries] bs_def [symmetric] Let_def)
      qed
    qed
  qed
qed

lemma pread_content:
  "progressing f \<Longrightarrow> offset < 2 ^ 64 \<Longrightarrow> pread f want offset = Ok (window (os_content f) offset want)"
  by (simp add: pread_def pread_loop_content)

lemma reader_loop_content:
  assumes "progressing f" and "uninterrupted f" and "filled \<le> want"
  shows "reader_loop f offset want filled acc
       = Ok (acc @ window (os_content f) (offset + filled) (want - filled))"
  using assms
proof (induction f offset want filled acc rule: reader_loop.induct)
  case (1 f offset want filled acc)
  show ?case
  proof (cases "filled < want")
    case False
    then show ?thesis by (simp add: reader_loop.simps [of f offset want filled])
  next
    case lt: True
    obtain n where n: "os_reply f (offset + filled) (want - filled) = Got n"
      "offset + filled < length (os_content f) \<Longrightarrow> 0 < n"
      using "1.prems"(1) lt unfolding progressing_def by (metis zero_less_diff)
    define bs where "bs = os_bytes f (offset + filled) (want - filled) n"
    have quiet: "os_interrupts f (offset + filled) = 0" using "1.prems"(2) by (simp add: uninterrupted_def)
    then have quiet': "\<not> 0 < os_interrupts f (offset + filled)" by simp
    show ?thesis
    proof (cases "bs = []")
      case True
      then have "length (os_content f) \<le> offset + filled"
        using n(2) lt by (fastforce simp: bs_def os_bytes_empty not_less)
      with True lt n(1) quiet show ?thesis
        by (simp add: reader_loop.simps [of f offset want filled acc] bs_def [symmetric] Let_def)
    next
      case ne: False
      have le: "filled + length bs \<le> want"
        using lt by (simp add: bs_def os_bytes_def)
      have "reader_loop f offset want (filled + length bs) (acc @ bs)
          = Ok ((acc @ bs) @ window (os_content f) (offset + (filled + length bs))
                  (want - (filled + length bs)))"
        using "1.IH" [OF lt quiet' n(1) bs_def ne] "1.prems" le by blast
      also have "\<dots> = Ok (acc @ window (os_content f) (offset + filled) (want - filled))"
        using os_bytes_step [OF bs_def] by (simp add: add.assoc)
      finally show ?thesis
        using lt n(1) ne quiet
        by (simp add: reader_loop.simps [of f offset want filled acc] bs_def [symmetric] Let_def)
    qed
  qed
qed

text \<open>The four kinds of backing, each faithful to the bytes it stands for.\<close>

lemma faithful_file: "progressing f \<Longrightarrow> faithful_backing (BackingFile f) (os_content f)"
  by unfold_locales (auto simp: progressing_def intro: pread_content [unfolded progressing_def])

lemma window_clip: "window (window d base len) off n = window d (base + off) (min n (len - off))"
  by (simp add: window_def drop_take min_def add.commute)

lemma faithful_sub:
  assumes "progressing f" and "base + len \<le> length (os_content f)"
  shows "faithful_backing (BackingSub f base len) (window (os_content f) base len)"
proof
  show "backing_len (BackingSub f base len) = length (window (os_content f) base len)"
    using assms(2) by simp
  fix offset want :: nat
  show "read_at (BackingSub f base len) want offset
      = Ok (window (window (os_content f) base len) offset want)"
  proof (cases "len \<le> offset")
    case True
    then show ?thesis using assms(2) by simp
  next
    case False
    have "base + offset < 2 ^ 64" using False assms by (simp add: progressing_def)
    then show ?thesis
      using False by (simp add: outcome_simps pread_content [OF assms(1)] window_clip Let_def)
  qed
qed

lemma faithful_reader:
  assumes "progressing f" and "uninterrupted f"
  shows "faithful_backing (BackingReader f False (length (os_content f))) (os_content f)"
proof
  let ?c = "os_content f"
  show "backing_len (BackingReader f False (length ?c)) = length ?c" by simp
  fix offset want :: nat
  have "window ?c offset (min want (length ?c - offset)) = window ?c offset want"
    by (simp add: window_def min_def)
  moreover have "os_seek f offset = None" using assms by (simp add: progressing_def)
  ultimately show "read_at (BackingReader f False (length ?c)) want offset = Ok (window ?c offset want)"
    by (simp add: Let_def reader_loop_content [OF assms])
qed

text \<open>A file whose every read is answered in full, for concrete instances.\<close>

definition steady_file :: "bytes \<Rightarrow> os_file" where
  "steady_file d =
     \<lparr> os_content = d, os_interrupts = (\<lambda>_. 0), os_eintr = [], os_reply = (\<lambda>_ want. Got want),
       os_seek = (\<lambda>_. None), os_stat = True \<rparr>"

text \<open>A file that is interrupted once at each offset and then delivers one byte at a time.\<close>

definition slow_file :: "bytes \<Rightarrow> os_file" where
  "slow_file d =
     \<lparr> os_content = d, os_interrupts = (\<lambda>_. 1), os_eintr = [], os_reply = (\<lambda>_ _. Got 1),
       os_seek = (\<lambda>_. None), os_stat = True \<rparr>"

lemma steady_progressing:
  "length d < 2 ^ 64 \<Longrightarrow> progressing (steady_file d)" "uninterrupted (steady_file d)"
  by (simp_all add: progressing_def uninterrupted_def steady_file_def)

lemma steady_content: "os_content (steady_file d) = d"
  by (simp add: steady_file_def)

lemma slow_progressing: "length d < 2 ^ 64 \<Longrightarrow> progressing (slow_file d)"
  by (simp add: progressing_def slow_file_def)

subsection \<open>Where a read ends\<close>

text \<open>
  \<open>asked retry f offset want k\<close>: a read of \<open>want\<close> bytes at \<open>offset\<close> gets as far as asking the
  system for what is missing after \<open>k\<close> bytes. Every answer but an empty one moves it on. Without
  \<open>retry\<close> an interruption stops it.
\<close>

inductive asked :: "bool \<Rightarrow> os_file \<Rightarrow> nat \<Rightarrow> nat \<Rightarrow> nat \<Rightarrow> bool" for retry f offset want where
  asked_first: "asked retry f offset want 0"
| asked_next: "asked retry f offset want k \<Longrightarrow> k < want \<Longrightarrow> retry \<or> os_interrupts f (offset + k) = 0 \<Longrightarrow>
    os_reply f (offset + k) (want - k) = Got n \<Longrightarrow> bs = os_bytes f (offset + k) (want - k) n \<Longrightarrow>
    bs \<noteq> [] \<Longrightarrow> asked retry f offset want (k + length bs)"

text \<open>How it ends there: full, interrupted, failed, or at the end of the file.\<close>

definition ends :: "bool \<Rightarrow> os_file \<Rightarrow> nat \<Rightarrow> nat \<Rightarrow> nat \<Rightarrow> bytes io_result \<Rightarrow> bool" where
  "ends retry f offset want k res \<longleftrightarrow>
     (if want \<le> k then res = Ok (window (os_content f) offset want)
      else if \<not> retry \<and> 0 < os_interrupts f (offset + k) then res = Err (IoError Interrupted (os_eintr f))
      else
        (case os_reply f (offset + k) (want - k) of
           OsFail kind msg \<Rightarrow> res = Err (IoError (failure_kind kind) msg)
         | Got n \<Rightarrow> (n = 0 \<or> length (os_content f) \<le> offset + k)
             \<and> res = Ok (window (os_content f) offset k)))"

lemma asked_bound: "asked retry f offset want k \<Longrightarrow> k \<le> want"
proof (induction rule: asked.induct)
  case (asked_next k n bs)
  then have "length bs \<le> want - k" by simp
  with asked_next.hyps(2) show ?case by linarith
qed simp

lemma asked_window:
  assumes "bs = os_bytes f (offset + k) (want - k) n" and "k < want"
  shows "window (os_content f) offset k @ bs = window (os_content f) offset (k + length bs)"
proof -
  have "bs = window (os_content f) (offset + k) (length bs)"
    using assms(1) by (simp add: os_bytes_def window_def min_def)
  then show ?thesis using window_add [of "os_content f" offset k "length bs"] by simp
qed

lemma pread_loop_ends:
  assumes "offset + want \<le> 2 ^ 64" and "asked True f offset want filled"
    and "acc = window (os_content f) offset filled"
  shows "\<exists>k. asked True f offset want k
    \<and> ends True f offset want k (pread_loop f offset want filled tries acc)"
  using assms
proof (induction f offset want filled tries acc rule: pread_loop.induct)
  case (1 f offset want filled tries acc)
  note eq = pread_loop.simps [of f offset want filled tries acc]
  show ?case
  proof (cases "filled < want")
    case False
    then have "pread_loop f offset want filled tries acc = Ok acc" by (simp add: eq)
    moreover have "filled = want" using asked_bound [OF "1.prems"(2)] False by simp
    ultimately show ?thesis using "1.prems" by (intro exI [of _ filled]) (simp add: ends_def)
  next
    case lt: True
    have pos: "add_u offset filled = (Ok (offset + filled) :: nat io_result)"
      using "1.prems"(1) lt by auto
    show ?thesis
    proof (cases "tries < os_interrupts f (offset + filled)")
      case True
      then have "pread_loop f offset want filled tries acc = pread_loop f offset want filled (Suc tries) acc"
        by (simp add: eq lt pos)
      then show ?thesis using "1.IH"(1) [OF lt pos True] "1.prems" by simp
    next
      case False
      show ?thesis
      proof (cases "os_reply f (offset + filled) (want - filled)")
        case (OsFail kind msg)
        then have "pread_loop f offset want filled tries acc = Err (IoError (failure_kind kind) msg)"
          using lt False by (simp add: eq pos)
        then show ?thesis using lt OsFail "1.prems"(2)
          by (intro exI [of _ filled]) (simp add: ends_def)
      next
        case (Got n)
        define bs where "bs = os_bytes f (offset + filled) (want - filled) n"
        show ?thesis
        proof (cases "bs = []")
          case True
          then have "n = 0 \<or> length (os_content f) \<le> offset + filled"
            using lt by (auto simp: bs_def os_bytes_empty)
          moreover have "pread_loop f offset want filled tries acc = Ok acc"
            using lt False Got True by (simp add: eq pos bs_def [symmetric])
          ultimately show ?thesis using lt Got "1.prems"(2,3)
            by (intro exI [of _ filled]) (simp add: ends_def)
        next
          case ne: False
          have "asked True f offset want (filled + length bs)"
            using asked_next [OF "1.prems"(2) lt _ Got bs_def ne] by simp
          moreover have "pread_loop f offset want filled tries acc
              = pread_loop f offset want (filled + length bs) 0 (acc @ bs)"
            using lt False Got ne by (simp add: eq pos bs_def [symmetric] Let_def)
          ultimately show ?thesis
            using "1.IH"(2) [OF lt pos False Got bs_def ne] "1.prems"(1,3) asked_window [OF bs_def lt] by simp
        qed
      qed
    qed
  qed
qed

lemma reader_loop_ends:
  assumes "asked False f offset want filled" and "acc = window (os_content f) offset filled"
  shows "\<exists>k. asked False f offset want k
    \<and> ends False f offset want k (reader_loop f offset want filled acc)"
  using assms
proof (induction f offset want filled acc rule: reader_loop.induct)
  case (1 f offset want filled acc)
  note eq = reader_loop.simps [of f offset want filled acc]
  show ?case
  proof (cases "filled < want \<and> os_interrupts f (offset + filled) = 0")
    case False
    then have "reader_loop f offset want filled acc
        = (if filled < want then Err (IoError Interrupted (os_eintr f)) else Ok acc)"
      by (simp add: eq)
    moreover have "filled \<le> want" using asked_bound [OF "1.prems"(1)] .
    ultimately show ?thesis
      using "1.prems" False by (intro exI [of _ filled]) (auto simp: ends_def)
  next
    case True
    then have lt: "filled < want" and quiet: "\<not> 0 < os_interrupts f (offset + filled)" by auto
    show ?thesis
    proof (cases "os_reply f (offset + filled) (want - filled)")
      case (OsFail kind msg)
      then show ?thesis using lt quiet "1.prems"(1)
        by (intro exI [of _ filled]) (simp add: eq ends_def)
    next
      case (Got n)
      define bs where "bs = os_bytes f (offset + filled) (want - filled) n"
      show ?thesis
      proof (cases "bs = []")
        case True
        then have "n = 0 \<or> length (os_content f) \<le> offset + filled"
          using lt by (auto simp: bs_def os_bytes_empty)
        moreover have "reader_loop f offset want filled acc = Ok acc"
          using lt quiet Got True by (simp add: eq bs_def [symmetric])
        ultimately show ?thesis using lt quiet Got "1.prems"
          by (intro exI [of _ filled]) (simp add: ends_def)
      next
        case ne: False
        have "asked False f offset want (filled + length bs)"
          using asked_next [OF "1.prems"(1) lt _ Got bs_def ne] quiet by simp
        moreover have "reader_loop f offset want filled acc
            = reader_loop f offset want (filled + length bs) (acc @ bs)"
          using lt quiet Got ne by (simp add: eq bs_def [symmetric] Let_def)
        ultimately show ?thesis
          using "1.IH" [OF lt quiet Got bs_def ne] "1.prems"(2) asked_window [OF bs_def lt] by simp
      qed
    qed
  qed
qed

subsection \<open>Properties\<close>

text \<open>C27: Over a file whose reads make progress, however short or interrupted they are, a read
  through the file and through a window of it delivers exactly the requested part of the content,
  short only at its end; a window never shows a byte outside it. So does a read through a boxed
  reader whose reads are not interrupted (it does not retry).\<close>

theorem positioned_reads_exact:
  assumes "progressing f" and "base + n \<le> length (os_content f)" and "offset < 2 ^ 64"
  shows "read_at (BackingFile f) want offset = Ok (window (os_content f) offset want)
    \<and> read_at (BackingSub f base n) want offset
        = Ok (window (window (os_content f) base n) offset want)
    \<and> ((\<forall>pos. os_interrupts f pos = 0) \<longrightarrow>
         read_at (BackingReader f False (length (os_content f))) want offset
           = Ok (window (os_content f) offset want))"
  using assms faithful_backing.read_content [OF faithful_file]
    faithful_backing.read_content [OF faithful_sub] faithful_backing.read_content [OF faithful_reader]
  by (auto simp: uninterrupted_def)

theorem positioned_reads_exact_witness:
  "read_at (BackingSub (slow_file [1, 2, 3, 4, 5]) 1 3) 9 1 = Ok [3, 4]
   \<and> read_at (BackingReader (steady_file [1, 2, 3, 4, 5]) False 5) 2 3 = Ok [4, 5]"
proof -
  have "progressing (slow_file [1, 2, 3, 4, 5])" by (rule slow_progressing) simp
  from positioned_reads_exact [OF this, of 1 3 1 9]
  have "read_at (BackingSub (slow_file [1, 2, 3, 4, 5]) 1 3) 9 1 = Ok [3, 4]"
    by (simp add: slow_file_def window_def)
  moreover have "read_at (BackingReader (steady_file d) False 5) 2 3 = Ok [4, 5]" if "d = [1, 2, 3, 4, 5]" for d
  proof -
    have d: "length d = 5" "window d 3 2 = [4, 5]" using that by (simp_all add: window_def)
    then have "progressing (steady_file d)" by (intro steady_progressing) simp
    from positioned_reads_exact [OF this, of 1 3 3 2] show ?thesis
      using steady_progressing(2) [of d] d
      by (simp add: steady_content uninterrupted_def del: read_at.simps)
  qed
  ultimately show ?thesis by blast
qed

text \<open>C37: However a file or a boxed reader behaves, a read over it ends where the system calls make
  it end. It delivers the whole request; or it stops where the system answered with nothing or where
  the content ends, and delivers exactly what lies before; or it fails with the kind and the message
  of the first call that failed. A failure is never taken for the end of the file, whatever was read
  before it. The file retries interrupted reads; a boxed reader passes the first one on, as it does
  a failing seek.\<close>

theorem read_failure_reported:
  assumes "offset + want \<le> 2 ^ 64"
  shows "(\<exists>k. asked True f offset want k \<and> ends True f offset want k (read_at (BackingFile f) want offset))
    \<and> (offset < len \<longrightarrow>
         (case os_seek f offset of
            Some e \<Rightarrow> read_at (BackingReader f False len) want offset = Err e
          | None \<Rightarrow>
              \<exists>k. asked False f offset (min want (len - offset)) k
                \<and> ends False f offset (min want (len - offset)) k
                    (read_at (BackingReader f False len) want offset)))"
proof -
  have "\<exists>k. asked True f offset want k \<and> ends True f offset want k (read_at (BackingFile f) want offset)"
    using pread_loop_ends [OF assms asked_first, of "[]" f 0] by (simp add: pread_def)
  moreover have "\<exists>k. asked False f offset n k \<and> ends False f offset n k (reader_loop f offset n 0 [])" for n
    using reader_loop_ends [OF asked_first, of "[]" f offset n] by simp
  ultimately show ?thesis by (auto simp: Let_def split: option.split)
qed

text \<open>A file that delivers one byte and then fails: the read fails, and does not return the byte.\<close>

definition failing_file :: "bytes \<Rightarrow> os_file" where
  "failing_file d = (slow_file d)\<lparr> os_reply :=
     (\<lambda>pos _. if pos = 0 then Got 1 else OsFail FailOther ''disk failure'') \<rparr>"

theorem read_failure_reported_witness:
  "read_at (BackingFile (failing_file [1, 2])) 2 0 = Err (IoError Other ''disk failure'')"
proof -
  let ?f = "failing_file [1, 2]"
  obtain k where k: "asked True ?f 0 2 k" "ends True ?f 0 2 k (read_at (BackingFile ?f) 2 0)"
    using read_failure_reported [of 0 2 ?f 0] by auto
  have "k \<in> {0, 1}"
    using k(1)
  proof (induction rule: asked.induct)
    case (asked_next k n bs)
    then show ?case
      by (cases "k = 0") (auto simp: failing_file_def slow_file_def os_bytes_def window_def)
  qed simp
  then show ?thesis
    using k(2) by (auto simp: ends_def failing_file_def slow_file_def simp del: read_at.simps)
qed

end
