(* ===== verification/Log.thy ===== *)
theory Log
  imports Header Backing "HOL-Library.Multiset"
begin

text \<open>
  Dirty-log replay (\<open>core/src/log.rs\<close>), in its two forms: \<open>apply_log\<close> patches a buffer that
  holds the whole image, \<open>build_overlay\<close> records the same writes as runs that \<open>patch\<close>
  lays over each positioned read.

  The log region is at most \<open>2 ^ 32 - 1\<close> bytes (its length is a \<open>u32\<close> field), so the sums
  of positions inside it are written with the plain \<open>+\<close>.
\<close>

text \<open>The signatures \<open>loge\<close>, \<open>desc\<close> and \<open>zero\<close>.\<close>

definition LOG_ENTRY_SIGNATURE :: bytes where "LOG_ENTRY_SIGNATURE = [0x6C, 0x6F, 0x67, 0x65]"
definition DESC_SIGNATURE :: bytes where "DESC_SIGNATURE = [0x64, 0x65, 0x73, 0x63]"
definition ZERO_SIGNATURE :: bytes where "ZERO_SIGNATURE = [0x7A, 0x65, 0x72, 0x6F]"

definition ZERO_GUID :: bytes where "ZERO_GUID = replicate 16 0"

subsection \<open>Collecting the committed entries\<close>

function collect_loop :: "bytes \<Rightarrow> bytes \<Rightarrow> nat \<Rightarrow> (u64 \<times> bytes) list" where
  "collect_loop log expected_guid pos =
     (if pos + 64 > length log then []
      else if window log pos 4 \<noteq> LOG_ENTRY_SIGNATURE then []
      else
        let entry_len = unat (le_u32 log (pos + 8)) in
        if entry_len < 64 \<or> pos + entry_len > length log then []
        else
          let entry_bytes = window log pos entry_len;
              stored = le_u32 entry_bytes 4
          in
          if crc32c (zero_crc entry_bytes) \<noteq> stored
          then collect_loop log expected_guid (pos + entry_len)
          else if le_arr16 entry_bytes 32 \<noteq> expected_guid
          then collect_loop log expected_guid (pos + entry_len)
          else
            (le_u64 entry_bytes 16, entry_bytes)
              # collect_loop log expected_guid (pos + entry_len))"
  by pat_completeness auto
termination
  by (relation "measure (\<lambda>(log, g, pos). length log - pos)") auto

declare collect_loop.simps [simp del]

text \<open>\<open>sort_by_key\<close> is a stable sort, as \<open>sort_key\<close> is.\<close>

definition collect_entries :: "bytes \<Rightarrow> bytes \<Rightarrow> bytes list" where
  "collect_entries log expected_guid =
     map snd (sort_key fst (collect_loop log expected_guid 0))"

subsection \<open>Replay into a buffer\<close>

definition descriptor_count :: "bytes \<Rightarrow> nat" where
  "descriptor_count entry = unat (le_u32 entry 24)"

definition data_sector_base :: "bytes \<Rightarrow> nat" where
  "data_sector_base entry = 64 + descriptor_count entry * 32"

text \<open>A data descriptor: copy its sector when both the entry and the buffer hold it.\<close>

definition apply_data :: "bytes \<Rightarrow> bytes \<Rightarrow> nat \<Rightarrow> nat \<Rightarrow> bytes result" where
  "apply_data data entry file_off sector_off =
     (if sector_off + 4096 \<le> length entry then
        and_then (add_u file_off 4096) (\<lambda>file_end.
        if file_end \<le> length data
        then and_then (slice entry sector_off (sector_off + 4096)) (\<lambda>sector.
             put_slice data file_off sector)
        else Ok data)
      else Ok data)"

text \<open>A zero descriptor: clear the part of its range that lies in the buffer.\<close>

definition apply_zero :: "bytes \<Rightarrow> nat \<Rightarrow> nat \<Rightarrow> bytes result" where
  "apply_zero data file_off zero_len =
     (let fin = min (saturating_add file_off zero_len) (length data) in
      if file_off < length data
      then put_slice data file_off (replicate (fin - file_off) 0)
      else Ok data)"

primrec apply_descriptors :: "bytes \<Rightarrow> nat list \<Rightarrow> nat \<Rightarrow> bytes \<Rightarrow> bytes result" where
  "apply_descriptors entry [] sector_idx data = Ok data"
| "apply_descriptors entry (i # is) sector_idx data =
     and_then (slice entry (64 + i * 32) (64 + (i + 1) * 32)) (\<lambda>d.
     if window d 0 4 = DESC_SIGNATURE then
       let file_off = unat (le_u64 d 24);
           sector_off = data_sector_base entry + sector_idx * 4096
       in
       and_then (apply_data data entry file_off sector_off) (\<lambda>data'.
       apply_descriptors entry is (sector_idx + 1) data')
     else if window d 0 4 = ZERO_SIGNATURE then
       let zero_len = unat (le_u64 d 8);
           file_off = unat (le_u64 d 16)
       in
       and_then (apply_zero data file_off zero_len) (\<lambda>data'.
       apply_descriptors entry is sector_idx data')
     else apply_descriptors entry is sector_idx data)"

definition apply_entry :: "bytes \<Rightarrow> bytes \<Rightarrow> bytes result" where
  "apply_entry data entry = apply_descriptors entry [0..<descriptor_count entry] 0 data"

fun apply_entries :: "bytes list \<Rightarrow> bytes \<Rightarrow> bytes result" where
  "apply_entries [] data = Ok data"
| "apply_entries (e # es) data = and_then (apply_entry data e) (apply_entries es)"

definition apply_log :: "bytes \<Rightarrow> bytes result" where
  "apply_log data =
     and_then (parse_active_header data) (\<lambda>header.
     if log_length header = 0 \<or> log_guid header = ZERO_GUID then Ok data
     else
       let log_start = unat (log_offset header);
           log_end = saturating_add log_start (unat (log_length header))
       in
       if length data < log_end then Err OffsetOutOfBounds
       else
         and_then (slice data log_start log_end) (\<lambda>log.
         apply_entries (collect_entries log (log_guid header)) data))"

subsection \<open>Replay as an overlay\<close>

record log_overlay =
  runs :: "(nat \<times> bytes) list"

definition empty_overlay :: log_overlay where
  "empty_overlay = \<lparr> runs = [] \<rparr>"

definition push_run :: "log_overlay \<Rightarrow> nat \<Rightarrow> bytes \<Rightarrow> log_overlay" where
  "push_run ov file_offset bs =
     (if bs = [] then ov else ov\<lparr> runs := runs ov @ [(file_offset, bs)] \<rparr>)"

text \<open>One step of the loop in \<open>patch\<close>.\<close>

definition patch_run :: "nat \<Rightarrow> nat \<Rightarrow> nat \<times> bytes \<Rightarrow> bytes \<Rightarrow> ('e, bytes) outcome" where
  "patch_run read_off read_end rn buf =
     (let run_start = fst rn;
          run = snd rn;
          run_end = saturating_add run_start (length run);
          ov_start = max run_start read_off;
          ov_end = min run_end read_end
      in
      if ov_start \<ge> ov_end then Ok buf
      else
        let dst = ov_start - read_off;
            src = ov_start - run_start;
            n = ov_end - ov_start
        in
        and_then (slice run src (src + n)) (\<lambda>bs. put_slice buf dst bs))"

fun patch_runs :: "nat \<Rightarrow> nat \<Rightarrow> (nat \<times> bytes) list \<Rightarrow> bytes \<Rightarrow> ('e, bytes) outcome" where
  "patch_runs read_off read_end [] buf = Ok buf"
| "patch_runs read_off read_end (r # rs) buf =
     and_then (patch_run read_off read_end r buf) (patch_runs read_off read_end rs)"

definition patch :: "log_overlay \<Rightarrow> bytes \<Rightarrow> nat \<Rightarrow> ('e, bytes) outcome" where
  "patch ov buf read_off =
     (if runs ov = [] \<or> buf = [] then Ok buf
      else patch_runs read_off (saturating_add read_off (length buf)) (runs ov) buf)"

text \<open>\<open>vec![0u8; n]\<close> panics (capacity overflow) beyond \<open>isize::MAX\<close> bytes.\<close>

definition vec_zeros :: "nat \<Rightarrow> ('e, bytes) outcome" where
  "vec_zeros n = (if n < 2 ^ 63 then Ok (replicate n 0) else Panic)"

primrec overlay_descriptors :: "bytes \<Rightarrow> nat list \<Rightarrow> nat \<Rightarrow> log_overlay \<Rightarrow> log_overlay result" where
  "overlay_descriptors entry [] sector_idx ov = Ok ov"
| "overlay_descriptors entry (i # is) sector_idx ov =
     and_then (slice entry (64 + i * 32) (64 + (i + 1) * 32)) (\<lambda>d.
     if window d 0 4 = DESC_SIGNATURE then
       let file_off = unat (le_u64 d 24);
           sector_off = data_sector_base entry + sector_idx * 4096
       in
       if sector_off + 4096 \<le> length entry
       then and_then (slice entry sector_off (sector_off + 4096)) (\<lambda>sector.
            overlay_descriptors entry is (sector_idx + 1) (push_run ov file_off sector))
       else overlay_descriptors entry is (sector_idx + 1) ov
     else if window d 0 4 = ZERO_SIGNATURE then
       let zero_len = unat (le_u64 d 8);
           file_off = unat (le_u64 d 16)
       in
       if zero_len > 0
       then and_then (vec_zeros zero_len) (\<lambda>zs.
            overlay_descriptors entry is sector_idx (push_run ov file_off zs))
       else overlay_descriptors entry is sector_idx ov
     else overlay_descriptors entry is sector_idx ov)"

definition overlay_entry :: "log_overlay \<Rightarrow> bytes \<Rightarrow> log_overlay result" where
  "overlay_entry ov entry = overlay_descriptors entry [0..<descriptor_count entry] 0 ov"

fun overlay_entries :: "bytes list \<Rightarrow> log_overlay \<Rightarrow> log_overlay result" where
  "overlay_entries [] ov = Ok ov"
| "overlay_entries (e # es) ov = and_then (overlay_entry ov e) (overlay_entries es)"

definition build_overlay :: "backing \<Rightarrow> vhdx_header \<Rightarrow> log_overlay result" where
  "build_overlay b header =
     (if log_length header = 0 \<or> log_guid header = ZERO_GUID then Ok empty_overlay
      else
        let log_start = unat (log_offset header);
            log_end = saturating_add log_start (unat (log_length header))
        in
        if backing_len b < log_end then Err OffsetOutOfBounds
        else
          and_then (map_err Io (read_exact_at b log_start (unat (log_length header)))) (\<lambda>log.
          if length log < unat (log_length header) then Err OffsetOutOfBounds
          else overlay_entries (collect_entries log (log_guid header)) empty_overlay))"

subsection \<open>What is collected\<close>

definition committed_entry :: "bytes \<Rightarrow> bytes \<Rightarrow> bytes \<Rightarrow> bool" where
  "committed_entry log guid e =
     (64 \<le> length e \<and> length e \<le> length log
      \<and> window e 0 4 = LOG_ENTRY_SIGNATURE
      \<and> length e = unat (le_u32 e 8)
      \<and> crc_ok e \<and> le_arr16 e 32 = guid)"

subsection \<open>The entries of a log\<close>

text \<open>
  The log as the format describes it. A whole entry stands at a place when its signature is there
  and the length it declares lies in the log; the next place is behind it.
\<close>

definition log_entry_len :: "bytes \<Rightarrow> nat \<Rightarrow> nat" where
  "log_entry_len log p = unat (le_u32 log (p + 8))"

definition log_entry_at :: "bytes \<Rightarrow> nat \<Rightarrow> bytes" where
  "log_entry_at log p = window log p (log_entry_len log p)"

definition entry_fits :: "bytes \<Rightarrow> nat \<Rightarrow> bool" where
  "entry_fits log p \<longleftrightarrow>
     p + 64 \<le> length log \<and> window log p 4 = LOG_ENTRY_SIGNATURE
     \<and> 64 \<le> log_entry_len log p \<and> p + log_entry_len log p \<le> length log"

inductive follows :: "bytes \<Rightarrow> nat \<Rightarrow> nat \<Rightarrow> bool" for log where
  follows_refl: "follows log p p"
| follows_next: "entry_fits log p \<Longrightarrow> follows log (p + log_entry_len log p) q \<Longrightarrow> follows log p q"

lemma follows_le: "follows log p q \<Longrightarrow> p \<le> q"
  by (induction rule: follows.induct) auto

text \<open>The places of the committed entries from a place on.\<close>

function commits :: "bytes \<Rightarrow> bytes \<Rightarrow> nat \<Rightarrow> nat list" where
  "commits log guid p =
     (if entry_fits log p then
        (if committed_entry log guid (log_entry_at log p) then [p] else [])
          @ commits log guid (p + log_entry_len log p)
      else [])"
  by pat_completeness auto
termination
  by (relation "measure (\<lambda>(log, g, p). length log - p)") (auto simp: entry_fits_def)

declare commits.simps [simp del]

lemma commits_set:
  "q \<in> set (commits log guid p) \<longleftrightarrow>
     follows log p q \<and> entry_fits log q \<and> committed_entry log guid (log_entry_at log q)"
proof (induction log guid p rule: commits.induct)
  case (1 log guid p)
  have f: "follows log p q \<longleftrightarrow> q = p \<or> entry_fits log p \<and> follows log (p + log_entry_len log p) q"
    by (subst follows.simps) auto
  show ?case
    using 1 by (subst commits.simps) (auto simp: f)
qed

lemma commits_sorted: "sorted_wrt (<) (commits log guid p)"
proof (induction log guid p rule: commits.induct)
  case (1 log guid p)
  have "p < q" if "entry_fits log p" "q \<in> set (commits log guid (p + log_entry_len log p))" for q
    using that follows_le [of log "p + log_entry_len log p" q] by (auto simp: commits_set entry_fits_def)
  with 1 show ?case by (subst commits.simps) (simp add: sorted_wrt_append)
qed

lemma log_entry_at_fits:
  assumes "entry_fits log p"
  shows "committed_entry log guid (log_entry_at log p) \<longleftrightarrow> crc_ok (log_entry_at log p) \<and> le_arr16 (log_entry_at log p) 32 = guid"
proof -
  have n: "64 \<le> log_entry_len log p" "p + log_entry_len log p \<le> length log" "window log p 4 = LOG_ENTRY_SIGNATURE"
    using assms by (simp_all add: entry_fits_def)
  then have "window (log_entry_at log p) 0 4 = LOG_ENTRY_SIGNATURE" "length (log_entry_at log p) = log_entry_len log p"
    by (simp_all add: log_entry_at_def window_window)
  moreover have "unat (le_u32 (log_entry_at log p) 8) = log_entry_len log p"
    using n by (simp add: log_entry_at_def le_u32_def window_window) (simp add: log_entry_len_def le_u32_def)
  ultimately show ?thesis using n by (simp add: committed_entry_def)
qed

lemma collect_loop_step:
  "collect_loop log guid p =
     (if entry_fits log p then
        if crc_ok (log_entry_at log p) \<and> le_arr16 (log_entry_at log p) 32 = guid
        then (le_u64 (log_entry_at log p) 16, log_entry_at log p) # collect_loop log guid (p + log_entry_len log p)
        else collect_loop log guid (p + log_entry_len log p)
      else [])"
proof -
  define n where "n = log_entry_len log p"
  define b where "b = log_entry_at log p"
  have "collect_loop log guid p =
      (if p + 64 > length log \<or> window log p 4 \<noteq> LOG_ENTRY_SIGNATURE
          \<or> n < 64 \<or> p + n > length log then []
       else if crc32c (zero_crc b) \<noteq> le_u32 b 4 \<or> le_arr16 b 32 \<noteq> guid
       then collect_loop log guid (p + n)
       else (le_u64 b 16, b) # collect_loop log guid (p + n))"
    by (subst collect_loop.simps) (simp add: n_def b_def log_entry_at_def log_entry_len_def Let_def)
  moreover have "entry_fits log p \<longleftrightarrow> \<not> (p + 64 > length log \<or> window log p 4 \<noteq> LOG_ENTRY_SIGNATURE
      \<or> n < 64 \<or> p + n > length log)"
    by (auto simp: entry_fits_def n_def)
  ultimately show ?thesis by (simp add: crc_ok_def n_def [symmetric] b_def [symmetric])
qed

lemma collect_loop_commits:
  "collect_loop log guid p = map (\<lambda>p. (le_u64 (log_entry_at log p) 16, log_entry_at log p)) (commits log guid p)"
proof (induction log guid p rule: commits.induct)
  case (1 log guid p)
  show ?case
    using 1 by (subst commits.simps, subst collect_loop_step) (simp add: log_entry_at_fits)
qed

subsection \<open>What is replayed\<close>

lemma collect_loop_committed:
  "(sq, e) \<in> set (collect_loop log guid pos) \<Longrightarrow> sq = le_u64 e 16 \<and> committed_entry log guid e"
  by (auto simp: collect_loop_commits commits_set)

lemma collect_entries_set: "set (collect_entries log guid) = snd ` set (collect_loop log guid 0)"
  by (simp add: collect_entries_def)

lemma collect_entries_committed:
  "e \<in> set (collect_entries log guid) \<Longrightarrow> committed_entry log guid e"
  by (auto simp: collect_entries_set dest: collect_loop_committed)

lemma collect_entries_sorted:
  "sorted (map (\<lambda>e. le_u64 e 16) (collect_entries log guid))"
proof -
  let ?s = "sort_key fst (collect_loop log guid 0)"
  have "map (\<lambda>e. le_u64 e 16) (map snd ?s) = map fst ?s"
    by (auto dest: collect_loop_committed)
  then show ?thesis unfolding collect_entries_def by (simp only: sorted_sort_key)
qed

text \<open>Nothing is lost or duplicated, and entries with one sequence number keep their order.\<close>

lemma collect_entries_mset:
  "mset (collect_entries log guid) = mset (map snd (collect_loop log guid 0))"
  by (simp add: collect_entries_def)

lemma collect_entries_stable:
  "filter (\<lambda>e. le_u64 e 16 = sq) (collect_entries log guid)
     = filter (\<lambda>e. le_u64 e 16 = sq) (map snd (collect_loop log guid 0))"
proof -
  let ?l = "collect_loop log guid 0"
  have key: "filter (\<lambda>e. le_u64 e 16 = sq) (map snd xs) = map snd (filter (\<lambda>p. fst p = sq) xs)"
    if "set xs \<subseteq> set ?l" for xs
    using that by (induction xs) (auto dest: collect_loop_committed)
  have "filter (\<lambda>p. fst p = sq) (sort_key fst ?l) = filter (\<lambda>p. fst p = sq) ?l"
    by (rule sort_key_stable)
  then show ?thesis by (simp add: collect_entries_def key)
qed

subsection \<open>A run, as a write clipped to the buffer\<close>

definition write_at :: "nat \<times> bytes \<Rightarrow> bytes \<Rightarrow> bytes" where
  "write_at rn d =
     map (\<lambda>i. if fst rn \<le> i \<and> i < fst rn + length (snd rn) then snd rn ! (i - fst rn) else d ! i)
       [0..<length d]"

definition committed :: "log_overlay \<Rightarrow> bytes \<Rightarrow> bytes" where
  "committed ov d = fold write_at (runs ov) d"

lemma length_write_at [simp]: "length (write_at rn d) = length d"
  by (simp add: write_at_def)

lemma nth_write_at:
  "i < length d \<Longrightarrow> write_at rn d ! i =
     (if fst rn \<le> i \<and> i < fst rn + length (snd rn) then snd rn ! (i - fst rn) else d ! i)"
  by (simp add: write_at_def)

lemma length_fold_write_at [simp]: "length (fold write_at rs d) = length d"
  by (induction rs arbitrary: d) auto

lemma length_committed [simp]: "length (committed ov d) = length d"
  by (simp add: committed_def)

lemma write_at_overwrite:
  "off + length bs \<le> length d \<Longrightarrow> write_at (off, bs) d = overwrite d off bs"
  by (rule nth_equalityI) (auto simp: nth_write_at nth_overwrite)

lemma write_at_outside: "length d \<le> off \<or> bs = [] \<Longrightarrow> write_at (off, bs) d = d"
  by (rule nth_equalityI) (auto simp: nth_write_at)

lemma le_diff_of_add_le: "a + b \<le> c \<Longrightarrow> b \<le> c - (a :: nat)"
  by simp

text \<open>Patching a window is taking the window of the patched whole.\<close>

lemma patch_run_window:
  assumes "off + n \<le> length d" and "length d < 2 ^ 63"
  shows "patch_run off (off + n) rn (window d off n) = Ok (window (write_at rn d) off n)"
proof -
  let ?s = "fst rn" and ?run = "snd rn"
  define lo hi where "lo = max ?s off" and "hi = min (?s + length ?run) (off + n)"
  have bounds: "off \<le> lo" "?s \<le> lo" "hi \<le> ?s + length ?run" "hi \<le> off + n"
    by (simp_all add: lo_def hi_def)
  have inside: "(?s \<le> off + i \<and> off + i < ?s + length ?run) = (lo \<le> off + i \<and> off + i < hi)"
    if "i < n" for i
    using that by (simp add: lo_def hi_def)
  have sat: "min (saturating_add ?s (length ?run)) (off + n) = hi"
    using assms by (auto simp: saturating_add_def hi_def)
  have step: "patch_run off (off + n) rn buf =
      (if lo \<ge> hi then Ok buf
       else and_then (slice ?run (lo - ?s) (lo - ?s + (hi - lo))) (\<lambda>bs. put_slice buf (lo - off) bs))"
    for buf :: bytes
    by (simp add: patch_run_def Let_def sat lo_def [symmetric])
  show ?thesis
  proof (cases "hi \<le> lo")
    case True
    have "window (write_at rn d) off n ! i = window d off n ! i" if "i < n" for i
    proof -
      have "\<not> (?s \<le> off + i \<and> off + i < ?s + length ?run)"
        unfolding inside [OF that] using True by linarith
      then show ?thesis using that assms(1) by (auto simp: nth_write_at)
    qed
    then have "window (write_at rn d) off n = window d off n"
      using assms(1) by (intro nth_equalityI) simp_all
    then show ?thesis using True by (simp add: step)
  next
    case False
    define src where "src = window ?run (lo - ?s) (hi - lo)"
    have fit: "lo - ?s + (hi - lo) \<le> length ?run" using bounds False by linarith
    have len: "length src = hi - lo"
      unfolding src_def length_window by (rule min_absorb1) (rule le_diff_of_add_le [OF fit])
    have dst: "lo - off + length src \<le> length (window d off n)"
      using assms(1) bounds False len by simp
    have "patch_run off (off + n) rn (window d off n) = Ok (overwrite (window d off n) (lo - off) src)"
      using False fit dst by (simp add: step src_def slice_eval put_slice_eval)
    also have "overwrite (window d off n) (lo - off) src = window (write_at rn d) off n"
    proof (rule nth_equalityI)
      show "length (overwrite (window d off n) (lo - off) src) = length (window (write_at rn d) off n)"
        using dst by simp
      fix i assume "i < length (overwrite (window d off n) (lo - off) src)"
      then have i: "i < n" using dst by simp
      have sel: "src ! (i - (lo - off)) = ?run ! (off + i - ?s)" if "lo \<le> off + i" "off + i < hi"
      proof -
        have "src ! (i - (lo - off)) = ?run ! (lo - ?s + (i - (lo - off)))"
          using that bounds fit unfolding src_def by (intro nth_window) linarith+
        also have "lo - ?s + (i - (lo - off)) = off + i - ?s" using that bounds by linarith
        finally show ?thesis .
      qed
      have "lo - off \<le> i \<and> i < lo - off + length src \<longleftrightarrow> lo \<le> off + i \<and> off + i < hi"
        using bounds len False by linarith
      then show "overwrite (window d off n) (lo - off) src ! i = window (write_at rn d) off n ! i"
        using i dst assms(1) inside [OF i] sel
        by (simp add: nth_overwrite nth_write_at)
    qed
    finally show ?thesis .
  qed
qed

lemma patch_runs_window:
  assumes "off + n \<le> length d" and "length d < 2 ^ 63"
  shows "patch_runs off (off + n) rs (window d off n) = Ok (window (fold write_at rs d) off n)"
  using assms
proof (induction rs arbitrary: d)
  case Nil
  then show ?case by simp
next
  case (Cons r rs)
  then show ?case by (simp add: patch_run_window)
qed

lemma patch_window:
  assumes "off + n \<le> length d" and "length d < 2 ^ 63"
  shows "patch ov (window d off n) off = Ok (window (committed ov d) off n)"
proof (cases "runs ov = [] \<or> n = 0")
  case True
  then show ?thesis by (auto simp: patch_def committed_def)
next
  case False
  have "window d off n \<noteq> []" using False assms(1) by (simp add: window_def)
  moreover have "saturating_add off (length (window d off n)) = off + n"
    using assms by (simp add: saturating_add_def)
  ultimately show ?thesis
    using False patch_runs_window [OF assms] by (simp add: patch_def committed_def)
qed

subsection \<open>Both forms of replay make the same writes\<close>

text \<open>
  A descriptor on which the two paths agree: it lies inside the entry; the sector of a data
  descriptor does not straddle the end of the container; a zero run can be allocated.
\<close>

definition descriptor_ok :: "nat \<Rightarrow> bytes \<Rightarrow> nat \<Rightarrow> bool" where
  "descriptor_ok sz entry i =
     (let d = window entry (64 + i * 32) 32 in
      64 + (i + 1) * 32 \<le> length entry
      \<and> (window d 0 4 = DESC_SIGNATURE \<longrightarrow>
           unat (le_u64 d 24) + 4096 \<le> sz
           \<or> sz \<le> unat (le_u64 d 24) \<and> unat (le_u64 d 24) + 4096 < 2 ^ 64)
      \<and> (window d 0 4 = ZERO_SIGNATURE \<longrightarrow> unat (le_u64 d 8) < 2 ^ 63))"

definition entry_ok :: "nat \<Rightarrow> bytes \<Rightarrow> bool" where
  "entry_ok sz entry = (\<forall>i < descriptor_count entry. descriptor_ok sz entry i)"

definition add_runs :: "log_overlay \<Rightarrow> (nat \<times> bytes) list \<Rightarrow> log_overlay" where
  "add_runs ov rs = ov\<lparr> runs := runs ov @ rs \<rparr>"

lemma add_runs_Nil [simp]: "add_runs ov [] = ov"
  by (simp add: add_runs_def)

lemma add_runs_add [simp]: "add_runs (add_runs ov rs) rs' = add_runs ov (rs @ rs')"
  by (simp add: add_runs_def)

lemma runs_add_runs [simp]: "runs (add_runs ov rs) = runs ov @ rs"
  by (simp add: add_runs_def)

lemma push_run_add: "bs \<noteq> [] \<Longrightarrow> push_run ov off bs = add_runs ov [(off, bs)]"
  by (simp add: push_run_def add_runs_def)

lemma apply_data_write:
  assumes "so + 4096 \<le> length entry"
    and "off + 4096 \<le> length d \<or> length d \<le> off \<and> off + 4096 < 2 ^ 64"
    and "length d < 2 ^ 63"
  shows "apply_data d entry off so = Ok (write_at (off, window entry so 4096) d)"
proof (cases "off + 4096 \<le> length d")
  case True
  then show ?thesis
    using assms by (simp add: apply_data_def outcome_simps write_at_overwrite)
next
  case False
  then have "length d \<le> off" "off + 4096 < 2 ^ 64" using assms(2) by auto
  then show ?thesis
    using False assms(1) by (simp add: apply_data_def outcome_simps write_at_outside)
qed

lemma apply_zero_write:
  assumes "length d < 2 ^ 63"
  shows "apply_zero d off n = Ok (write_at (off, replicate n 0) d)"
proof (cases "off < length d")
  case True
  define e where "e = min (saturating_add off n) (length d)"
  have e: "off \<le> e" "e \<le> length d" "e \<le> off + n" "e = off + n \<or> e = length d"
    using True assms by (auto simp: e_def saturating_add_def)
  have "overwrite d off (replicate (e - off) 0) = write_at (off, replicate n 0) d"
    by (rule nth_equalityI) (use e in \<open>auto simp: nth_overwrite nth_write_at\<close>)
  then show ?thesis
    using True e by (simp add: apply_zero_def e_def [symmetric] Let_def outcome_simps)
next
  case False
  then show ?thesis by (simp add: apply_zero_def Let_def write_at_outside)
qed

lemma signatures_differ: "DESC_SIGNATURE \<noteq> ZERO_SIGNATURE" "ZERO_SIGNATURE \<noteq> DESC_SIGNATURE"
  by (simp_all add: DESC_SIGNATURE_def ZERO_SIGNATURE_def)

text \<open>
  One descriptor appends the same runs to the overlay that it writes to the buffer, and moves
  both replays on to the same state of the loop.
\<close>

lemma data_descriptor_step:
  assumes w: "slice entry (64 + i * 32) (64 + (i + 1) * 32) = (Ok w :: bytes result)"
        "window w 0 4 = DESC_SIGNATURE"
    and fits: "unat (le_u64 w 24) + 4096 \<le> length d
      \<or> length d \<le> unat (le_u64 w 24) \<and> unat (le_u64 w 24) + 4096 < 2 ^ 64"
    and small: "length d < 2 ^ 63"
  shows "\<exists>rs. overlay_descriptors entry (i # is) k ov = overlay_descriptors entry is (k + 1) (add_runs ov rs)
    \<and> apply_descriptors entry (i # is) k d = apply_descriptors entry is (k + 1) (fold write_at rs d)"
proof -
  define so where "so = data_sector_base entry + k * 4096"
  let ?off = "unat (le_u64 w 24)" and ?sec = "window entry so 4096"
  have ap: "apply_descriptors entry (i # is) k d =
      and_then (apply_data d entry ?off so) (apply_descriptors entry is (k + 1))"
    unfolding apply_descriptors.simps w(1) and_then.simps Let_def so_def [symmetric] by (simp add: w(2))
  show ?thesis
  proof (cases "so + 4096 \<le> length entry")
    case True
    then have "length ?sec = 4096" by simp
    then have ne: "?sec \<noteq> []" by (metis list.size(3) zero_neq_numeral)
    have "overlay_descriptors entry (i # is) k ov = overlay_descriptors entry is (k + 1) (push_run ov ?off ?sec)"
      unfolding overlay_descriptors.simps w(1) and_then.simps Let_def so_def [symmetric]
      using True by (simp add: w(2) slice_eval)
    then show ?thesis
      unfolding ap apply_data_write [OF True fits small] push_run_add [OF ne]
      by (intro exI [of _ "[(?off, ?sec)]"]) simp
  next
    case False
    then have "overlay_descriptors entry (i # is) k ov = overlay_descriptors entry is (k + 1) ov"
      unfolding overlay_descriptors.simps w(1) and_then.simps Let_def so_def [symmetric] by (simp add: w(2))
    moreover have "apply_data d entry ?off so = Ok d" using False by (simp add: apply_data_def)
    ultimately show ?thesis unfolding ap by (intro exI [of _ "[]"]) simp
  qed
qed

lemma zero_descriptor_step:
  assumes w: "slice entry (64 + i * 32) (64 + (i + 1) * 32) = (Ok w :: bytes result)"
        "window w 0 4 = ZERO_SIGNATURE"
    and n: "unat (le_u64 w 8) < 2 ^ 63" and small: "length d < 2 ^ 63"
  shows "\<exists>rs. overlay_descriptors entry (i # is) k ov = overlay_descriptors entry is k (add_runs ov rs)
    \<and> apply_descriptors entry (i # is) k d = apply_descriptors entry is k (fold write_at rs d)"
proof -
  let ?off = "unat (le_u64 w 16)" and ?n = "unat (le_u64 w 8)"
  have ap: "apply_descriptors entry (i # is) k d =
      apply_descriptors entry is k (write_at (?off, replicate ?n 0) d)"
    unfolding apply_descriptors.simps w(1) and_then.simps Let_def
    by (simp add: w(2) signatures_differ apply_zero_write [OF small])
  show ?thesis
  proof (cases "?n = 0")
    case True
    then have "overlay_descriptors entry (i # is) k ov = overlay_descriptors entry is k ov"
      unfolding overlay_descriptors.simps w(1) and_then.simps Let_def by (simp add: w(2) signatures_differ)
    then show ?thesis unfolding ap using True by (intro exI [of _ "[]"]) (simp add: write_at_outside)
  next
    case False
    then have ne: "replicate ?n (0 :: u8) \<noteq> []" by simp
    have "overlay_descriptors entry (i # is) k ov
        = overlay_descriptors entry is k (push_run ov ?off (replicate ?n 0))"
      unfolding overlay_descriptors.simps w(1) and_then.simps Let_def
      using False n by (simp add: w(2) signatures_differ vec_zeros_def)
    then show ?thesis
      unfolding ap push_run_add [OF ne] by (intro exI [of _ "[(?off, replicate ?n 0)]"]) simp
  qed
qed

lemma descriptor_step:
  assumes ok: "descriptor_ok (length d) entry i" and small: "length d < 2 ^ 63"
  shows "\<exists>rs k'. overlay_descriptors entry (i # is) k ov = overlay_descriptors entry is k' (add_runs ov rs)
    \<and> apply_descriptors entry (i # is) k d = apply_descriptors entry is k' (fold write_at rs d)"
proof -
  define w where "w = window entry (64 + i * 32) 32"
  have w: "slice entry (64 + i * 32) (64 + (i + 1) * 32) = (Ok w :: bytes result)"
    using ok by (simp add: descriptor_ok_def Let_def w_def slice_def)
  consider (data) "window w 0 4 = DESC_SIGNATURE" | (zeros) "window w 0 4 = ZERO_SIGNATURE"
    | (neither) "window w 0 4 \<noteq> DESC_SIGNATURE" "window w 0 4 \<noteq> ZERO_SIGNATURE"
    by blast
  then show ?thesis
  proof cases
    case data
    then have "unat (le_u64 w 24) + 4096 \<le> length d
        \<or> length d \<le> unat (le_u64 w 24) \<and> unat (le_u64 w 24) + 4096 < 2 ^ 64"
      using ok by (simp add: descriptor_ok_def Let_def w_def)
    from data_descriptor_step [OF w data this small] show ?thesis by blast
  next
    case zeros
    then have "unat (le_u64 w 8) < 2 ^ 63" using ok by (simp add: descriptor_ok_def Let_def w_def)
    from zero_descriptor_step [OF w zeros this small] show ?thesis by blast
  next
    case neither
    then have "overlay_descriptors entry (i # is) k ov = overlay_descriptors entry is k (add_runs ov [])"
      "apply_descriptors entry (i # is) k d = apply_descriptors entry is k (fold write_at [] d)"
      unfolding overlay_descriptors.simps apply_descriptors.simps w and_then.simps by simp_all
    then show ?thesis by blast
  qed
qed

lemma descriptors_simulate:
  assumes "\<forall>i \<in> set is. descriptor_ok (length d) entry i" and "length d < 2 ^ 63"
  shows "\<exists>rs. overlay_descriptors entry is k ov = Ok (add_runs ov rs)
            \<and> apply_descriptors entry is k d = Ok (fold write_at rs d)"
  using assms
proof (induction "is" arbitrary: k ov d)
  case Nil
  then show ?case by (intro exI [of _ "[]"]) simp
next
  case (Cons i "is")
  obtain rs k' where step:
    "overlay_descriptors entry (i # is) k ov = overlay_descriptors entry is k' (add_runs ov rs)"
    "apply_descriptors entry (i # is) k d = apply_descriptors entry is k' (fold write_at rs d)"
    using descriptor_step [of d entry i "is" k ov] Cons.prems by auto
  obtain rs' where "overlay_descriptors entry is k' (add_runs ov rs) = Ok (add_runs (add_runs ov rs) rs')"
    "apply_descriptors entry is k' (fold write_at rs d) = Ok (fold write_at rs' (fold write_at rs d))"
    using Cons.IH [of "fold write_at rs d" k' "add_runs ov rs"] Cons.prems by auto
  with step show ?case by (intro exI [of _ "rs @ rs'"]) simp
qed

lemma entries_simulate:
  assumes "\<forall>e \<in> set es. entry_ok (length d) e" and "length d < 2 ^ 63"
  shows "\<exists>rs. overlay_entries es ov = Ok (add_runs ov rs)
            \<and> apply_entries es d = Ok (fold write_at rs d)"
  using assms
proof (induction es arbitrary: ov d)
  case Nil
  then show ?case by (intro exI [of _ "[]"]) simp
next
  case (Cons e es)
  obtain rs where rs: "overlay_entry ov e = Ok (add_runs ov rs)" "apply_entry d e = Ok (fold write_at rs d)"
    using descriptors_simulate [of "[0..<descriptor_count e]" d e 0 ov] Cons.prems
    by (auto simp: overlay_entry_def apply_entry_def entry_ok_def)
  obtain rs' where "overlay_entries es (add_runs ov rs) = Ok (add_runs (add_runs ov rs) rs')"
    "apply_entries es (fold write_at rs d) = Ok (fold write_at rs' (fold write_at rs d))"
    using Cons.IH [of "fold write_at rs d" "add_runs ov rs"] Cons.prems by auto
  with rs show ?case by (intro exI [of _ "rs @ rs'"]) simp
qed

text \<open>The entries an image replays, and the images whose entries are all well formed.\<close>

definition replayed :: "bytes \<Rightarrow> vhdx_header \<Rightarrow> bytes list" where
  "replayed d h =
     (let log_start = unat (log_offset h); n = unat (log_length h) in
      if n = 0 \<or> log_guid h = ZERO_GUID \<or> length d < log_start + n then []
      else collect_entries (window d log_start n) (log_guid h))"

definition log_ok :: "bytes \<Rightarrow> bool" where
  "log_ok d =
     (case parse_active_header d of
        Ok h \<Rightarrow> list_all (entry_ok (length d)) (replayed d h)
      | _ \<Rightarrow> True)"

lemma log_end_le:
  "n < 2 ^ 63 \<Longrightarrow> (n < saturating_add a b) = (n < a + b)"
  by (auto simp: saturating_add_def)

lemma replay_paths_agree:
  assumes b: "faithful_backing b d" and small: "length d < 2 ^ 63" and ok: "log_ok d"
    and h: "parse_active_header d = Ok h"
  shows "(apply_log d = Err OffsetOutOfBounds \<and> build_overlay b h = Err OffsetOutOfBounds)
    \<or> (\<exists>ov. build_overlay b h = Ok ov \<and> apply_log d = Ok (committed ov d))"
proof -
  let ?start = "unat (log_offset h)" and ?n = "unat (log_length h)"
  let ?clean = "log_length h = 0 \<or> log_guid h = ZERO_GUID"
  have n0: "?n = 0 \<longleftrightarrow> log_length h = 0" by (simp add: unat_eq_0)
  show ?thesis
  proof (cases "?clean")
    case True
    then show ?thesis
      by (auto simp: apply_log_def build_overlay_def h committed_def empty_overlay_def)
  next
    case dirty: False
    show ?thesis
    proof (cases "length d < ?start + ?n")
      case True
      then show ?thesis
        using dirty small
        by (simp add: apply_log_def build_overlay_def h Let_def log_end_le
            faithful_backing.len_content [OF b])
    next
      case False
      have exact: "saturating_add ?start ?n = ?start + ?n"
        using False small by (intro saturating_add_exact) simp
      have start: "?start < 2 ^ 64" using unat_u64_bound [of "log_offset h"] by simp
      let ?es = "collect_entries (window d ?start ?n) (log_guid h)"
      have "\<forall>e \<in> set ?es. entry_ok (length d) e"
        using ok dirty False n0 by (simp add: log_ok_def h replayed_def Let_def list_all_iff)
      from entries_simulate [OF this small, of empty_overlay] obtain rs where
        rs: "overlay_entries ?es empty_overlay = Ok (add_runs empty_overlay rs)"
          "apply_entries ?es d = Ok (fold write_at rs d)" by blast
      have "build_overlay b h = Ok (add_runs empty_overlay rs)"
        using dirty False exact rs(1) start
        by (simp add: build_overlay_def Let_def faithful_backing.len_content [OF b]
            faithful_backing.read_exact_content [OF b])
      moreover have "apply_log d = Ok (committed (add_runs empty_overlay rs) d)"
        using dirty False exact rs(2)
        by (simp add: apply_log_def h Let_def slice_eval committed_def)
          (simp add: empty_overlay_def)
      ultimately show ?thesis by blast
    qed
  qed
qed

subsection \<open>A descriptor outside its entry\<close>

lemma apply_data_no_Err: "apply_data d e off so \<noteq> Err x"
  by (cases "off + 4096 < 2 ^ 64")
    (auto simp: apply_data_def add_u_def slice_def put_slice_def)

lemma apply_zero_no_Err: "apply_zero d off n \<noteq> Err x"
  by (simp add: apply_zero_def Let_def)

lemma vec_zeros_no_Err: "vec_zeros n \<noteq> Err x"
  by (simp add: vec_zeros_def)

lemma and_then_to_Panic: "(\<And>x. m \<noteq> Err x) \<Longrightarrow> and_then m (\<lambda>x. Panic) = Panic"
  by (cases m) auto

lemma apply_descriptors_overrun:
  "\<exists>i \<in> set is. length entry < 64 + (i + 1) * 32 \<Longrightarrow> apply_descriptors entry is k d = Panic"
proof (induction "is" arbitrary: k d)
  case (Cons i "is")
  show ?case
  proof (cases "length entry < 64 + (i + 1) * 32")
    case True
    then have "slice entry (64 + i * 32) (64 + (i + 1) * 32) = (Panic :: bytes result)" by simp
    then show ?thesis by (simp only: apply_descriptors.simps and_then.simps)
  next
    case False
    then have IH: "apply_descriptors entry is k' d' = Panic" for k' d' using Cons by auto
    have "slice entry (64 + i * 32) (64 + (i + 1) * 32)
        = (Ok (window entry (64 + i * 32) 32) :: bytes result)"
      using False by (simp add: slice_def)
    then show ?thesis
      unfolding apply_descriptors.simps IH Let_def
      by (simp only: and_then.simps and_then_to_Panic [OF apply_data_no_Err]
          and_then_to_Panic [OF apply_zero_no_Err]
          and_then_to_Panic [OF slice_not_Err] if_cancel)
  qed
qed simp

lemma overlay_descriptors_overrun:
  "\<exists>i \<in> set is. length entry < 64 + (i + 1) * 32 \<Longrightarrow> overlay_descriptors entry is k ov = Panic"
proof (induction "is" arbitrary: k ov)
  case (Cons i "is")
  show ?case
  proof (cases "length entry < 64 + (i + 1) * 32")
    case True
    then have "slice entry (64 + i * 32) (64 + (i + 1) * 32) = (Panic :: bytes result)" by simp
    then show ?thesis by (simp only: overlay_descriptors.simps and_then.simps)
  next
    case False
    then have IH: "overlay_descriptors entry is k' ov' = Panic" for k' ov' using Cons by auto
    have "slice entry (64 + i * 32) (64 + (i + 1) * 32)
        = (Ok (window entry (64 + i * 32) 32) :: bytes result)"
      using False by (simp add: slice_def)
    then show ?thesis
      unfolding overlay_descriptors.simps IH Let_def
      by (simp only: and_then.simps and_then_to_Panic [OF vec_zeros_no_Err]
          and_then_to_Panic [OF slice_not_Err] if_cancel)
  qed
qed simp

subsection \<open>A log with one entry\<close>

lemma committed_straddling:
  assumes "off < length d" and "length d \<le> off + length sec"
  shows "committed (push_run empty_overlay off sec) d = take off d @ take (length d - off) sec"
proof (rule nth_equalityI)
  have ne: "sec \<noteq> []" using assms by auto
  show "length (committed (push_run empty_overlay off sec) d) = length (take off d @ take (length d - off) sec)"
    using assms by simp
  fix i assume "i < length (committed (push_run empty_overlay off sec) d)"
  then show "committed (push_run empty_overlay off sec) d ! i = (take off d @ take (length d - off) sec) ! i"
    using assms ne by (auto simp: push_run_def empty_overlay_def committed_def nth_write_at nth_append)
qed

text \<open>An entry with one data descriptor, in both forms of replay.\<close>

lemma sector_entry_applied:
  assumes "descriptor_count e = 1" and "4192 \<le> length e" and "window e 64 4 = DESC_SIGNATURE"
    and "unat (le_u64 e 88) = off"
  shows "off + 4096 < 2 ^ 64 \<Longrightarrow> apply_entry d e =
      Ok (if off + 4096 \<le> length d then overwrite d off (window e 96 4096) else d)"
    and "overlay_entry ov e = Ok (push_run ov off (window e 96 4096))"
proof -
  define w where "w = window e 64 32"
  have w: "window w 0 4 = DESC_SIGNATURE" "unat (le_u64 w 24) = off"
    using assms(2-4) by (simp_all add: w_def window_window le_u64_def)
  have s: "slice e 64 96 = (Ok w :: bytes result)" "slice e 96 4192 = (Ok (window e 96 4096) :: bytes result)"
    using assms(2) by (simp_all add: slice_def w_def)
  have base: "data_sector_base e = 96" by (simp add: data_sector_base_def assms(1))
  show "apply_entry d e = Ok (if off + 4096 \<le> length d then overwrite d off (window e 96 4096) else d)"
    if "off + 4096 < 2 ^ 64"
    unfolding apply_entry_def assms(1) using that assms(2)
    by (simp add: s w base apply_data_def add_u_def put_slice_def Let_def)
  show "overlay_entry ov e = Ok (push_run ov off (window e 96 4096))"
    unfolding overlay_entry_def assms(1) using assms(2) by (simp add: s w base Let_def)
qed

text \<open>The two forms of replay, on an image with entries to replay.\<close>

lemma replayed_run:
  assumes b: "faithful_backing b d" and small: "length d < 2 ^ 63" and h: "parse_active_header d = Ok h"
    and "replayed d h \<noteq> []"
  shows "apply_log d = apply_entries (replayed d h) d"
    and "build_overlay b h = overlay_entries (replayed d h) empty_overlay"
proof -
  let ?start = "unat (log_offset h)" and ?n = "unat (log_length h)"
  have n0: "?n = 0 \<longleftrightarrow> log_length h = 0" by (simp add: unat_eq_0)
  have dirty: "log_length h \<noteq> 0" "log_guid h \<noteq> ZERO_GUID" "?start + ?n \<le> length d"
    and es: "replayed d h = collect_entries (window d ?start ?n) (log_guid h)"
    using assms(4) n0 by (auto simp: replayed_def Let_def split: if_splits)
  have exact: "saturating_add ?start ?n = ?start + ?n"
    using dirty(3) small by (intro saturating_add_exact) simp
  have start: "?start < 2 ^ 64" using unat_u64_bound [of "log_offset h"] by simp
  show "apply_log d = apply_entries (replayed d h) d"
    using dirty exact by (simp add: apply_log_def h Let_def slice_eval es)
  show "build_overlay b h = overlay_entries (replayed d h) empty_overlay"
    using dirty exact start
    by (simp add: build_overlay_def Let_def es faithful_backing.len_content [OF b]
        faithful_backing.read_exact_content [OF b])
qed

subsection \<open>Properties\<close>

text \<open>C25: The entries that are replayed are exactly the committed entries of the log, each once. The
  places of the log are counted from its start by the lengths that the entries declare, up to the
  first place without a whole entry; a damaged or foreign entry on the way is left out and does not
  hide the ones after it. The entries come in ascending sequence order, and those with one sequence
  number in the order of their places.\<close>

theorem replay_order:
  "\<exists>ps. sorted_wrt (<) ps
     \<and> set ps = {p. follows log 0 p \<and> entry_fits log p \<and> committed_entry log guid (log_entry_at log p)}
     \<and> sorted (map (\<lambda>e. le_u64 e 16) (collect_entries log guid))
     \<and> (\<forall>sq. filter (\<lambda>e. le_u64 e 16 = sq) (collect_entries log guid)
            = filter (\<lambda>e. le_u64 e 16 = sq) (map (log_entry_at log) ps))"
proof (intro exI conjI allI)
  let ?ps = "commits log guid 0"
  show "sorted_wrt (<) ?ps" by (rule commits_sorted)
  show "set ?ps = {p. follows log 0 p \<and> entry_fits log p \<and> committed_entry log guid (log_entry_at log p)}"
    by (auto simp: commits_set)
  show "sorted (map (\<lambda>e. le_u64 e 16) (collect_entries log guid))" by (rule collect_entries_sorted)
  show "filter (\<lambda>e. le_u64 e 16 = sq) (collect_entries log guid)
      = filter (\<lambda>e. le_u64 e 16 = sq) (map (log_entry_at log) ?ps)" for sq
    by (simp add: collect_entries_stable collect_loop_commits comp_def)
qed

text \<open>C7: Laying the overlay over a positioned read gives the same bytes as reading the committed
  content, the one in which every run has been written in replay order; it never panics.\<close>

theorem overlay_read_is_committed_read:
  assumes "off + n \<le> length d" and "length d < 2 ^ 63"
  shows "patch ov (window d off n) off = Ok (window (fold write_at (runs ov) d) off n)"
  using patch_window [OF assms, of ov] by (simp add: committed_def)

theorem overlay_read_is_committed_read_witness:
  "patch \<lparr> runs = [(2, [9, 9]), (3, [7])] \<rparr> (window [0, 1, 2, 3, 4] 1 3) 1 = Ok [1, 9, 7 :: u8]"
  using overlay_read_is_committed_read [of 1 3 "[0, 1, 2, 3, 4]" "\<lparr> runs = [(2, [9, 9]), (3, [7])] \<rparr>"]
  by (simp add: write_at_def window_def upt_rec)

text \<open>C6: When the log is well formed (\<open>log_ok\<close>: every replayed descriptor inside its entry, its
  sector not straddling the end of the container, its zero run allocatable), replaying it into the
  buffer and recording it as an overlay commit the same content, and they refuse a log outside the
  container alike.\<close>

theorem replay_forms_agree:
  assumes "faithful_backing b d" and "length d < 2 ^ 63" and "log_ok d"
    and "parse_active_header d = Ok h"
  shows "apply_log d = map_ok (\<lambda>ov. committed ov d) (build_overlay b h)"
  using replay_paths_agree [OF assms] by auto

text \<open>C32: A committed log entry that declares more descriptors than it holds makes both forms of
  replay panic, whatever the image: opening such an image does not return an error.\<close>

theorem descriptor_overrun_panics:
  assumes "length entry < 64 + descriptor_count entry * 32"
    and "0 < descriptor_count entry"
  shows "apply_entry d entry = Panic \<and> overlay_entry ov entry = Panic"
proof -
  have "\<exists>i \<in> set [0..<descriptor_count entry]. length entry < 64 + (i + 1) * 32"
    using assms by (intro bexI [of _ "descriptor_count entry - 1"]) auto
  then show ?thesis
    by (simp add: apply_entry_def overlay_entry_def apply_descriptors_overrun
        overlay_descriptors_overrun)
qed

theorem descriptor_overrun_panics_witness:
  "apply_entry [] (replicate 24 0 @ [1, 0, 0, 0] @ replicate 36 0) = Panic"
proof -
  let ?e = "replicate 24 0 @ [1, 0, 0, 0] @ replicate 36 (0 :: u8)"
  have "window ?e 24 4 = [1, 0, 0, 0]" by (simp add: window_def)
  then have "descriptor_count ?e = 1" by (simp add: descriptor_count_def le_u32_def)
  then show ?thesis using descriptor_overrun_panics [of ?e "[]"] by simp
qed

text \<open>C38: The two forms of replay treat a sector that straddles the end of the container
  differently. When the only committed entry of the log has one descriptor, and the sector it writes
  starts inside the container and ends outside, replay into the buffer drops the sector and leaves
  the image as it is, while the overlay writes its first part, up to the end of the container; so the
  two agree only when that part is what the image holds already.\<close>

theorem straddling_sector_differs:
  assumes "faithful_backing b d" and "length d < 2 ^ 63" and "parse_active_header d = Ok h"
    and "replayed d h = [e]" and "descriptor_count e = 1" and "4192 \<le> length e"
    and "window e 64 4 = DESC_SIGNATURE" and "unat (le_u64 e 88) = off"
    and "off < length d" and "length d < off + 4096"
  shows "apply_log d = Ok d
    \<and> map_ok (\<lambda>ov. committed ov d) (build_overlay b h)
        = Ok (take off d @ take (length d - off) (window e 96 4096))
    \<and> (apply_log d = map_ok (\<lambda>ov. committed ov d) (build_overlay b h)
        \<longleftrightarrow> drop off d = take (length d - off) (window e 96 4096))"
proof -
  let ?sec = "window e 96 4096"
  have "apply_entries [e] d = Ok d" "overlay_entries [e] empty_overlay = Ok (push_run empty_overlay off ?sec)"
    using sector_entry_applied [OF assms(5-8)] assms(2,9,10) by simp_all
  then have "apply_log d = Ok d" "build_overlay b h = Ok (push_run empty_overlay off ?sec)"
    using replayed_run [OF assms(1-3)] assms(4) by simp_all
  moreover have "committed (push_run empty_overlay off ?sec) d = take off d @ take (length d - off) ?sec"
    using assms(6,9,10) by (intro committed_straddling) simp_all
  moreover have "d = take off d @ take (length d - off) ?sec \<longleftrightarrow> drop off d = take (length d - off) ?sec"
    by (metis append_take_drop_id same_append_eq)
  ultimately show ?thesis by simp
qed

end
