(* ===== verification/Reader.thy ===== *)
theory Reader
  imports Region Bat Log
begin

text \<open>
  The container reader (\<open>core/src/reader.rs\<close>): opening an image from owned bytes or over a
  backing, and the \<open>Read\<close> and \<open>Seek\<close> implementations over the virtual sector stream,
  through the chain of parents.

  A read returns its outcome together with the reader it leaves behind: the cursor of the
  reader moves, and so do the cursors of the parents it consults.
\<close>

text \<open>The eight bytes of \<open>vhdxfile\<close>.\<close>

definition FILE_MAGIC :: bytes where
  "FILE_MAGIC = [0x76, 0x68, 0x64, 0x78, 0x66, 0x69, 0x6C, 0x65]"

definition MIN_CONTAINER_SIZE :: nat where "MIN_CONTAINER_SIZE = 0x00250000"

datatype vhdx_reader =
  VhdxReader (r_backing: backing) (r_overlay: log_overlay) (r_bat: bat) (r_meta: vhdx_metadata)
    (r_pos: nat) (r_parent: "vhdx_reader option")

fun set_pos :: "nat \<Rightarrow> vhdx_reader \<Rightarrow> vhdx_reader" where
  "set_pos x (VhdxReader b ov bt m pos p) = VhdxReader b ov bt m x p"

fun set_parent :: "vhdx_reader \<Rightarrow> vhdx_reader \<Rightarrow> vhdx_reader" where
  "set_parent q (VhdxReader b ov bt m pos p) = VhdxReader b ov bt m pos (Some q)"

subsection \<open>Opening\<close>

definition read_region :: "backing \<Rightarrow> log_overlay \<Rightarrow> nat \<Rightarrow> u32 \<Rightarrow> bytes result" where
  "read_region b ov file_offset len =
     (let rend = saturating_add file_offset (unat len) in
      if backing_len b < rend then Err OffsetOutOfBounds
      else
        and_then (map_err Io (read_exact_at b file_offset (unat len))) (\<lambda>buf.
        if length buf < unat len then Err OffsetOutOfBounds
        else patch ov buf file_offset))"

definition assemble :: "backing \<Rightarrow> log_overlay \<Rightarrow> vhdx_reader option \<Rightarrow> vhdx_reader result" where
  "assemble b ov parent =
     and_then (map_err Io (read_exact_at b 0 MIN_CONTAINER_SIZE)) (\<lambda>raw.
     and_then (patch ov raw 0) (\<lambda>head.
     let container_len = backing_len b in
     and_then (or_else (parse_region_table head REGION_TABLE1_OFFSET container_len)
                 (parse_region_table head REGION_TABLE2_OFFSET container_len)) (\<lambda>regions.
     and_then (read_region b ov (unat (re_file_offset (rt_metadata regions)))
                 (re_length (rt_metadata regions))) (\<lambda>meta_region.
     and_then (parse_metadata meta_region 0 (re_length (rt_metadata regions))) (\<lambda>meta.
     and_then (validate meta) (\<lambda>_.
     if has_parent meta \<and> parent = None then Err DifferencingNotSupported
     else
       and_then (read_region b ov (unat (re_file_offset (rt_bat regions)))
                   (re_length (rt_bat regions))) (\<lambda>bat_region.
       and_then (parse_bat bat_region 0 (re_length (rt_bat regions)) meta) (\<lambda>bt.
       Ok (VhdxReader b ov bt meta 0 parent)))))))))"

definition parse_bytes :: "bytes \<Rightarrow> vhdx_reader option \<Rightarrow> vhdx_reader result" where
  "parse_bytes data parent =
     (if length data < 8 \<or> window data 0 8 \<noteq> FILE_MAGIC then Err BadMagic
      else if length data < MIN_CONTAINER_SIZE then Err (ContainerTooSmall MIN_CONTAINER_SIZE)
      else
        and_then (apply_log data) (\<lambda>data'.
        assemble (BackingMem data') empty_overlay parent))"

definition parse_backing :: "backing \<Rightarrow> vhdx_reader option \<Rightarrow> vhdx_reader result" where
  "parse_backing b parent =
     and_then (map_err Io (read_at b 8 0)) (\<lambda>magic.
     if length magic < 8 \<or> magic \<noteq> FILE_MAGIC then Err BadMagic
     else if backing_len b < MIN_CONTAINER_SIZE then Err (ContainerTooSmall MIN_CONTAINER_SIZE)
     else
       and_then (map_err Io (read_exact_at b 0 MIN_CONTAINER_SIZE)) (\<lambda>head.
       and_then (parse_active_header head) (\<lambda>header.
       and_then (build_overlay b header) (\<lambda>ov.
       assemble b ov parent))))"

definition from_bytes :: "bytes \<Rightarrow> vhdx_reader result" where
  "from_bytes data = parse_bytes data None"

definition from_bytes_with_parent :: "bytes \<Rightarrow> vhdx_reader \<Rightarrow> vhdx_reader result" where
  "from_bytes_with_parent data parent = parse_bytes data (Some parent)"

definition from_backing :: "backing \<Rightarrow> vhdx_reader option \<Rightarrow> vhdx_reader result" where
  "from_backing b parent = parse_backing b parent"

definition from_backing_with_parent :: "backing \<Rightarrow> vhdx_reader \<Rightarrow> vhdx_reader result" where
  "from_backing_with_parent b parent = parse_backing b (Some parent)"

text \<open>\<open>open\<close>, once the operating system has handed over the file.\<close>

definition open_file :: "os_file \<Rightarrow> vhdx_reader result" where
  "open_file f = from_backing (BackingFile f) None"

text \<open>\<open>open_reader\<close>: the length is measured by a seek to the end, then back to the start.\<close>

definition open_reader :: "os_file \<Rightarrow> vhdx_reader result" where
  "open_reader f =
     (let len = length (os_content f) in
      (case os_seek f len of
         Some e \<Rightarrow> Err (Io e)
       | None \<Rightarrow>
           (case os_seek f 0 of
              Some e \<Rightarrow> Err (Io e)
            | None \<Rightarrow> from_backing (BackingReader f False len) None)))"

definition reader_disk_size :: "vhdx_reader \<Rightarrow> u64" where
  "reader_disk_size r = virtual_disk_size (r_meta r)"

definition reader_sector_size :: "vhdx_reader \<Rightarrow> u32" where
  "reader_sector_size r = logical_sector_size (r_meta r)"

subsection \<open>Seeking\<close>

datatype seek_from = SeekStart nat | SeekCurrent int | SeekEnd int

text \<open>\<open>x as i64\<close> for a \<open>u64\<close>, and \<open>i64\<close> addition.\<close>

definition as_i64 :: "nat \<Rightarrow> int" where
  "as_i64 n = (if n < 2 ^ 63 then int n else int n - 2 ^ 64)"

definition add_i64 :: "int \<Rightarrow> int \<Rightarrow> ('e, int) outcome" where
  "add_i64 a b = (if - (2 ^ 63) \<le> a + b \<and> a + b < 2 ^ 63 then Ok (a + b) else Panic)"

fun seek_target :: "vhdx_reader \<Rightarrow> seek_from \<Rightarrow> int io_result" where
  "seek_target r (SeekStart n) = Ok (as_i64 n)"
| "seek_target r (SeekCurrent n) = add_i64 (as_i64 (r_pos r)) n"
| "seek_target r (SeekEnd n) = add_i64 (as_i64 (unat (virtual_disk_size (r_meta r)))) n"

definition seek :: "vhdx_reader \<Rightarrow> seek_from \<Rightarrow> nat io_result \<times> vhdx_reader" where
  "seek r p =
     (case seek_target r p of
        Panic \<Rightarrow> (Panic, r)
      | Err e \<Rightarrow> (Err e, r)
      | Ok new_pos \<Rightarrow>
          if new_pos < 0 then (Err (IoError InvalidInput ''seek before start''), r)
          else (Ok (nat new_pos), set_pos (nat new_pos) r))"

subsection \<open>Reading\<close>

type_synonym reading = "bytes io_result \<times> vhdx_reader"

definition read_file_chunk :: "vhdx_reader \<Rightarrow> nat \<Rightarrow> nat \<Rightarrow> bytes io_result" where
  "read_file_chunk r n file_offset =
     and_then (read_at (r_backing r) n file_offset) (\<lambda>dst.
     if length dst < n then Err (IoError UnexpectedEof ''VHDX data truncated'')
     else patch (r_overlay r) dst file_offset)"

text \<open>
  \<open>Read::read_exact\<close> of the standard library over a read operation \<open>rd\<close>: it reads until
  the buffer is full and fails when a read returns nothing. (It also repeats a read that is
  interrupted. Only a boxed reader lets an interruption through, and one that interrupts a read here
  interrupts every repetition of it: the loop that would not end is replaced by the error.)
\<close>

function read_exact :: "(vhdx_reader \<Rightarrow> nat \<Rightarrow> reading) \<Rightarrow> vhdx_reader \<Rightarrow> nat \<Rightarrow> reading" where
  "read_exact rd r n =
     (if n = 0 then (Ok [], r)
      else
        (case rd r n of
           (Panic, r') \<Rightarrow> (Panic, r')
         | (Err e, r') \<Rightarrow> (Err e, r')
         | (Ok bs, r') \<Rightarrow>
             if bs = [] then (Err (IoError UnexpectedEof ''failed to fill whole buffer''), r')
             else if length bs > n then (Panic, r')
             else
               (case read_exact rd r' (n - length bs) of
                  (res, r'') \<Rightarrow> (map_ok (\<lambda>cs. bs @ cs) res, r''))))"
  by pat_completeness auto
termination
  by (relation "measure (\<lambda>(rd, r, n). n)") auto

declare read_exact.simps [simp del]

definition read_parent_chunk ::
  "(vhdx_reader \<Rightarrow> nat \<Rightarrow> reading) \<Rightarrow> vhdx_reader \<Rightarrow> nat \<Rightarrow> nat \<Rightarrow> reading" where
  "read_parent_chunk rd r n virtual_byte =
     (case r_parent r of
        Some parent \<Rightarrow>
          (case seek parent (SeekStart virtual_byte) of
             (Panic, p') \<Rightarrow> (Panic, set_parent p' r)
           | (Err e, p') \<Rightarrow> (Err (IoError Other (io_message e)), set_parent p' r)
           | (Ok _, p') \<Rightarrow>
               (case read_exact rd p' n of (res, p'') \<Rightarrow> (res, set_parent p'' r)))
      | None \<Rightarrow> (Ok (replicate n 0), r))"

text \<open>Where one iteration of the loop in \<open>read\<close> takes its bytes from, and how many.\<close>

datatype chunk = FromFile nat nat | FromParent nat | FromZero nat

fun chunk_size :: "chunk \<Rightarrow> nat" where
  "chunk_size (FromFile off n) = n"
| "chunk_size (FromParent n) = n"
| "chunk_size (FromZero n) = n"

definition owner_bit :: "u8 \<Rightarrow> nat \<Rightarrow> bool" where
  "owner_bit byte k = (byte AND push_bit k 1 \<noteq> 0)"

definition run_sectors :: "u8 \<Rightarrow> nat \<Rightarrow> nat" where
  "run_sectors byte k =
     1 + length (takeWhile (\<lambda>j. owner_bit byte j = owner_bit byte k) [k + 1..<8])"

definition partial_chunk ::
  "vhdx_reader \<Rightarrow> nat \<Rightarrow> nat \<Rightarrow> nat \<Rightarrow> nat \<Rightarrow> nat \<Rightarrow> chunk io_result" where
  "partial_chunk r virtual_byte this_chunk file_offset bitmap_offset bitmap_bit =
     and_then (read_at (r_backing r) 1 bitmap_offset) (\<lambda>raw.
     if length raw < 1 then Err (IoError UnexpectedEof ''VHDX sector bitmap truncated'')
     else
       and_then (patch (r_overlay r) raw bitmap_offset) (\<lambda>bitmap.
       let byte = bitmap ! 0; lss = unat (logical_sector_size (r_meta r)) in
       and_then (div_u virtual_byte lss) (\<lambda>sector.
       and_then (add_u sector (run_sectors byte bitmap_bit)) (\<lambda>end_sector.
       and_then (mul_u end_sector lss) (\<lambda>run_end.
       and_then (sub_u run_end virtual_byte) (\<lambda>run_left.
       let n = min this_chunk run_left in
       Ok (if owner_bit byte bitmap_bit then FromFile file_offset n else FromParent n)))))))"

definition plan_chunk :: "vhdx_reader \<Rightarrow> nat \<Rightarrow> nat \<Rightarrow> chunk io_result" where
  "plan_chunk r virtual_byte want =
     (let blk_size = unat (block_size (r_meta r)) in
      and_then (div_u virtual_byte blk_size) (\<lambda>blk.
      and_then (add_u blk 1) (\<lambda>next_blk.
      and_then (mul_u next_blk blk_size) (\<lambda>block_end.
      and_then (sub_u block_end virtual_byte) (\<lambda>left.
      let this_chunk = min want left in
      and_then (map_err (\<lambda>e. IoError Other (error_message e))
                 (read_target_for_byte (r_bat r) virtual_byte)) (\<lambda>target.
      (case target of
         File file_offset \<Rightarrow> Ok (FromFile file_offset this_chunk)
       | Parent \<Rightarrow> Ok (FromParent this_chunk)
       | Zero \<Rightarrow> Ok (FromZero this_chunk)
       | Partial file_offset bitmap_offset bitmap_bit \<Rightarrow>
           partial_chunk r virtual_byte this_chunk file_offset bitmap_offset bitmap_bit)))))))"

fun serve_chunk ::
  "(vhdx_reader \<Rightarrow> nat \<Rightarrow> reading) \<Rightarrow> vhdx_reader \<Rightarrow> nat \<Rightarrow> chunk \<Rightarrow> reading" where
  "serve_chunk rd r virtual_byte (FromFile file_offset n) = (read_file_chunk r n file_offset, r)"
| "serve_chunk rd r virtual_byte (FromParent n) = read_parent_chunk rd r n virtual_byte"
| "serve_chunk rd r virtual_byte (FromZero n) = (Ok (replicate n 0), r)"

text \<open>Every planned chunk makes progress, which is why the loop ends.\<close>

lemma block_left_pos: "0 < b \<Longrightarrow> v < (v div b + 1) * (b :: nat)"
  by (metis dividend_less_div_times mult.commute add.commute mult_Suc plus_1_eq_Suc add_mult_distrib2
      mult.right_neutral)

lemma run_left_pos:
  assumes "s \<noteq> 0"
  shows "v < (v div s + run_sectors byte k) * s"
proof -
  have "v < (v div s + 1) * s" using assms by (intro block_left_pos) simp
  also have "\<dots> \<le> (v div s + run_sectors byte k) * s"
    by (intro mult_le_mono1) (simp add: run_sectors_def)
  finally show ?thesis .
qed

lemma partial_chunk_size:
  assumes "partial_chunk r v this_chunk pos bpos k = Ok c" and "0 < this_chunk"
  shows "0 < chunk_size c \<and> chunk_size c \<le> this_chunk"
proof -
  define s where "s = unat (logical_sector_size (r_meta r))"
  obtain byte where s: "s \<noteq> 0"
    and c: "chunk_size c = min this_chunk ((v div s + run_sectors byte k) * s - v)"
    using assms(1) unfolding partial_chunk_def s_def
    by (auto simp: and_then_Ok_iff Let_def split: if_splits)
  define n where "n = min this_chunk ((v div s + run_sectors byte k) * s - v)"
  have "0 < n" "n \<le> this_chunk"
    using run_left_pos [OF s, of v byte k] assms(2) by (simp_all add: n_def)
  then show ?thesis unfolding c n_def by simp
qed

lemma plan_chunk_size:
  assumes "plan_chunk r v want = Ok c" and "0 < want"
  shows "0 < chunk_size c" and "chunk_size c \<le> want"
proof -
  define blk where "blk = unat (block_size (r_meta r))"
  define n where "n = min want ((v div blk + 1) * blk - v)"
  obtain t where blk: "blk \<noteq> 0" and c: "(case t of
         File file_offset \<Rightarrow> Ok (FromFile file_offset n)
       | Parent \<Rightarrow> Ok (FromParent n)
       | Zero \<Rightarrow> Ok (FromZero n)
       | Partial file_offset bitmap_offset bitmap_bit \<Rightarrow>
           partial_chunk r v n file_offset bitmap_offset bitmap_bit) = Ok c"
    using assms(1) unfolding plan_chunk_def n_def blk_def
    by (auto simp: and_then_Ok_iff Let_def simp del: One_nat_def)
  have n: "0 < n" "n \<le> want"
    using block_left_pos [of blk v] assms(2) blk by (simp_all add: n_def)
  have "0 < chunk_size c \<and> chunk_size c \<le> n"
  proof (cases t)
    case (Partial x y z)
    then show ?thesis using c n partial_chunk_size [of r v n x y z c] by simp
  qed (use c n in auto)
  then show "0 < chunk_size c" "chunk_size c \<le> want" using n by simp_all
qed

function read_loop ::
  "(vhdx_reader \<Rightarrow> nat \<Rightarrow> reading) \<Rightarrow> vhdx_reader \<Rightarrow> nat \<Rightarrow> nat \<Rightarrow> reading" where
  "read_loop rd r virtual_byte want =
     (if want = 0 then (Ok [], r)
      else
        (case plan_chunk r virtual_byte want of
           Panic \<Rightarrow> (Panic, r)
         | Err e \<Rightarrow> (Err e, r)
         | Ok c \<Rightarrow>
             (case serve_chunk rd r virtual_byte c of
                (Panic, r') \<Rightarrow> (Panic, r')
              | (Err e, r') \<Rightarrow> (Err e, r')
              | (Ok bs, r') \<Rightarrow>
                  (case read_loop rd r' (virtual_byte + chunk_size c) (want - chunk_size c) of
                     (res, r'') \<Rightarrow> (map_ok (\<lambda>cs. bs @ cs) res, r'')))))"
  by pat_completeness auto
termination
  by (relation "measure (\<lambda>(rd, r, v, want). want)") (auto dest: plan_chunk_size)

declare read_loop.simps [simp del]

text \<open>
  \<open>Read::read\<close>, for a given way \<open>rd\<close> to read the parent. The outcome is the part of the
  buffer that was filled; on an error the cursor stays where it was.
\<close>

definition read_step :: "(vhdx_reader \<Rightarrow> nat \<Rightarrow> reading) \<Rightarrow> vhdx_reader \<Rightarrow> nat \<Rightarrow> reading" where
  "read_step rd r buf_len =
     (let disk = unat (virtual_disk_size (r_meta r)) in
      if r_pos r \<ge> disk then (Ok [], r)
      else
        let to_read = min buf_len (disk - r_pos r) in
        (case read_loop rd r (r_pos r) to_read of
           (Ok bs, r') \<Rightarrow> (Ok bs, set_pos (r_pos r' + to_read) r')
         | (res, r') \<Rightarrow> (res, r')))"

text \<open>The parents are read the same way; \<open>depth\<close> is the length of their chain.\<close>

fun depth :: "vhdx_reader \<Rightarrow> nat" where
  "depth (VhdxReader b ov bt m pos p) = (case p of None \<Rightarrow> 0 | Some q \<Rightarrow> Suc (depth q))"

primrec read_to_depth :: "nat \<Rightarrow> vhdx_reader \<Rightarrow> nat \<Rightarrow> reading" where
  "read_to_depth 0 = read_step (\<lambda>p n. (Panic, p))"
| "read_to_depth (Suc k) = read_step (read_to_depth k)"

definition read :: "vhdx_reader \<Rightarrow> nat \<Rightarrow> reading" where
  "read r buf_len = read_to_depth (depth r) r buf_len"

end
