(* ===== verification/Disk.thy ===== *)
theory Disk
  imports Reader
begin

text \<open>
  What the reader of \<open>core/src/reader.rs\<close> promises: a virtual disk is a function from
  byte positions to bytes, and \<open>read\<close>, whatever its buffer, block, sector-run and parent
  boundaries, delivers that function's values in order, or its first error.
\<close>

subsection \<open>Collecting outcomes in order\<close>

fun collect :: "('e, 'a) outcome list \<Rightarrow> ('e, 'a list) outcome" where
  "collect [] = Ok []"
| "collect (m # ms) = and_then m (\<lambda>x. map_ok ((#) x) (collect ms))"

lemma collect_append:
  "collect (xs @ ys) = and_then (collect xs) (\<lambda>as. map_ok (\<lambda>bs. as @ bs) (collect ys))"
proof (induction xs)
  case Nil
  then show ?case by (cases "collect ys") auto
next
  case (Cons x xs)
  then show ?case by (cases x; cases "collect xs"; cases "collect ys") auto
qed

lemma collect_Ok [simp]: "collect (map (\<lambda>i. Ok (f i)) xs) = Ok (map f xs)"
  by (induction xs) auto

lemma length_collect: "collect ms = Ok xs \<Longrightarrow> length xs = length ms"
  by (induction ms arbitrary: xs) (auto simp: and_then_Ok_iff)

lemma collect_not_Panic: "(\<And>m. m \<in> set ms \<Longrightarrow> m \<noteq> Panic) \<Longrightarrow> collect ms \<noteq> Panic"
  by (induction ms) (auto simp: and_then_Panic_iff)

lemma collect_cong_upt:
  "(\<And>i. i < n \<Longrightarrow> f (v + i) = g i) \<Longrightarrow> collect (map f [v..<v + n]) = collect (map g [0..<n])"
  by (rule arg_cong [where f = collect], rule nth_equalityI) auto

subsection \<open>Virtual disks\<close>

datatype disk = Disk (dk_content: bytes) (dk_bat: bat) (dk_parent: "disk option")

definition disk_meta :: "disk \<Rightarrow> vhdx_metadata" where
  "disk_meta q = bat_meta (dk_bat q)"

definition disk_size :: "disk \<Rightarrow> nat" where
  "disk_size q = disk_bytes (disk_meta q)"

definition data_truncated :: io_error where
  "data_truncated = IoError UnexpectedEof ''VHDX data truncated''"

definition bitmap_truncated :: io_error where
  "bitmap_truncated = IoError UnexpectedEof ''VHDX sector bitmap truncated''"

definition not_filled :: io_error where
  "not_filled = IoError UnexpectedEof ''failed to fill whole buffer''"

definition file_byte :: "bytes \<Rightarrow> nat \<Rightarrow> u8 io_result" where
  "file_byte c off = (if off < length c then Ok (c ! off) else Err data_truncated)"

text \<open>The byte at position \<open>v\<close>: absent ones come from the parent, or are zero.\<close>

fun disk_byte :: "disk \<Rightarrow> nat \<Rightarrow> u8 io_result" where
  "disk_byte (Disk c bt q) v =
     (let from_parent =
            (case q of
               None \<Rightarrow> Ok 0
             | Some p \<Rightarrow> if v < disk_size p then disk_byte p v else Err not_filled)
      in
      case bat_lookup bt v of
        Panic \<Rightarrow> Panic
      | Err e \<Rightarrow> Err (IoError Other (error_message e))
      | Ok Zero \<Rightarrow> Ok 0
      | Ok Parent \<Rightarrow> from_parent
      | Ok (File off) \<Rightarrow> file_byte c off
      | Ok (Partial off boff k) \<Rightarrow>
          if boff < length c
          then if owner_bit (c ! boff) k then file_byte c off else from_parent
          else Err bitmap_truncated)"

definition parent_byte :: "disk option \<Rightarrow> nat \<Rightarrow> u8 io_result" where
  "parent_byte q v =
     (case q of
        None \<Rightarrow> Ok 0
      | Some p \<Rightarrow> if v < disk_size p then disk_byte p v else Err not_filled)"

lemma disk_byte_eq:
  "disk_byte (Disk c bt q) v =
     (case bat_lookup bt v of
        Panic \<Rightarrow> Panic
      | Err e \<Rightarrow> Err (IoError Other (error_message e))
      | Ok Zero \<Rightarrow> Ok 0
      | Ok Parent \<Rightarrow> parent_byte q v
      | Ok (File off) \<Rightarrow> file_byte c off
      | Ok (Partial off boff k) \<Rightarrow>
          if boff < length c
          then if owner_bit (c ! boff) k then file_byte c off else parent_byte q v
          else Err bitmap_truncated)"
  unfolding disk_byte.simps Let_def parent_byte_def by (rule refl)

declare disk_byte.simps [simp del]

text \<open>What a read of \<open>n\<close> bytes at a position delivers.\<close>

definition disk_read :: "disk \<Rightarrow> nat \<Rightarrow> nat \<Rightarrow> bytes io_result" where
  "disk_read q pos n = collect (map (disk_byte q) [pos..<pos + min n (disk_size q - pos)])"

fun disk_depth :: "disk \<Rightarrow> nat" where
  "disk_depth (Disk c bt q) = (case q of None \<Rightarrow> 0 | Some p \<Rightarrow> Suc (disk_depth p))"

text \<open>A reader over a disk: its backing with the log laid over it holds the content.\<close>

fun represents :: "vhdx_reader \<Rightarrow> disk \<Rightarrow> bool" where
  "represents (VhdxReader b ov bt m pos p) (Disk c bt' q) =
     ((\<exists>d. faithful_backing b d \<and> length d < 2 ^ 63 \<and> c = committed ov d)
      \<and> bt' = bt \<and> bat_meta bt = m \<and> metadata_ok m
      \<and> (case p of
           None \<Rightarrow> q = None
         | Some p' \<Rightarrow> (case q of None \<Rightarrow> False | Some q' \<Rightarrow> represents p' q')))"

subsection \<open>Neighbouring bytes\<close>

lemma run_sectors_le: "k < 8 \<Longrightarrow> k + run_sectors byte k \<le> 8"
proof -
  assume k: "k < 8"
  have "length (takeWhile (\<lambda>j. owner_bit byte j = owner_bit byte k) [k + 1..<8]) \<le> length [k + 1..<8]"
    by (rule length_takeWhile_le)
  with k show ?thesis by (simp add: run_sectors_def)
qed

lemma run_sectors_same:
  assumes k: "k < 8" and j: "j < run_sectors byte k"
  shows "k + j < 8" and "owner_bit byte (k + j) = owner_bit byte k"
proof -
  show "k + j < 8" using run_sectors_le [OF k, of byte] j by linarith
  show "owner_bit byte (k + j) = owner_bit byte k"
  proof (cases j)
    case (Suc i)
    let ?P = "\<lambda>j. owner_bit byte j = owner_bit byte k"
    have i: "i < length (takeWhile ?P [k + 1..<8])" using j Suc by (simp add: run_sectors_def)
    have "i < length [k + 1..<8]" using i length_takeWhile_le [of ?P "[k + 1..<8]"] by (rule less_le_trans)
    then have "[k + 1..<8] ! i = k + j" using Suc by simp
    moreover have "?P (takeWhile ?P [k + 1..<8] ! i)"
      using nth_mem [OF i] by (rule set_takeWhileD [THEN conjunct2])
    ultimately show ?thesis using takeWhile_nth [OF i] by simp
  qed simp
qed

lemma same_quotient:
  assumes "v + i < (v div b + n) * (b :: nat)" and "0 < b"
  shows "(v + i) div b < v div b + n"
  using assms by (simp add: less_mult_imp_div_less)

lemma same_block:
  assumes "v + i < (v div b + 1) * (b :: nat)" and "0 < b"
  shows "(v + i) div b = v div b" and "(v + i) mod b = v mod b + i"
proof -
  have "(v + i) div b < v div b + 1" using assms by (rule same_quotient)
  moreover have "v div b \<le> (v + i) div b" by (intro div_le_mono) simp
  ultimately show eq: "(v + i) div b = v div b" by linarith
  have "b * (v div b) + v mod b = v" "b * (v div b) + (v + i) mod b = v + i"
    using mult_div_mod_eq [of b v] mult_div_mod_eq [of b "v + i"] by (simp_all add: eq)
  then show "(v + i) mod b = v mod b + i" by linarith
qed

lemma sector_bits:
  fixes x j :: nat
  assumes "x mod 8 + j < 8"
  shows "(x + j) mod 2 ^ 23 div 8 = x mod 2 ^ 23 div 8"
    and "(x + j) mod 2 ^ 23 mod 8 = x mod 2 ^ 23 mod 8 + j"
proof -
  have split: "y mod 2 ^ 23 = 8 * (y div 8 mod 2 ^ 20) + y mod 8" for y :: nat
    using mod_mult2_eq [of y 8 "2 ^ 20"] by simp
  have "x + j < (x div 8 + 1) * 8" using assms by presburger
  from same_block [OF this] have same: "(x + j) div 8 = x div 8" "(x + j) mod 8 = x mod 8 + j"
    by simp_all
  show "(x + j) mod 2 ^ 23 div 8 = x mod 2 ^ 23 div 8"
    "(x + j) mod 2 ^ 23 mod 8 = x mod 2 ^ 23 mod 8 + j"
    unfolding split [of x] split [of "x + j"] using same assms by (simp_all add: mod_mod_trivial)
qed

text \<open>Where a lookup leads, so do the lookups of the following bytes of the block.\<close>

lemma lookup_shift:
  fixes bt :: bat and v i :: nat
  defines "m \<equiv> bat_meta bt"
  assumes blk: "v + i < (v div block_bytes m + 1) * block_bytes m" and pos: "0 < block_bytes m"
  shows "bat_lookup bt v = Ok Zero \<Longrightarrow> bat_lookup bt (v + i) = Ok Zero"
    and "bat_lookup bt v = Ok Parent \<Longrightarrow> bat_lookup bt (v + i) = Ok Parent"
    and "bat_lookup bt v = Ok (File off) \<Longrightarrow> off + i < 2 ^ 64 \<Longrightarrow>
         bat_lookup bt (v + i) = Ok (File (off + i))"
    and "bat_lookup bt v = Ok (Partial off boff k) \<Longrightarrow> off + i < 2 ^ 64 \<Longrightarrow>
         (v + i) div sector_bytes m = v div sector_bytes m + j \<Longrightarrow> k + j < 8 \<Longrightarrow>
         bat_lookup bt (v + i) = Ok (Partial (off + i) boff (k + j))"
proof -
  note same = same_block [OF blk pos]
  show "bat_lookup bt v = Ok Zero \<Longrightarrow> bat_lookup bt (v + i) = Ok Zero"
    "bat_lookup bt v = Ok Parent \<Longrightarrow> bat_lookup bt (v + i) = Ok Parent"
    "bat_lookup bt v = Ok (File off) \<Longrightarrow> off + i < 2 ^ 64 \<Longrightarrow>
         bat_lookup bt (v + i) = Ok (File (off + i))"
    unfolding bat_lookup_def m_def [symmetric] Let_def same
    by (auto split: option.splits if_splits)
  assume h: "bat_lookup bt v = Ok (Partial off boff k)" "off + i < 2 ^ 64"
    "(v + i) div sector_bytes m = v div sector_bytes m + j" "k + j < 8"
  have k: "v div sector_bytes m mod 2 ^ 23 mod 8 = k"
    using h(1) unfolding bat_lookup_def m_def [symmetric] Let_def
    by (auto split: option.splits if_splits)
  have "k = v div sector_bytes m mod 8"
    unfolding k [symmetric] by (rule mod_mod_cancel) simp
  then have bits: "(v div sector_bytes m + j) mod 2 ^ 23 div 8 = v div sector_bytes m mod 2 ^ 23 div 8"
    "(v div sector_bytes m + j) mod 2 ^ 23 mod 8 = k + j"
    using sector_bits [of "v div sector_bytes m" j] h(4) k by simp_all
  show "bat_lookup bt (v + i) = Ok (Partial (off + i) boff (k + j))"
    using h(1,2) unfolding bat_lookup_def m_def [symmetric] Let_def same h(3) bits
    by (auto split: option.splits if_splits)
qed

lemma lookup_bounds:
  assumes "bat_lookup bt v = Ok (Partial off boff k)"
  shows "off < 2 ^ 64" and "boff < 2 ^ 64" and "k < 8"
proof -
  have b: "entry_offset_mb e * MIB + s mod 2 ^ 23 div 8 < 2 ^ 64" for e and s :: nat
    using entry_offset_mb_bound [of e] by (simp add: MIB_def)
  show "off < 2 ^ 64" "boff < 2 ^ 64" "k < 8"
    using assms b unfolding bat_lookup_def Let_def
    by (auto split: option.splits if_splits)
qed

lemma lookup_bound_file: "bat_lookup bt v = Ok (File off) \<Longrightarrow> off < 2 ^ 64"
  unfolding bat_lookup_def Let_def by (auto split: option.splits if_splits)

lemma lookup_not_Panic: "bat_lookup bt v \<noteq> Panic"
  unfolding bat_lookup_def Let_def by (auto split: option.splits)

subsection \<open>One piece of a read\<close>

lemma represents_set_pos [simp]: "represents (set_pos x r) q = represents r q"
  by (cases r; cases q) simp

lemma r_pos_set [simp]: "r_pos (set_pos x r) = x" "r_pos (set_parent p r) = r_pos r"
  by (cases r; simp)+

lemma representsE:
  assumes "represents r q"
  obtains d where "faithful_backing (r_backing r) d" "length d < 2 ^ 63"
    "dk_content q = committed (r_overlay r) d" "dk_bat q = r_bat r" "bat_meta (r_bat r) = r_meta r"
    "metadata_ok (r_meta r)"
  using assms by (cases r; cases q) auto

lemma represents_meta: "represents r q \<Longrightarrow> disk_meta q = r_meta r"
  by (elim representsE) (simp add: disk_meta_def)

lemma represents_parent:
  assumes "represents r q"
  shows "r_parent r = None \<and> dk_parent q = None
    \<or> (\<exists>p p'. r_parent r = Some p \<and> dk_parent q = Some p' \<and> represents p p')"
  using assms by (cases r; cases q) (auto split: option.splits)

lemma represents_set_parent:
  "represents r q \<Longrightarrow> dk_parent q = Some p' \<Longrightarrow> represents p p' \<Longrightarrow> represents (set_parent p r) q"
  by (cases r; cases q) (auto split: option.splits)

lemma disk_depth_parent: "dk_parent q = Some p \<Longrightarrow> disk_depth q = Suc (disk_depth p)"
  by (cases q) simp

lemma collect_file_bytes:
  assumes "0 < n"
  shows "collect (map (\<lambda>i. file_byte c (off + i)) [0..<n])
       = (if off + n \<le> length c then Ok (window c off n) else Err data_truncated)"
proof (cases "off + n \<le> length c")
  case True
  have "map (\<lambda>i. file_byte c (off + i)) [0..<n] = map (\<lambda>i. Ok (c ! (off + i))) [0..<n]"
    using True by (intro map_cong) (auto simp: file_byte_def)
  moreover have "map (\<lambda>i. c ! (off + i)) [0..<n] = window c off n"
    using True by (intro nth_equalityI) auto
  ultimately show ?thesis using True by (simp only: collect_Ok if_True)
next
  case False
  define m where "m = length c - off"
  have m: "m < n" using False assms by (auto simp: m_def)
  then have split: "[0..<n] = [0..<m] @ m # [Suc m..<n]"
    using upt_add_eq_append [of 0 m "n - m"] upt_conv_Cons [of m n] by simp
  have front: "map (\<lambda>i. file_byte c (off + i)) [0..<m] = map (\<lambda>i. Ok (c ! (off + i))) [0..<m]"
    by (intro map_cong) (auto simp: file_byte_def m_def)
  have "file_byte c (off + m) = Err data_truncated"
    by (simp add: file_byte_def m_def)
  then show ?thesis
    unfolding split map_append collect_append front using False by simp
qed

lemma collect_first_Err:
  "0 < n \<Longrightarrow> f v = Err e \<Longrightarrow> collect (map f [v..<v + n]) = Err e"
  by (simp add: upt_conv_Cons)

lemma collect_split:
  "collect (map f [v..<v + (m + n)])
     = and_then (collect (map f [v..<v + m])) (\<lambda>as. map_ok (\<lambda>bs. as @ bs) (collect (map f [v + m..<v + m + n])))"
proof -
  have "[v..<v + (m + n)] = [v..<v + m] @ [v + m..<v + m + n]"
    using upt_add_eq_append [of v "v + m" n] by (simp add: add.assoc)
  then show ?thesis by (simp only: map_append collect_append)
qed

lemma read_file_chunk_eval:
  assumes "represents r q" and "off < 2 ^ 64" and "0 < n"
  shows "read_file_chunk r n off = collect (map (\<lambda>i. file_byte (dk_content q) (off + i)) [0..<n])"
proof -
  from assms(1) obtain d where d: "faithful_backing (r_backing r) d" "length d < 2 ^ 63"
    "dk_content q = committed (r_overlay r) d" by (rule representsE)
  have rd: "read_at (r_backing r) n off = Ok (window d off n)"
    using d(1) assms(2) by (rule faithful_backing.read_content)
  show ?thesis
  proof (cases "off + n \<le> length d")
    case True
    then show ?thesis
      using d(3) patch_window [OF True d(2)]
      by (simp add: read_file_chunk_def rd collect_file_bytes [OF assms(3)])
  next
    case False
    then have "length (window d off n) < n" using assms(3) by auto
    then show ?thesis
      using d(3) False
      by (simp add: read_file_chunk_def rd collect_file_bytes [OF assms(3)] data_truncated_def)
  qed
qed

lemma partial_chunk_eval:
  assumes "represents r q" and "boff < 2 ^ 64" and k: "k < 8" and v: "v < 2 ^ 63"
  defines "s \<equiv> sector_bytes (r_meta r)"
  shows "partial_chunk r v n off boff k =
    (if boff < length (dk_content q)
     then let byte = dk_content q ! boff;
              n' = min n ((v div s + run_sectors byte k) * s - v)
          in Ok (if owner_bit byte k then FromFile off n' else FromParent n')
     else Err bitmap_truncated)"
proof -
  from assms(1) obtain d where d: "faithful_backing (r_backing r) d" "length d < 2 ^ 63"
    "dk_content q = committed (r_overlay r) d" "metadata_ok (r_meta r)" by (rule representsE)
  have rd: "read_at (r_backing r) 1 boff = Ok (window d boff 1)"
    using d(1) assms(2) by (rule faithful_backing.read_content)
  show ?thesis
  proof (cases "boff + 1 \<le> length d")
    case True
    have pw: "patch (r_overlay r) (window d boff 1) boff = Ok (window (dk_content q) boff 1)"
      using patch_window [OF True d(2)] d(3) by simp
    have byte: "window (dk_content q) boff 1 ! 0 = dk_content q ! boff"
      using True d(3) by simp
    define c where "c = run_sectors (dk_content q ! boff) k"
    have s: "s \<noteq> 0" "s \<le> 4096" using geometry(9,10) [OF d(4)] unfolding s_def by linarith+
    have c: "c \<le> 8" using run_sectors_le [OF k, of "dk_content q ! boff"] by (simp add: c_def)
    have cs: "c * s \<le> 8 * 4096" using c s(2) by (rule mult_le_mono)
    have "(v div s + c) * s \<le> v + c * s" by (simp add: add_mult_distrib)
    then have m: "(v div s + c) * s < 2 ^ 64" by (rule le_less_trans) (use v cs in simp)
    have a: "v div s + c < 2 ^ 64" by (rule le_less_trans [of _ "v + c"]) (use v c in simp_all)
    have le: "v \<le> (v div s + c) * s"
      unfolding c_def using s(1) by (intro less_imp_le run_left_pos)
    have len: "\<not> length (window d boff 1) < 1" using True by simp
    have lss: "unat (logical_sector_size (r_meta r)) = s" by (simp add: s_def sector_bytes_def)
    have inside: "boff < length (dk_content q)" using True d(3) by simp
    show ?thesis
      unfolding partial_chunk_def rd and_then.simps if_not_P [OF len] pw Let_def byte lss
        c_def [symmetric] arith_u_eval(4) [OF s(1)] arith_u_eval(1) [OF a]
        arith_u_eval(2) [OF m] arith_u_eval(3) [OF le] if_P [OF inside] by (rule refl)
  next
    case False
    then have short: "length (window d boff 1) < 1" and outside: "\<not> boff < length (dk_content q)"
      using d(3) by simp_all
    show ?thesis
      unfolding partial_chunk_def rd and_then.simps if_P [OF short] if_not_P [OF outside]
        bitmap_truncated_def by (rule refl)
  qed
qed

lemma plan_chunk_eval:
  assumes "represents r q" and v: "v < disk_size q"
  defines "b \<equiv> block_bytes (r_meta r)"
  shows "plan_chunk r v want =
    and_then (map_err (\<lambda>e. IoError Other (error_message e)) (bat_lookup (r_bat r) v)) (\<lambda>target.
    let n = min want ((v div b + 1) * b - v) in
    (case target of
         File off \<Rightarrow> Ok (FromFile off n)
       | Parent \<Rightarrow> Ok (FromParent n)
       | Zero \<Rightarrow> Ok (FromZero n)
       | Partial off boff k \<Rightarrow> partial_chunk r v n off boff k))"
proof -
  from assms(1) obtain d where d: "bat_meta (r_bat r) = r_meta r" "metadata_ok (r_meta r)"
    by (rule representsE)
  have dv: "v < disk_bytes (r_meta r)" using v represents_meta [OF assms(1)] by (simp add: disk_size_def)
  have lookup: "read_target_for_byte (r_bat r) v = bat_lookup (r_bat r) v"
    using d dv by (intro read_target_eval) simp_all
  have v46: "v < 2 ^ 46" using dv geometry(11) [OF d(2)] by linarith
  have b: "b \<noteq> 0" "b \<le> 2 ^ 28" using geometry(7,8) [OF d(2)] unfolding b_def by linarith+
  have a: "v div b + 1 < 2 ^ 64" by (rule le_less_trans [of _ "v + 1"]) (use v46 in simp_all)
  have "(v div b + 1) * b \<le> v + b" by (simp add: add_mult_distrib)
  then have m: "(v div b + 1) * b < 2 ^ 64"
    by (rule le_less_trans) (use v46 b(2) in simp)
  have le: "v \<le> (v div b + 1) * b" using b(1) by (intro less_imp_le block_left_pos) simp
  show ?thesis
    unfolding plan_chunk_def lookup Let_def b_def [unfolded block_bytes_def, symmetric]
    by (simp only: arith_u_eval(4) [OF b(1)] arith_u_eval(1) [OF a] arith_u_eval(2) [OF m]
        arith_u_eval(3) [OF le] and_then.simps)
qed

lemma content_small: "represents r q \<Longrightarrow> length (dk_content q) < 2 ^ 63"
  by (elim representsE) simp

lemma serve_file:
  assumes "represents r q" and off: "off < 2 ^ 64" and n: "0 < n" "n \<le> 2 ^ 62"
    and bytes: "\<And>i. i < n \<Longrightarrow> off + i < 2 ^ 64 \<Longrightarrow> disk_byte q (v + i) = file_byte (dk_content q) (off + i)"
  shows "read_file_chunk r n off = collect (map (disk_byte q) [v..<v + n])"
proof (cases "off < length (dk_content q)")
  case True
  have "off + i < 2 ^ 64" if "i < n" for i
    using that True content_small [OF assms(1)] n(2) by simp
  then show ?thesis
    unfolding read_file_chunk_eval [OF assms(1) off n(1)]
    by (intro collect_cong_upt [symmetric] bytes)
next
  case False
  then have "disk_byte q v = Err data_truncated"
    using bytes [of 0] n(1) off by (simp add: file_byte_def)
  moreover have "\<not> off + n \<le> length (dk_content q)" using False n(1) by linarith
  ultimately show ?thesis
    unfolding read_file_chunk_eval [OF assms(1) off n(1)] collect_file_bytes [OF n(1)]
    by (simp add: collect_first_Err [OF n(1)])
qed

text \<open>
  The sectors of one bitmap byte form an aligned group, so the address of no byte of a run
  overflows when that of the first does not.
\<close>

lemma run_address:
  assumes ok: "metadata_ok (bat_meta bt)" and lk: "bat_lookup bt v = Ok (Partial off boff k)"
    and j: "(v + i) div sector_bytes (bat_meta bt) = v div sector_bytes (bat_meta bt) + j" "k + j < 8"
  shows "off + i < 2 ^ 64"
proof -
  define s where "s = sector_bytes (bat_meta bt)"
  define g where "g = s * 8"
  obtain e l where e: "e \<in> {20..28}" "l \<in> {9, 12}" "block_bytes (bat_meta bt) = 2 ^ e" "s = 2 ^ l"
    using ok unfolding s_def by (rule metadata_okE)
  have g: "g = 2 ^ (l + 3)" by (simp add: g_def e(4) power_add)
  have gd: "g dvd 2 ^ 20" "g dvd 2 ^ e" "g dvd 2 ^ 64" "0 < g" "0 < s"
    unfolding g e(4) using e(1,2) by (auto intro!: le_imp_power_dvd)
  obtain mb where off: "off = mb * 2 ^ 20 + v mod 2 ^ e" "off < 2 ^ 64"
    and k: "k = v div s mod 2 ^ 23 mod 8"
    using lk unfolding bat_lookup_def Let_def e(3) s_def [symmetric] MIB_def
    by (auto split: option.splits if_splits)
  have k8: "k = v div s mod 8" unfolding k by (rule mod_mod_cancel) simp
  have "g dvd mb * 2 ^ 20" using gd(1) by (rule dvd_mult)
  then have "off mod g = v mod 2 ^ e mod g"
    unfolding off(1) by (metis mod_add_left_eq add_0 dvd_eq_mod_eq_0)
  also have "\<dots> = v mod g" using gd(2) by (rule mod_mod_cancel)
  also have "\<dots> = s * k + v mod s" unfolding g_def k8 by (rule mod_mult2_eq)
  finally have m: "off mod g = s * k + v mod s" .
  have "s * (v div s) + v mod s = v" by (rule mult_div_mod_eq)
  moreover have "s * (v div s + j) + (v + i) mod s = v + i"
    using mult_div_mod_eq [of s "v + i"] j(1) by (simp only: s_def)
  ultimately have i: "v mod s + i = s * j + (v + i) mod s"
    unfolding add_mult_distrib2 by linarith
  have "(v + i) mod s < s" using gd(5) by simp
  then have "off mod g + i < s * (k + j) + s" using m i by (simp add: add_mult_distrib2)
  also have "\<dots> = s * (k + j + 1)" by simp
  also have "\<dots> \<le> g" unfolding g_def using j(2) by (intro mult_le_mono2) simp
  finally have small: "off mod g + i < g" .
  have "off div g < 2 ^ 64 div g"
    using off(2) gd(3,4) by (metis dvd_div_mult_self less_mult_imp_div_less)
  then have "(off div g + 1) * g \<le> 2 ^ 64 div g * g" by (intro mult_le_mono1) simp
  also have "\<dots> = 2 ^ 64" using gd(3) by (rule dvd_div_mult_self)
  finally have "off div g * g + g \<le> 2 ^ 64" by simp
  moreover have "off div g * g + off mod g = off" by (rule div_mult_mod_eq)
  ultimately show ?thesis using small by linarith
qed

text \<open>The bytes of a run of sectors all come from the side that the bit of its first one names.\<close>

lemma run_bytes:
  assumes ok: "metadata_ok (bat_meta bt)" and lk: "bat_lookup bt v = Ok (Partial off boff k)"
    and k: "k < 8" and bitmap: "boff < length c"
    and inside: "v + i < (v div block_bytes (bat_meta bt) + 1) * block_bytes (bat_meta bt)"
    and run: "v + i < (v div sector_bytes (bat_meta bt) + run_sectors (c ! boff) k) * sector_bytes (bat_meta bt)"
  shows "disk_byte (Disk c bt qp) (v + i) =
    (if owner_bit (c ! boff) k then file_byte c (off + i) else parent_byte qp (v + i))"
proof -
  let ?s = "sector_bytes (bat_meta bt)"
  have s: "0 < ?s" "0 < block_bytes (bat_meta bt)" using geometry(7,9) [OF ok] by simp_all
  have "(v + i) div ?s < v div ?s + run_sectors (c ! boff) k" using run s(1) by (rule same_quotient)
  moreover have "v div ?s \<le> (v + i) div ?s" by (intro div_le_mono) simp
  then obtain j where j: "(v + i) div ?s = v div ?s + j" by (rule less_eqE)
  ultimately have "j < run_sectors (c ! boff) k" by simp
  note same = run_sectors_same [OF k this]
  have fits: "off + i < 2 ^ 64" using run_address [OF ok lk j same(1)] .
  from lookup_shift(4) [OF inside s(2) lk fits j same(1)]
  have "bat_lookup bt (v + i) = Ok (Partial (off + i) boff (k + j))" .
  then show ?thesis using bitmap same(2) by (simp add: disk_byte_eq)
qed

subsection \<open>The law of reading, and the parent that obeys it\<close>

fun advance :: "nat \<Rightarrow> bytes io_result \<Rightarrow> nat" where
  "advance pos (Ok bs) = pos + length bs"
| "advance pos (Err e) = pos"
| "advance pos Panic = pos"

text \<open>
  \<open>rd\<close> reads every disk whose chain of parents is shorter than \<open>k\<close>. The client of this
  contract is one level of \<open>read\<close>; it uses it to read its parent.
\<close>

locale disk_reads =
  fixes rd :: "vhdx_reader \<Rightarrow> nat \<Rightarrow> reading" and k :: nat
  assumes rd_law:
    "represents p q \<Longrightarrow> disk_depth q < k \<Longrightarrow>
     \<exists>p'. rd p n = (disk_read q (r_pos p) n, p') \<and> represents p' q
        \<and> r_pos p' = advance (r_pos p) (disk_read q (r_pos p) n)"
begin

lemma read_exact_law:
  assumes "represents p q" and "disk_depth q < k"
  shows "\<exists>p'. read_exact rd p n
      = (collect (map (parent_byte (Some q)) [r_pos p..<r_pos p + n]), p') \<and> represents p' q"
  using assms
proof (induction n arbitrary: p rule: less_induct)
  case (less n)
  show ?case
  proof (cases "n = 0")
    case True
    then show ?thesis using less.prems by (simp add: read_exact.simps)
  next
    case n: False
    define v where "v = r_pos p"
    define m where "m = min n (disk_size q - v)"
    have m: "m \<le> n" "m = 0 \<longleftrightarrow> disk_size q \<le> v" "v + m \<le> disk_size q \<or> m = 0"
      using n by (auto simp: m_def)
    obtain p' where p': "rd p n = (disk_read q v n, p')" "represents p' q"
      "r_pos p' = advance v (disk_read q v n)"
      using rd_law [OF less.prems] unfolding v_def by blast
    have "map (parent_byte (Some q)) [v..<v + m] = map (disk_byte q) [v..<v + m]"
      using m(3) by (intro map_cong) (auto simp: parent_byte_def)
    then have front: "disk_read q v n = collect (map (parent_byte (Some q)) [v..<v + m])"
      by (simp only: disk_read_def m_def)
    obtain l where l: "n = m + l" using m(1) by (rule less_eqE)
    note split = collect_split [of "parent_byte (Some q)" v m l, folded l front]
    show ?thesis
    proof (cases "disk_read q v n")
      case Panic
      with p' n split show ?thesis by (simp add: read_exact.simps [of rd p n] v_def [symmetric])
    next
      case (Err e)
      with p' n split show ?thesis by (simp add: read_exact.simps [of rd p n] v_def [symmetric])
    next
      case (Ok bs)
      have len: "length bs = m" using length_collect [OF Ok [unfolded front]] by simp
      show ?thesis
      proof (cases "m = 0")
        case True
        then have "parent_byte (Some q) v = Err not_filled"
          using m(2) by (simp add: parent_byte_def)
        then have "collect (map (parent_byte (Some q)) [v..<v + n]) = Err not_filled"
          using n by (intro collect_first_Err) simp_all
        with p' n Ok len True show ?thesis
          by (simp add: read_exact.simps [of rd p n] v_def [symmetric] not_filled_def)
      next
        case False
        have "r_pos p' = v + m" using p'(3) Ok len by simp
        then obtain p'' where p'': "read_exact rd p' l
            = (collect (map (parent_byte (Some q)) [v + m..<v + m + l]), p'')" "represents p'' q"
          using less.IH [of l p'] p'(2) less.prems(2) False l by auto
        have "n - length bs = l" "bs \<noteq> []" "\<not> length bs > n" using len l False by auto
        with p'(1) n Ok p'' split show ?thesis
          by (simp add: read_exact.simps [of rd p n] v_def [symmetric])
      qed
    qed
  qed
qed

lemma read_parent_law:
  assumes r: "represents r q" and depth: "disk_depth q < Suc k" and v: "v < 2 ^ 63"
  shows "\<exists>r'. read_parent_chunk rd r n v
      = (collect (map (parent_byte (dk_parent q)) [v..<v + n]), r') \<and> represents r' q
        \<and> r_pos r' = r_pos r"
  using represents_parent [OF r]
proof
  assume none: "r_parent r = None \<and> dk_parent q = None"
  have "map (parent_byte None) [v..<v + n] = map (\<lambda>i. Ok 0) [v..<v + n]"
    by (simp add: parent_byte_def)
  then have "collect (map (parent_byte None) [v..<v + n]) = Ok (replicate n 0)"
    by (simp only: collect_Ok) (simp add: map_replicate_const)
  with none r show ?thesis by (simp add: read_parent_chunk_def)
next
  assume "\<exists>p p'. r_parent r = Some p \<and> dk_parent q = Some p' \<and> represents p p'"
  then obtain p p' where p: "r_parent r = Some p" "dk_parent q = Some p'" "represents p p'" by blast
  have sk: "seek p (SeekStart v) = (Ok v, set_pos v p)"
    using v by (simp add: seek_def as_i64_def)
  have "represents (set_pos v p) p'" "disk_depth p' < k"
    using p depth disk_depth_parent [OF p(2)] by simp_all
  from read_exact_law [OF this, of n] obtain p'' where
    "read_exact rd (set_pos v p) n = (collect (map (parent_byte (Some p')) [v..<v + n]), p'')"
    "represents p'' p'" by auto
  then show ?thesis
    using p sk represents_set_parent [OF r p(2)] by (simp add: read_parent_chunk_def)
qed

lemma parent_chunk_law:
  assumes "represents r q" and "disk_depth q < Suc k" and "v < 2 ^ 63"
    and "\<And>i. i < l \<Longrightarrow> disk_byte q (v + i) = parent_byte (dk_parent q) (v + i)"
  shows "\<exists>r'. read_parent_chunk rd r l v = (collect (map (disk_byte q) [v..<v + l]), r')
    \<and> represents r' q \<and> r_pos r' = r_pos r"
proof -
  have "map (parent_byte (dk_parent q)) [v..<v + l] = map (disk_byte q) [v..<v + l]"
    by (rule nth_equalityI) (simp_all add: assms(4))
  then show ?thesis using read_parent_law [OF assms(1-3), of l] by (simp only:)
qed

text \<open>What one chunk must satisfy: it is the error of its first byte, or it is served in full.\<close>

definition chunk_served :: "vhdx_reader \<Rightarrow> disk \<Rightarrow> nat \<Rightarrow> chunk io_result \<Rightarrow> bool" where
  "chunk_served r q v m \<longleftrightarrow>
     (\<exists>e. m = Err e \<and> disk_byte q v = Err e)
     \<or> (\<exists>c r'. m = Ok c
          \<and> serve_chunk rd r v c = (collect (map (disk_byte q) [v..<v + chunk_size c]), r')
          \<and> represents r' q \<and> r_pos r' = r_pos r)"

lemma partial_chunk_law:
  assumes r: "represents r (Disk c bt qp)" and depth: "disk_depth (Disk c bt qp) < Suc k"
    and v: "v < 2 ^ 63" and lk: "bat_lookup bt v = Ok (Partial off boff bt_bit)"
    and n: "0 < n" "n \<le> 2 ^ 28" "v + n \<le> (v div block_bytes (bat_meta bt) + 1) * block_bytes (bat_meta bt)"
  shows "chunk_served r (Disk c bt qp) v (partial_chunk r v n off boff bt_bit)"
proof -
  let ?q = "Disk c bt qp" and ?s = "sector_bytes (bat_meta bt)"
  from r have m: "bat_meta bt = r_meta r" "metadata_ok (bat_meta bt)" by (auto elim: representsE)
  note bnd = lookup_bounds [OF lk]
  note pc = partial_chunk_eval [OF r bnd(2,3) v, of n off]
  show ?thesis
  proof (cases "boff < length c")
    case False
    then show ?thesis using lk by (simp add: chunk_served_def pc disk_byte_eq)
  next
    case True
    define run where "run = (v div ?s + run_sectors (c ! boff) bt_bit) * ?s"
    define l where "l = min n (run - v)"
    have "v < run" unfolding run_def using geometry(9) [OF m(2)] by (intro run_left_pos) simp
    then have l: "0 < l" "l \<le> n" "v + l \<le> run" using n(1) unfolding l_def by linarith+
    have owner: "disk_byte ?q (v + i) =
        (if owner_bit (c ! boff) bt_bit then file_byte c (off + i) else parent_byte qp (v + i))"
      if "i < l" for i
      by (rule run_bytes [OF m(2) lk bnd(3) True]) (use that l n(3) in \<open>simp_all add: run_def\<close>)
    have chunk: "partial_chunk r v n off boff bt_bit
        = Ok (if owner_bit (c ! boff) bt_bit then FromFile off l else FromParent l)"
      unfolding pc using True by (simp add: l_def run_def m(1) Let_def)
    show ?thesis
    proof (cases "owner_bit (c ! boff) bt_bit")
      case True
      then have "read_file_chunk r l off = collect (map (disk_byte ?q) [v..<v + l])"
        using l n(2) owner bnd(1) by (intro serve_file [OF r]) simp_all
      with True r show ?thesis unfolding chunk_served_def chunk by simp
    next
      case False
      have "\<exists>r'. read_parent_chunk rd r l v = (collect (map (disk_byte ?q) [v..<v + l]), r')
          \<and> represents r' ?q \<and> r_pos r' = r_pos r"
        by (rule parent_chunk_law [OF r depth v]) (use False owner in simp)
      with False show ?thesis unfolding chunk_served_def chunk by auto
    qed
  qed
qed

lemma whole_chunk_law:
  assumes r: "represents r (Disk c bt qp)" and depth: "disk_depth (Disk c bt qp) < Suc k"
    and v: "v < 2 ^ 63" and lk: "bat_lookup bt v = Ok target"
    and n: "0 < n" "n \<le> 2 ^ 28" "v + n \<le> (v div block_bytes (bat_meta bt) + 1) * block_bytes (bat_meta bt)"
  shows "chunk_served r (Disk c bt qp) v
    (case target of
         File off \<Rightarrow> Ok (FromFile off n)
       | Parent \<Rightarrow> Ok (FromParent n)
       | Zero \<Rightarrow> Ok (FromZero n)
       | Partial off boff bt_bit \<Rightarrow> partial_chunk r v n off boff bt_bit)"
proof -
  let ?q = "Disk c bt qp"
  from r have "metadata_ok (bat_meta bt)" by (auto elim: representsE)
  then have pos: "0 < block_bytes (bat_meta bt)" using geometry(7) by simp
  have inside: "v + i < (v div block_bytes (bat_meta bt) + 1) * block_bytes (bat_meta bt)" if "i < n" for i
    using n(3) that by linarith
  note shift = lookup_shift [OF inside pos]
  show ?thesis
  proof (cases target)
    case Zero
    have "map (disk_byte ?q) [v..<v + n] = map (\<lambda>i. Ok 0) [v..<v + n]"
      using shift(1) lk Zero by (intro nth_equalityI) (auto simp: disk_byte_eq)
    then have "collect (map (disk_byte ?q) [v..<v + n]) = Ok (replicate n 0)"
      by (simp only: collect_Ok) (simp add: map_replicate_const)
    then show ?thesis using Zero r by (simp add: chunk_served_def)
  next
    case Parent
    have "\<exists>r'. read_parent_chunk rd r n v = (collect (map (disk_byte ?q) [v..<v + n]), r')
        \<and> represents r' ?q \<and> r_pos r' = r_pos r"
      by (rule parent_chunk_law [OF r depth v]) (use shift(2) lk Parent in \<open>simp add: disk_byte_eq\<close>)
    then show ?thesis using Parent by (auto simp: chunk_served_def)
  next
    case (File off)
    have "disk_byte ?q (v + i) = file_byte (dk_content ?q) (off + i)" if "i < n" "off + i < 2 ^ 64" for i
      using shift(3) [OF that(1) _ that(2)] lk File by (simp add: disk_byte_eq)
    moreover have "off < 2 ^ 64" using lookup_bound_file lk File by blast
    ultimately have "read_file_chunk r n off = collect (map (disk_byte ?q) [v..<v + n])"
      using n by (intro serve_file [OF r]) simp_all
    then show ?thesis using File r by (simp add: chunk_served_def)
  next
    case (Partial off boff bt_bit)
    from partial_chunk_law [OF r depth v lk [unfolded Partial] n] show ?thesis by (simp add: Partial)
  qed
qed

lemma chunk_law:
  assumes r: "represents r q" and depth: "disk_depth q < Suc k"
    and v: "v < disk_size q" and want: "0 < want"
  shows "chunk_served r q v (plan_chunk r v want)"
proof -
  obtain c bt qp where q: "q = Disk c bt qp" by (cases q)
  from r have bt: "bt = r_bat r" "bat_meta bt = r_meta r" "metadata_ok (r_meta r)"
    unfolding q by (auto elim: representsE)
  define b where "b = block_bytes (r_meta r)"
  define n where "n = min want ((v div b + 1) * b - v)"
  have b: "0 < b" "b \<le> 2 ^ 28" using geometry(7,8) [OF bt(3)] by (simp_all add: b_def)
  have "v < (v div b + 1) * b" using b(1) by (rule block_left_pos)
  moreover have "(v div b + 1) * b \<le> v + b" by (simp add: add_mult_distrib)
  ultimately have n: "0 < n" "n \<le> 2 ^ 28" "v + n \<le> (v div b + 1) * b"
    using want b(2) unfolding n_def by linarith+
  have v63: "v < 2 ^ 63"
    using v geometry(11) [OF bt(3)] represents_meta [OF r] by (simp add: disk_size_def)
  have plan: "plan_chunk r v want =
    and_then (map_err (\<lambda>e. IoError Other (error_message e)) (bat_lookup bt v)) (\<lambda>target.
    (case target of
         File off \<Rightarrow> Ok (FromFile off n)
       | Parent \<Rightarrow> Ok (FromParent n)
       | Zero \<Rightarrow> Ok (FromZero n)
       | Partial off boff bt_bit \<Rightarrow> partial_chunk r v n off boff bt_bit))"
    using plan_chunk_eval [OF r v, of want] by (simp only: bt(1) n_def b_def Let_def)
  show ?thesis
  proof (cases "bat_lookup bt v")
    case Panic
    then show ?thesis using lookup_not_Panic by blast
  next
    case (Err e)
    then show ?thesis unfolding plan q chunk_served_def disk_byte_eq by simp
  next
    case (Ok target)
    from whole_chunk_law [OF r [unfolded q] depth [unfolded q] v63 Ok n(1,2)] n(3)
    show ?thesis unfolding plan Ok q by (simp add: bt(2) b_def)
  qed
qed

lemma loop_law:
  assumes "represents r q" and "disk_depth q < Suc k" and "v + want \<le> disk_size q"
  shows "\<exists>r'. read_loop rd r v want = (collect (map (disk_byte q) [v..<v + want]), r')
       \<and> represents r' q \<and> r_pos r' = r_pos r"
  using assms
proof (induction want arbitrary: r v rule: less_induct)
  case (less want)
  show ?case
  proof (cases "want = 0")
    case True
    then show ?thesis using less.prems by (simp add: read_loop.simps)
  next
    case want: False
    then have "v < disk_size q" using less.prems(3) by simp
    from chunk_law [OF less.prems(1,2) this, of want, unfolded chunk_served_def] want
    consider (fails) e where "plan_chunk r v want = Err e" "disk_byte q v = Err e"
      | (serves) c r' where "plan_chunk r v want = Ok c"
          "serve_chunk rd r v c = (collect (map (disk_byte q) [v..<v + chunk_size c]), r')"
          "represents r' q" "r_pos r' = r_pos r"
      by auto
    then show ?thesis
    proof cases
      case fails
      then have "collect (map (disk_byte q) [v..<v + want]) = Err e"
        using want by (intro collect_first_Err) simp_all
      with fails less.prems(1) want show ?thesis by (simp add: read_loop.simps [of rd r v])
    next
      case serves
      define n where "n = chunk_size c"
      have n: "0 < n" "n \<le> want" using plan_chunk_size [OF serves(1)] want by (simp_all add: n_def)
      from n(2) obtain l where l: "want = n + l" by (rule less_eqE)
      note split = collect_split [of "disk_byte q" v n l, folded l]
      show ?thesis
      proof (cases "collect (map (disk_byte q) [v..<v + n])")
        case (Ok bs)
        obtain r'' where r'': "read_loop rd r' (v + n) l
            = (collect (map (disk_byte q) [v + n..<v + n + l]), r'')" "represents r'' q"
            "r_pos r'' = r_pos r'"
          using less.IH [of l r' "v + n"] serves(3) less.prems n(1) l by auto
        have "want - n = l" using l by simp
        with Ok serves r'' want split show ?thesis
          by (simp add: read_loop.simps [of rd r v] n_def [symmetric])
      qed (use serves want split in \<open>simp_all add: read_loop.simps [of rd r v] n_def [symmetric]\<close>)
    qed
  qed
qed

lemma step_law:
  assumes r: "represents r q" and depth: "disk_depth q < Suc k"
  shows "\<exists>r'. read_step rd r n = (disk_read q (r_pos r) n, r') \<and> represents r' q
       \<and> r_pos r' = advance (r_pos r) (disk_read q (r_pos r) n)"
proof -
  define sz where "sz = disk_size q"
  define pos where "pos = r_pos r"
  define m where "m = min n (sz - pos)"
  have disk: "unat (virtual_disk_size (r_meta r)) = sz"
    using represents_meta [OF r] by (simp add: sz_def disk_size_def disk_bytes_def)
  have rdq: "disk_read q pos n = collect (map (disk_byte q) [pos..<pos + m])"
    by (simp only: disk_read_def m_def sz_def)
  show ?thesis
  proof (cases "sz \<le> pos")
    case True
    then have "m = 0" by (simp add: m_def)
    with True r show ?thesis
      by (simp add: read_step_def disk pos_def [symmetric] rdq)
  next
    case False
    then have "pos + m \<le> sz" unfolding m_def by linarith
    from loop_law [OF r depth this [unfolded sz_def]] obtain r' where
      r': "read_loop rd r pos m = (disk_read q pos n, r')" "represents r' q" "r_pos r' = pos"
      unfolding rdq by (auto simp: pos_def)
    show ?thesis
    proof (cases "disk_read q pos n")
      case (Ok bs)
      then have "length bs = m" using length_collect [of "map (disk_byte q) [pos..<pos + m]"] rdq by simp
      with Ok r' False show ?thesis
        by (simp add: read_step_def disk pos_def [symmetric] m_def [symmetric])
    qed (use r' False in \<open>simp_all add: read_step_def disk pos_def [symmetric] m_def [symmetric]\<close>)
  qed
qed

end

subsection \<open>Reading through the whole chain\<close>

lemma read_to_depth_reads: "disk_reads (read_to_depth k) (Suc k)"
proof (induction k)
  case 0
  have "disk_reads (\<lambda>p n. (Panic, p)) 0" by unfold_locales simp
  from disk_reads.step_law [OF this] show ?case by unfold_locales simp
next
  case (Suc k)
  from disk_reads.step_law [OF Suc] show ?case by unfold_locales simp
qed

interpretation chain: disk_reads "read_to_depth k" "Suc k" for k
  by (rule read_to_depth_reads)

lemma represents_depth: "represents r q \<Longrightarrow> depth r = disk_depth q"
proof (induction r q rule: represents.induct)
  case (1 b ov bt m pos p c bt' q)
  then show ?case by (cases p; cases q) auto
qed

lemma read_delivers:
  assumes "represents r q"
  shows "\<exists>r'. read r n = (disk_read q (r_pos r) n, r') \<and> represents r' q
       \<and> r_pos r' = advance (r_pos r) (disk_read q (r_pos r) n)"
  unfolding read_def represents_depth [OF assms]
  by (rule chain.rd_law [OF assms]) simp

lemma disk_byte_not_Panic: "disk_byte q v \<noteq> Panic"
proof (induction q v rule: disk_byte.induct)
  case (1 c bt q v)
  have "parent_byte q v \<noteq> Panic"
    using "1.IH" by (auto simp: parent_byte_def split: option.splits)
  then show ?case
    using lookup_not_Panic [of bt v]
    by (auto simp: disk_byte_eq file_byte_def split: outcome.splits read_target.splits)
qed

lemma disk_read_not_Panic: "disk_read q pos n \<noteq> Panic"
  unfolding disk_read_def by (rule collect_not_Panic) (auto simp: disk_byte_not_Panic)

subsection \<open>Consequences for the caller\<close>

lemma disk_read_length:
  "disk_read q pos n = Ok bs \<Longrightarrow> length bs = min n (disk_size q - pos)"
  unfolding disk_read_def by (drule length_collect) simp

lemma disk_read_split:
  "disk_read q pos (m + n)
     = and_then (disk_read q pos m) (\<lambda>xs. map_ok (\<lambda>ys. xs @ ys) (disk_read q (pos + length xs) n))"
proof -
  define k where "k = min m (disk_size q - pos)"
  have "min (m + n) (disk_size q - pos) = k + min n (disk_size q - (pos + k))"
    unfolding k_def by linarith
  then have "disk_read q pos (m + n)
     = and_then (disk_read q pos m) (\<lambda>xs. map_ok (\<lambda>ys. xs @ ys) (disk_read q (pos + k) n))"
    by (simp only: disk_read_def k_def [symmetric] collect_split)
  also have "\<dots> = and_then (disk_read q pos m)
      (\<lambda>xs. map_ok (\<lambda>ys. xs @ ys) (disk_read q (pos + length xs) n))"
    by (intro and_then_cong refl) (simp only: disk_read_length k_def)
  finally show ?thesis .
qed

text \<open>A small disk of four KiB whose only block starts at the beginning of its container, and
  a child of it that owns nothing.\<close>

definition sample_meta :: vhdx_metadata where
  "sample_meta = \<lparr> block_size = 0x100000, has_parent = False, virtual_disk_size = 4096,
                   logical_sector_size = 512 \<rparr>"

definition sample_bat :: "u64 \<Rightarrow> bat" where
  "sample_bat e = \<lparr> bat_entries = [e], bat_meta = sample_meta, region_offset = 0 \<rparr>"

definition sample_reader :: "bytes \<Rightarrow> nat \<Rightarrow> vhdx_reader" where
  "sample_reader d pos =
     VhdxReader (BackingMem []) empty_overlay (sample_bat 0) sample_meta pos
       (Some (VhdxReader (BackingMem d) empty_overlay (sample_bat 6) sample_meta 0 None))"

definition sample_disk :: "bytes \<Rightarrow> disk" where
  "sample_disk d = Disk [] (sample_bat 0) (Some (Disk d (sample_bat 6) None))"

lemma sample_meta_ok: "metadata_ok sample_meta"
  by (auto simp: metadata_ok_def sample_meta_def intro!: bexI [of _ 20])

lemma sample_geometry:
  "block_bytes sample_meta = 0x100000" "sector_bytes sample_meta = 512" "ratio sample_meta = 4096"
  "disk_bytes sample_meta = 4096"
  by (simp_all add: block_bytes_def sector_bytes_def ratio_def disk_bytes_def sample_meta_def)

lemma sample_represents: "length d < 2 ^ 63 \<Longrightarrow> represents (sample_reader d pos) (sample_disk d)"
proof -
  have mem: "\<exists>d'. faithful_backing (BackingMem c) d' \<and> length d' < 2 ^ 63 \<and> c = committed empty_overlay d'"
    if "length c < 2 ^ 63" for c
    using that mem.faithful_backing_axioms [of c]
    by (intro exI [of _ c]) (simp add: committed_def empty_overlay_def)
  assume "length d < 2 ^ 63"
  then show ?thesis
    using mem [of "[]"] mem [of d]
    by (simp add: sample_reader_def sample_disk_def sample_bat_def sample_meta_ok)
qed

lemma sample_lookup:
  "v < 4096 \<Longrightarrow> bat_lookup (sample_bat 6) v = Ok (File v)"
  "v < 4096 \<Longrightarrow> bat_lookup (sample_bat 0) v = Ok Parent"
  by (simp_all add: bat_lookup_def sample_bat_def sample_geometry Let_def payload_index_def
      list_get_def entry_state_def entry_offset_mb_def)

lemma sample_disk_byte:
  "v < 4096 \<Longrightarrow> disk_byte (sample_disk d) v = file_byte d v"
  by (simp add: sample_disk_def disk_byte_eq sample_lookup parent_byte_def disk_size_def disk_meta_def
      sample_bat_def [of 6] sample_geometry) (simp add: sample_bat_def [symmetric] sample_lookup)

lemma sample_disk_size: "disk_size (sample_disk d) = 4096"
  by (simp add: sample_disk_def disk_size_def disk_meta_def sample_bat_def sample_geometry)

subsection \<open>Properties\<close>

text \<open>C1: A read delivers the bytes of the virtual disk at the cursor, in order, stopping at the
  end of the disk, or the error of the first byte that cannot be delivered; it never panics; the
  cursor advances by what was delivered and stays put on an error. Blocks, runs of sectors,
  parents, the log overlay and the backing leave no trace in the result.\<close>

theorem read_delivers_disk:
  assumes "represents r q"
  shows "fst (read r n) = disk_read q (r_pos r) n \<and> fst (read r n) \<noteq> Panic
    \<and> represents (snd (read r n)) q \<and> r_pos (snd (read r n)) = advance (r_pos r) (fst (read r n))"
  using read_delivers [OF assms, of n] disk_read_not_Panic by auto

theorem read_delivers_disk_witness:
  "fst (read (sample_reader [10, 20, 30] 1) 2) = Ok [20, 30]
   \<and> r_pos (snd (read (sample_reader [10, 20, 30] 1) 2)) = 3"
proof -
  have d: "disk_read (sample_disk [10, 20, 30]) 1 2 = Ok [20, 30]"
    by (simp add: disk_read_def sample_disk_size sample_disk_byte file_byte_def upt_rec)
  have "represents (sample_reader [10, 20, 30] 1) (sample_disk [10, 20, 30])"
    by (rule sample_represents) simp
  from read_delivers_disk [OF this, of 2] d show ?thesis by (simp add: sample_reader_def)
qed

text \<open>A read of \<open>m + n\<close> bytes delivers what a read of \<open>m\<close> bytes followed by a read of
  \<open>n\<close> bytes delivers: the caller's buffer sizes do not matter.\<close>

theorem read_in_pieces:
  assumes "represents r q" and "fst (read r (m + n)) = Ok bs"
  shows "fst (read r m) = Ok (take m bs) \<and> fst (read (snd (read r m)) n) = Ok (drop m bs)"
proof -
  obtain r' where r': "read r m = (disk_read q (r_pos r) m, r')" "represents r' q"
    "r_pos r' = advance (r_pos r) (disk_read q (r_pos r) m)"
    using read_delivers [OF assms(1)] by blast
  have "disk_read q (r_pos r) (m + n) = Ok bs"
    using assms(2) read_delivers [OF assms(1), of "m + n"] by auto
  then obtain xs ys where xs: "disk_read q (r_pos r) m = Ok xs"
    and ys: "disk_read q (r_pos r + length xs) n = Ok ys" and bs: "bs = xs @ ys"
    unfolding disk_read_split by (auto simp: and_then_Ok_iff)
  have m: "length xs = min m (disk_size q - r_pos r)" using disk_read_length [OF xs] .
  have "length xs = m \<or> ys = []"
    using disk_read_length [OF ys] m by (auto simp: min_def split: if_splits)
  moreover have "length xs \<le> m" using m by simp
  ultimately have "take m bs = xs" "drop m bs = ys" by (auto simp: bs)
  moreover have "fst (read r' n) = Ok ys"
    using read_delivers [OF r'(2), of n] r'(3) xs ys by auto
  ultimately show ?thesis using r'(1) xs by simp
qed

theorem read_in_pieces_witness:
  "fst (read (snd (read (sample_reader [10, 20, 30] 0) 1)) 2) = Ok [20, 30]"
proof -
  have r: "represents (sample_reader [10, 20, 30] 0) (sample_disk [10, 20, 30])"
    by (rule sample_represents) simp
  have "disk_read (sample_disk [10, 20, 30]) 0 (1 + 2) = Ok [10, 20, 30]"
    by (simp add: disk_read_def sample_disk_size sample_disk_byte file_byte_def upt_rec)
  then have "fst (read (sample_reader [10, 20, 30] 0) (1 + 2)) = Ok [10, 20, 30]"
    using read_delivers [OF r, of "1 + 2"] by (auto simp: sample_reader_def)
  from read_in_pieces [OF r this] show ?thesis by simp
qed

end
