(* ===== verification/Vfs.thy ===== *)
theory Vfs
  imports Disk
begin

text \<open>
  The decoded disk as an image source (\<open>core/src/vfs.rs\<close>): every positioned read takes the
  lock, seeks the shared reader and reads until the buffer or the disk is exhausted. The lock
  recovers from poisoning, so it never fails, and it serialises the reads: a history of
  concurrent reads is a sequence of them. \<open>VfsError::Io\<close> of the crate \<open>forensic-vfs\<close> is the
  only error the source builds.
\<close>

datatype vfs_error = VfsIo string io_error

record vhdx_source =
  src_inner :: vhdx_reader
  src_len :: nat

definition new_source :: "vhdx_reader \<Rightarrow> vhdx_source" where
  "new_source reader = \<lparr> src_inner = reader, src_len = unat (reader_disk_size reader) \<rparr>"

definition source_len :: "vhdx_source \<Rightarrow> nat" where
  "source_len s = src_len s"

function fill_loop :: "vhdx_reader \<Rightarrow> nat \<Rightarrow> (vfs_error, bytes) outcome \<times> vhdx_reader" where
  "fill_loop r n =
     (if n = 0 then (Ok [], r)
      else
        (case read r n of
           (Panic, r') \<Rightarrow> (Panic, r')
         | (Err e, r') \<Rightarrow> (Err (VfsIo ''vhdx::read'' e), r')
         | (Ok bs, r') \<Rightarrow>
             if bs = [] then (Ok [], r')
             else if length bs > n then (Panic, r')
             else
               (case fill_loop r' (n - length bs) of
                  (res, r'') \<Rightarrow> (map_ok (\<lambda>cs. bs @ cs) res, r''))))"
  by pat_completeness auto
termination
  by (relation "measure (\<lambda>(r, n). n)") auto

declare fill_loop.simps [simp del]

definition source_read_at :: "vhdx_source \<Rightarrow> nat \<Rightarrow> nat \<Rightarrow> (vfs_error, bytes) outcome \<times> vhdx_source" where
  "source_read_at s offset buf_len =
     (let avail = src_len s - offset in
      if avail = 0 then (Ok [], s)
      else
        let want = min buf_len avail in
        (case seek (src_inner s) (SeekStart offset) of
           (Panic, r) \<Rightarrow> (Panic, s\<lparr> src_inner := r \<rparr>)
         | (Err e, r) \<Rightarrow> (Err (VfsIo ''vhdx::seek'' e), s\<lparr> src_inner := r \<rparr>)
         | (Ok _, r) \<Rightarrow>
             (case fill_loop r want of (res, r') \<Rightarrow> (res, s\<lparr> src_inner := r' \<rparr>))))"

subsection \<open>Positioned reads have no history\<close>

fun source_of :: "vhdx_source \<Rightarrow> disk \<Rightarrow> bool" where
  "source_of s q = (represents (src_inner s) q \<and> src_len s = disk_size q)"

lemma disk_read_empty: "disk_size q \<le> pos \<or> n = 0 \<Longrightarrow> disk_read q pos n = Ok []"
  by (auto simp: disk_read_def)

lemma fill_loop_delivers:
  assumes "represents r q"
  shows "\<exists>r'. fill_loop r n = (map_err (VfsIo ''vhdx::read'') (disk_read q (r_pos r) n), r')
      \<and> represents r' q"
  using assms
proof (induction n arbitrary: r rule: less_induct)
  case (less n)
  obtain r' where r': "read r n = (disk_read q (r_pos r) n, r')" "represents r' q"
    "r_pos r' = advance (r_pos r) (disk_read q (r_pos r) n)"
    using read_delivers [OF less.prems] by blast
  show ?case
  proof (cases "n = 0")
    case True
    then show ?thesis using less.prems by (simp add: fill_loop.simps disk_read_empty)
  next
    case n: False
    show ?thesis
    proof (cases "disk_read q (r_pos r) n")
      case (Ok bs)
      have len: "length bs = min n (disk_size q - r_pos r)" by (rule disk_read_length [OF Ok])
      show ?thesis
      proof (cases "bs = []")
        case True
        then show ?thesis using r' Ok n by (simp add: fill_loop.simps [of r n])
      next
        case False
        have rest: "disk_read q (r_pos r') (n - length bs) = Ok []"
          using r'(3) Ok len by (intro disk_read_empty) auto
        have "n - length bs < n" using False n by (cases bs) auto
        from less.IH [OF this r'(2)] rest
        obtain r'' where "fill_loop r' (n - length bs) = (Ok [], r'')" "represents r'' q" by auto
        then show ?thesis
          using r' Ok n False len by (simp add: fill_loop.simps [of r n])
      qed
    qed (use r' n in \<open>simp_all add: fill_loop.simps [of r n]\<close>)
  qed
qed

lemma source_read_delivers:
  assumes "source_of s q"
  shows "\<exists>s'. source_read_at s offset n = (map_err (VfsIo ''vhdx::read'') (disk_read q offset n), s')
      \<and> source_of s' q"
proof (cases "offset < disk_size q")
  case False
  then show ?thesis using assms by (simp add: source_read_at_def disk_read_empty)
next
  case True
  have r: "represents (src_inner s) q" using assms by simp
  then have "metadata_ok (r_meta (src_inner s))" by (rule representsE)
  then have "offset < 2 ^ 63"
    using True geometry(11) represents_meta [OF r] by (force simp: disk_size_def)
  then have sk: "seek (src_inner s) (SeekStart offset) = (Ok offset, set_pos offset (src_inner s))"
    by (simp add: seek_def as_i64_def)
  have "represents (set_pos offset (src_inner s)) q" using r by simp
  from fill_loop_delivers [OF this, of "min n (disk_size q - offset)"] obtain r' where
    "fill_loop (set_pos offset (src_inner s)) (min n (disk_size q - offset))
       = (map_err (VfsIo ''vhdx::read'') (disk_read q offset (min n (disk_size q - offset))), r')"
    "represents r' q" by auto
  moreover have "disk_read q offset (min n (disk_size q - offset)) = disk_read q offset n"
    by (simp add: disk_read_def)
  ultimately show ?thesis
    using True assms sk by (simp add: source_read_at_def)
qed

text \<open>The answers to a sequence of positioned reads.\<close>

primrec source_reads ::
  "(nat \<times> nat) list \<Rightarrow> vhdx_source \<Rightarrow> (vfs_error, bytes) outcome list"
where
  "source_reads [] s = []"
| "source_reads (q # qs) s =
     (case source_read_at s (fst q) (snd q) of (res, s') \<Rightarrow> res # source_reads qs s')"

lemma source_reads_deliver:
  "source_of s q \<Longrightarrow>
   source_reads qs s = map (\<lambda>(off, n). map_err (VfsIo ''vhdx::read'') (disk_read q off n)) qs"
proof (induction qs arbitrary: s)
  case (Cons x qs)
  from source_read_delivers [OF Cons.prems, of "fst x" "snd x"] obtain s' where
    "source_read_at s (fst x) (snd x) = (map_err (VfsIo ''vhdx::read'') (disk_read q (fst x) (snd x)), s')"
    "source_of s' q" by blast
  with Cons.IH [of s'] show ?case by (simp add: case_prod_beta)
qed simp

subsection \<open>Properties\<close>

text \<open>C28: The answers to any sequence of positioned reads are those of the virtual disk at each
  offset, whatever was read before and in whatever order the lock serialised the readers.\<close>

theorem positioned_source_reads:
  assumes "represents r q"
  shows "source_reads reqs (new_source r)
    = map (\<lambda>(off, n). map_err (VfsIo ''vhdx::read'') (disk_read q off n)) reqs"
proof -
  have "source_of (new_source r) q"
    using assms represents_meta [OF assms]
    by (simp add: new_source_def reader_disk_size_def disk_size_def disk_bytes_def)
  then show ?thesis by (rule source_reads_deliver)
qed

theorem positioned_source_reads_witness:
  "source_reads [(2, 1), (0, 2), (9999, 4)] (new_source (sample_reader [10, 20, 30] 0))
     = [Ok [30], Ok [10, 20], Ok []]"
proof -
  have "disk_read (sample_disk [10, 20, 30]) 2 1 = Ok [30]"
    "disk_read (sample_disk [10, 20, 30]) 0 2 = Ok [10, 20]"
    "disk_read (sample_disk [10, 20, 30]) 9999 4 = Ok []"
    by (simp_all add: disk_read_def sample_disk_size sample_disk_byte file_byte_def upt_rec)
  then show ?thesis
    using positioned_source_reads [OF sample_represents, of "[10, 20, 30]" "[(2, 1), (0, 2), (9999, 4)]" 0]
    by simp
qed

end
