(* ===== verification/Opening.thy ===== *)
theory Opening
  imports Disk
begin

text \<open>
  Opening an image (\<open>parse_bytes\<close>, \<open>parse_backing\<close> and \<open>assemble\<close> of
  \<open>core/src/reader.rs\<close>): both ways of opening parse the committed content of the image, so
  they accept the same images, fail with the same errors, and give readers of the same disk.
\<close>

subsection \<open>Opening as a function of the committed content\<close>

definition region_bytes :: "bytes \<Rightarrow> region_entry \<Rightarrow> bytes result" where
  "region_bytes c e =
     (if length c < entry_end e then Err OffsetOutOfBounds
      else Ok (window c (unat (re_file_offset e)) (unat (re_length e))))"

definition open_content :: "bytes \<Rightarrow> disk option \<Rightarrow> disk result" where
  "open_content c q =
     (let head = window c 0 MIN_CONTAINER_SIZE in
      and_then (or_else (parse_region_table head REGION_TABLE1_OFFSET (length c))
                  (parse_region_table head REGION_TABLE2_OFFSET (length c))) (\<lambda>regions.
      and_then (region_bytes c (rt_metadata regions)) (\<lambda>meta_region.
      and_then (parse_metadata meta_region 0 (re_length (rt_metadata regions))) (\<lambda>meta.
      and_then (validate meta) (\<lambda>_.
      if has_parent meta \<and> q = None then Err DifferencingNotSupported
      else
        and_then (region_bytes c (rt_bat regions)) (\<lambda>bat_region.
        and_then (parse_bat bat_region 0 (re_length (rt_bat regions)) meta) (\<lambda>bt.
        Ok (Disk c bt q))))))))"

definition open_disk :: "bytes \<Rightarrow> disk option \<Rightarrow> disk result" where
  "open_disk d q =
     (if window d 0 8 \<noteq> FILE_MAGIC then Err BadMagic
      else if length d < MIN_CONTAINER_SIZE then Err (ContainerTooSmall MIN_CONTAINER_SIZE)
      else and_then (apply_log d) (\<lambda>c. open_content c q))"

fun opens :: "vhdx_reader result \<Rightarrow> disk result \<Rightarrow> bool" where
  "opens (Ok r) (Ok q) = (represents r q \<and> r_pos r = 0)"
| "opens (Err e) (Err e') = (e = e')"
| "opens Panic Panic = True"
| "opens _ _ = False"

fun represents_opt :: "vhdx_reader option \<Rightarrow> disk option \<Rightarrow> bool" where
  "represents_opt None None = True"
| "represents_opt (Some r) (Some q) = represents r q"
| "represents_opt _ _ = False"

lemma opens_and_then:
  "(\<And>x. m = Ok x \<Longrightarrow> opens (f x) (g x)) \<Longrightarrow> opens (and_then m f) (and_then m g)"
  by (cases m) auto

lemma opens_Panic: "opens m m' \<Longrightarrow> (m = Panic) = (m' = Panic)"
  by (cases m; cases m') auto

lemma map_err_const: "m = Ok x \<Longrightarrow> map_err f m = Ok x"
  by simp

lemma saturating_end:
  "n < 2 ^ 63 \<Longrightarrow> (n < saturating_add (unat (re_file_offset e)) (unat (re_length e))) = (n < entry_end e)"
  by (simp add: log_end_le entry_end_def)

lemma read_region_content:
  assumes "faithful_backing b d" and "length d < 2 ^ 63"
  shows "read_region b ov (unat (re_file_offset e)) (re_length e) = region_bytes (committed ov d) e"
proof -
  let ?off = "unat (re_file_offset e)" and ?n = "unat (re_length e)"
  have off: "?off < 2 ^ 64" using unat_u64_bound [of "re_file_offset e"] by simp
  have rd: "read_exact_at b ?off ?n = Ok (window d ?off ?n)"
    using assms(1) off by (rule faithful_backing.read_exact_content)
  show ?thesis
  proof (cases "length d < entry_end e")
    case True
    then show ?thesis
      using assms(2) by (simp add: read_region_def region_bytes_def saturating_end
          faithful_backing.len_content [OF assms(1)])
  next
    case False
    then have fits: "?off + ?n \<le> length d" by (simp add: entry_end_def)
    then have "\<not> length (window d ?off ?n) < ?n" by auto
    then show ?thesis
      using False assms(2) patch_window [OF fits assms(2), of ov]
      by (simp add: read_region_def region_bytes_def saturating_end rd
          faithful_backing.len_content [OF assms(1)])
  qed
qed

lemma assemble_opens:
  assumes b: "faithful_backing b d" and small: "length d < 2 ^ 63"
    and size: "MIN_CONTAINER_SIZE \<le> length d" and p: "represents_opt p q"
  shows "opens (assemble b ov p) (open_content (committed ov d) q)"
proof -
  have raw: "read_exact_at b 0 MIN_CONTAINER_SIZE = Ok (window d 0 MIN_CONTAINER_SIZE)"
    using b by (rule faithful_backing.read_exact_content) simp
  have head: "patch ov (window d 0 MIN_CONTAINER_SIZE) 0
      = Ok (window (committed ov d) 0 MIN_CONTAINER_SIZE)"
    using size small by (intro patch_window) simp_all
  have len: "backing_len b = length (committed ov d)"
    using faithful_backing.len_content [OF b] by simp
  have none: "(p = None) = (q = None)" using p by (cases p; cases q) auto
  show ?thesis
    unfolding assemble_def open_content_def raw map_err.simps and_then.simps head Let_def len
      read_region_content [OF b small] none
  proof (intro opens_and_then)
    fix regions meta_region meta u
    assume "validate meta = Ok u"
    then have ok: "metadata_ok meta" using validate_iff [of meta] by (cases u) simp
    show "opens
        (if has_parent meta \<and> q = None then Err DifferencingNotSupported
         else and_then (region_bytes (committed ov d) (rt_bat regions))
                (\<lambda>bat_region. and_then (parse_bat bat_region 0 (re_length (rt_bat regions)) meta)
                   (\<lambda>bt. Ok (VhdxReader b ov bt meta 0 p))))
        (if has_parent meta \<and> q = None then Err DifferencingNotSupported
         else and_then (region_bytes (committed ov d) (rt_bat regions))
                (\<lambda>bat_region. and_then (parse_bat bat_region 0 (re_length (rt_bat regions)) meta)
                   (\<lambda>bt. Ok (Disk (committed ov d) bt q))))"
    proof (cases "has_parent meta \<and> q = None")
      case False
      have "opens (Ok (VhdxReader b ov bt meta 0 p)) (Ok (Disk (committed ov d) bt q))"
        if "parse_bat br 0 n meta = Ok bt" for br n bt
      proof -
        have "bat_meta bt = meta"
          using that by (auto simp: parse_bat_def and_then_Ok_iff Let_def split: if_splits)
        then show ?thesis using ok b small p by (cases p; cases q) auto
      qed
      then show ?thesis
        unfolding if_not_P [OF False] by (intro opens_and_then)
    qed simp
  qed
qed

lemma magic_length: "window d 0 8 = FILE_MAGIC \<Longrightarrow> 8 \<le> length d"
proof -
  assume h: "window d 0 8 = FILE_MAGIC"
  have "length (window d 0 8) = 8" unfolding h FILE_MAGIC_def by simp
  then show ?thesis by simp
qed

lemma magic_test:
  "(length d < 8 \<or> window d 0 8 \<noteq> FILE_MAGIC) = (window d 0 8 \<noteq> FILE_MAGIC)"
  "(length (window d 0 8) < 8 \<or> window d 0 8 \<noteq> FILE_MAGIC) = (window d 0 8 \<noteq> FILE_MAGIC)"
  using magic_length [of d] by (auto simp: not_less simp del: window_all)

lemma committed_empty [simp]: "committed empty_overlay d = d"
  by (simp add: committed_def empty_overlay_def)

lemma apply_descriptors_length:
  "apply_descriptors e is k d = Ok d' \<Longrightarrow> length d' = length d"
proof (induction "is" arbitrary: k d)
  case (Cons i "is")
  then show ?case
    by (auto simp: and_then_Ok_iff Let_def apply_data_def apply_zero_def split: if_splits)
qed simp

lemma apply_entries_length: "apply_entries es d = Ok d' \<Longrightarrow> length d' = length d"
  by (induction es arbitrary: d)
    (auto simp: and_then_Ok_iff apply_entry_def dest!: apply_descriptors_length)

lemma apply_log_length: "apply_log d = Ok d' \<Longrightarrow> length d' = length d"
  by (auto simp: apply_log_def and_then_Ok_iff Let_def dest: apply_entries_length split: if_splits)

lemma parse_bytes_opens:
  assumes "length d < 2 ^ 63" and "represents_opt p q"
  shows "opens (parse_bytes d p) (open_disk d q)"
proof -
  have "opens (assemble (BackingMem c) empty_overlay p) (open_content c q)"
    if "apply_log d = Ok c" "MIN_CONTAINER_SIZE \<le> length d" for c
    using assemble_opens [OF mem.faithful_backing_axioms, of c p q empty_overlay]
      that assms apply_log_length [OF that(1)] by simp
  then show ?thesis
    unfolding parse_bytes_def open_disk_def magic_test by (auto intro!: opens_and_then)
qed

lemma parse_backing_opens:
  assumes b: "faithful_backing b d" and small: "length d < 2 ^ 63" and log: "log_ok d"
    and p: "represents_opt p q"
  shows "opens (parse_backing b p) (open_disk d q)"
proof -
  have rd: "read_at b 8 0 = Ok (window d 0 8)"
    "read_exact_at b 0 MIN_CONTAINER_SIZE = Ok (take MIN_CONTAINER_SIZE d)"
    using faithful_backing.read_content [OF b, of 0] faithful_backing.read_exact_content [OF b, of 0]
    by (simp_all add: window_def)
  note len = faithful_backing.len_content [OF b]
  show ?thesis
  proof (cases "window d 0 8 \<noteq> FILE_MAGIC \<or> length d < MIN_CONTAINER_SIZE")
    case True
    then show ?thesis
      unfolding parse_backing_def open_disk_def rd map_err.simps and_then.simps magic_test len by auto
  next
    case False
    then have size: "MIN_CONTAINER_SIZE \<le> length d" and sig: "\<not> window d 0 8 \<noteq> FILE_MAGIC" by auto
    have hd: "parse_active_header (take MIN_CONTAINER_SIZE d) = parse_active_header d"
      using size by (intro parse_active_header_prefix) (simp_all add: header_layout MIN_CONTAINER_SIZE_def)
    have "opens (and_then (parse_active_header d) (\<lambda>h. and_then (build_overlay b h) (\<lambda>ov. assemble b ov p)))
        (and_then (apply_log d) (\<lambda>c. open_content c q))"
    proof (cases "parse_active_header d")
      case (Ok h)
      from replay_paths_agree [OF b small log Ok] show ?thesis
        using assemble_opens [OF b small size p] by (auto simp: Ok)
    next
      case (Err e)
      then show ?thesis by (simp add: apply_log_def)
    next
      case Panic
      then show ?thesis using parse_active_header_total by blast
    qed
    then show ?thesis
      unfolding parse_backing_def open_disk_def rd map_err.simps and_then.simps magic_test len hd
        if_not_P [OF sig] using size by simp
  qed
qed

subsection \<open>Sessions of requests\<close>

text \<open>
  A client of a reader seeks and reads. A session is the list of its answers; on a disk it is
  determined by the content and a cursor.
\<close>

datatype request = SeekTo seek_from | ReadBytes nat

datatype answer = Sought "nat io_result" | Delivered "bytes io_result"

fun serve :: "request \<Rightarrow> vhdx_reader \<Rightarrow> answer \<times> vhdx_reader" where
  "serve (SeekTo p) r = (case seek r p of (res, r') \<Rightarrow> (Sought res, r'))"
| "serve (ReadBytes n) r = (case read r n of (res, r') \<Rightarrow> (Delivered res, r'))"

primrec session :: "request list \<Rightarrow> vhdx_reader \<Rightarrow> answer list" where
  "session [] r = []"
| "session (q # qs) r = (case serve q r of (a, r') \<Rightarrow> a # session qs r')"

definition disk_seek :: "disk \<Rightarrow> nat \<Rightarrow> seek_from \<Rightarrow> nat io_result" where
  "disk_seek q pos p =
     and_then
       (case p of
          SeekStart n \<Rightarrow> Ok (as_i64 n)
        | SeekCurrent k \<Rightarrow> add_i64 (as_i64 pos) k
        | SeekEnd k \<Rightarrow> add_i64 (int (disk_size q)) k) (\<lambda>new_pos.
     if new_pos < 0 then Err (IoError InvalidInput ''seek before start'') else Ok (nat new_pos))"

fun disk_serve :: "disk \<Rightarrow> request \<Rightarrow> nat \<Rightarrow> answer \<times> nat" where
  "disk_serve q (SeekTo p) pos =
     (Sought (disk_seek q pos p), case disk_seek q pos p of Ok x \<Rightarrow> x | _ \<Rightarrow> pos)"
| "disk_serve q (ReadBytes n) pos =
     (Delivered (disk_read q pos n), advance pos (disk_read q pos n))"

primrec disk_session :: "disk \<Rightarrow> request list \<Rightarrow> nat \<Rightarrow> answer list" where
  "disk_session q [] pos = []"
| "disk_session q (x # xs) pos = (case disk_serve q x pos of (a, pos') \<Rightarrow> a # disk_session q xs pos')"

lemma seek_represents:
  assumes "represents r q"
  shows "\<exists>r'. seek r p = (disk_seek q (r_pos r) p, r') \<and> represents r' q
    \<and> r_pos r' = (case disk_seek q (r_pos r) p of Ok x \<Rightarrow> x | _ \<Rightarrow> r_pos r)"
proof -
  from assms have ok: "metadata_ok (r_meta r)" by (rule representsE)
  have sz: "unat (virtual_disk_size (r_meta r)) = disk_size q"
    using represents_meta [OF assms] by (simp add: disk_size_def disk_bytes_def)
  have "as_i64 (disk_size q) = int (disk_size q)"
    using geometry(11) [OF ok] represents_meta [OF assms] by (simp add: as_i64_def disk_size_def)
  then have t: "seek_target r p =
      (case p of
          SeekStart n \<Rightarrow> Ok (as_i64 n)
        | SeekCurrent k \<Rightarrow> add_i64 (as_i64 (r_pos r)) k
        | SeekEnd k \<Rightarrow> add_i64 (int (disk_size q)) k)"
    by (cases p) (simp_all add: sz)
  show ?thesis
  proof (cases "seek_target r p")
    case (Ok x)
    then show ?thesis using assms by (simp add: seek_def disk_seek_def t)
  next
    case (Err e)
    then show ?thesis using assms by (simp add: seek_def disk_seek_def t)
  next
    case Panic
    then show ?thesis using assms by (simp add: seek_def disk_seek_def t)
  qed
qed

lemma serve_represents:
  assumes "represents r q" and "disk_serve q x (r_pos r) = (a, pos')"
  shows "\<exists>r'. serve x r = (a, r') \<and> represents r' q \<and> r_pos r' = pos'"
proof (cases x)
  case (SeekTo p)
  then show ?thesis using seek_represents [OF assms(1), of p] assms(2) by auto
next
  case (ReadBytes n)
  then show ?thesis using read_delivers [OF assms(1), of n] assms(2) by auto
qed

lemma session_represents: "represents r q \<Longrightarrow> session xs r = disk_session q xs (r_pos r)"
proof (induction xs arbitrary: r)
  case (Cons x xs)
  obtain a pos' where d: "disk_serve q x (r_pos r) = (a, pos')" by fastforce
  obtain r' where "serve x r = (a, r')" "represents r' q" "r_pos r' = pos'"
    using serve_represents [OF Cons.prems d] by blast
  with Cons.IH [of r'] d show ?case by simp
qed simp

lemma length_session: "length (session xs r) = length xs"
  by (induction xs arbitrary: r) (auto split: prod.split)

subsection \<open>Opening never panics on a well-formed log\<close>

lemma parse_bat_total: "parse_bat data 0 n m \<noteq> Panic"
proof -
  have "unat n < 2 ^ 64" using unat_u32_bound [of n] by simp
  then show ?thesis by (auto simp: parse_bat_def and_then_Panic_iff Let_def)
qed

lemma region_bytes_not_Panic: "region_bytes c e \<noteq> Panic"
  by (simp add: region_bytes_def)

lemma open_content_total:
  assumes "length c < 2 ^ 63"
  shows "open_content c q \<noteq> Panic"
proof -
  have tables: "parse_region_table h REGION_TABLE1_OFFSET n \<noteq> Panic"
    "parse_region_table h REGION_TABLE2_OFFSET n \<noteq> Panic" for h n
    by (intro parse_region_table_total; simp add: header_layout)+
  have meta: "parse_metadata r 0 n \<noteq> Panic" if "region_bytes c e = Ok r" for r n e
    by (rule parse_metadata_total) (use assms that in \<open>auto simp: region_bytes_def split: if_splits\<close>)
  show ?thesis
    unfolding open_content_def Let_def
    by (intro and_then_not_PanicI)
      (auto simp: or_else_Panic_iff tables region_bytes_not_Panic validate_not_Panic parse_bat_total
        and_then_Panic_iff dest: meta)
qed

lemma open_disk_total:
  assumes "length d < 2 ^ 63" and "log_ok d"
  shows "open_disk d q \<noteq> Panic"
proof -
  have "apply_log d \<noteq> Panic"
  proof (cases "parse_active_header d")
    case (Ok h)
    from replay_paths_agree [OF mem.faithful_backing_axioms assms Ok] show ?thesis by auto
  next
    case (Err e)
    then show ?thesis by (simp add: apply_log_def)
  next
    case Panic
    then show ?thesis using parse_active_header_total by blast
  qed
  moreover have "open_content c q \<noteq> Panic" if "apply_log d = Ok c" for c
    using assms(1) apply_log_length [OF that] by (intro open_content_total) simp
  ultimately show ?thesis by (auto simp: open_disk_def and_then_Panic_iff)
qed

text \<open>What a session delivered, and where a seek is meant to go.\<close>

fun payload :: "answer \<Rightarrow> bytes" where
  "payload (Delivered (Ok bs)) = bs"
| "payload _ = []"

definition seek_goal :: "vhdx_reader \<Rightarrow> seek_from \<Rightarrow> int" where
  "seek_goal r p =
     (case p of
        SeekStart n \<Rightarrow> int n
      | SeekCurrent k \<Rightarrow> int (r_pos r) + k
      | SeekEnd k \<Rightarrow> int (unat (virtual_disk_size (r_meta r))) + k)"

definition absolute :: "seek_from \<Rightarrow> bool" where
  "absolute p = (case p of SeekStart n \<Rightarrow> True | _ \<Rightarrow> False)"

definition i64 :: "int \<Rightarrow> bool" where
  "i64 k \<longleftrightarrow> - (2 ^ 63) \<le> k \<and> k < 2 ^ 63"

lemma collect_Err_in: "collect (map f xs) = Err e \<Longrightarrow> \<exists>x \<in> set xs. f x = Err e"
proof (induction xs)
  case (Cons x xs)
  then show ?case by (cases "f x"; cases "collect (map f xs)") auto
qed simp

lemma served_progress:
  assumes "pos \<le> disk_size q"
  shows "\<exists>m \<le> length ns.
    let answers = disk_session q (map ReadBytes ns) pos;
        reached = min (disk_size q) (pos + sum_list (take m ns))
    in collect (map (disk_byte q) [pos..<reached]) = Ok (concat (map payload (take m answers)))
       \<and> (m < length ns \<longrightarrow>
            (\<exists>e v. answers ! m = Delivered (Err e) \<and> reached \<le> v
               \<and> v < min (disk_size q) (reached + ns ! m) \<and> disk_byte q v = Err e))"
  using assms
proof (induction ns arbitrary: pos)
  case (Cons n ns)
  define k where "k = min n (disk_size q - pos)"
  have k: "pos + k = min (disk_size q) (pos + n)" using Cons.prems unfolding k_def by auto
  have rd: "disk_read q pos n = collect (map (disk_byte q) [pos..<pos + k])"
    by (simp add: disk_read_def k_def)
  show ?case
  proof (cases "disk_read q pos n")
    case (Ok bs)
    have "length bs = k" using length_collect [of "map (disk_byte q) [pos..<pos + k]" bs] Ok rd by simp
    then have step: "disk_session q (map ReadBytes (n # ns)) pos
        = Delivered (Ok bs) # disk_session q (map ReadBytes ns) (pos + k)"
      using Ok by simp
    obtain m where m: "m \<le> length ns" "let answers = disk_session q (map ReadBytes ns) (pos + k);
        reached = min (disk_size q) (pos + k + sum_list (take m ns))
      in collect (map (disk_byte q) [pos + k..<reached]) = Ok (concat (map payload (take m answers)))
       \<and> (m < length ns \<longrightarrow>
            (\<exists>e v. answers ! m = Delivered (Err e) \<and> reached \<le> v
               \<and> v < min (disk_size q) (reached + ns ! m) \<and> disk_byte q v = Err e))"
      using Cons.IH [of "pos + k"] k by auto
    define reached where "reached = min (disk_size q) (pos + k + sum_list (take m ns))"
    have r: "min (disk_size q) (pos + (n + sum_list (take m ns))) = reached"
      using k by (auto simp: reached_def k_def)
    have le: "pos + k \<le> reached" using k by (simp add: reached_def)
    then have "map (disk_byte q) [pos..<reached]
        = map (disk_byte q) [pos..<pos + k] @ map (disk_byte q) [pos + k..<reached]"
      by (metis le_add1 le_Suc_ex map_append upt_add_eq_append)
    then have "collect (map (disk_byte q) [pos..<reached])
        = Ok (concat (map payload (take (Suc m) (disk_session q (map ReadBytes (n # ns)) pos))))"
      unfolding step using m(2) Ok rd by (simp add: reached_def [symmetric] collect_append Let_def)
    then show ?thesis
      using m unfolding step by (intro exI [of _ "Suc m"]) (simp add: r reached_def [symmetric] Let_def)
  next
    case (Err e)
    then obtain v where "v \<in> set [pos..<pos + k]" "disk_byte q v = Err e"
      using rd collect_Err_in by metis
    then show ?thesis
      using Err Cons.prems k by (intro exI [of _ 0]) (auto simp: Let_def)
  next
    case Panic
    then show ?thesis using disk_read_not_Panic by simp
  qed
qed simp

subsection \<open>Properties\<close>

text \<open>C2: On an image whose log is well formed (\<open>log_ok\<close>: every replayed descriptor lies in its
  entry, no sector straddles the end of the container, every zero run can be allocated), opening
  from owned bytes, with the log replayed in place, and opening over any faithful backing, with the
  log as an overlay, are observationally equivalent: they fail with the same error, or both succeed
  and then answer every session of seeks and reads alike, as the disk in the committed content of
  the image answers it. Neither panics. The condition is needed: a descriptor outside its entry
  makes opening panic, and on a straddling sector the two replays differ (both shown in \<open>Log\<close>).\<close>

theorem opening_paths_agree:
  assumes "faithful_backing b d" and "length d < 2 ^ 63" and "log_ok d"
    and "represents_opt p q" and "represents_opt p' q"
  shows "case parse_backing b p of
           Ok r \<Rightarrow> \<exists>r' dq. parse_bytes d p' = Ok r' \<and> open_disk d q = Ok dq
             \<and> (\<forall>reqs. session reqs r = disk_session dq reqs 0 \<and> session reqs r' = disk_session dq reqs 0)
         | Err e \<Rightarrow> parse_bytes d p' = Err e
         | Panic \<Rightarrow> False"
proof -
  have A: "opens (parse_backing b p) (open_disk d q)" by (rule parse_backing_opens) fact+
  have B: "opens (parse_bytes d p') (open_disk d q)" by (rule parse_bytes_opens) fact+
  have C: "open_disk d q \<noteq> Panic" by (rule open_disk_total) fact+
  show ?thesis
  proof (cases "open_disk d q")
    case (Ok dq)
    with A obtain r where r: "parse_backing b p = Ok r" "represents r dq" "r_pos r = 0"
      by (cases "parse_backing b p") auto
    from B Ok obtain r' where r': "parse_bytes d p' = Ok r'" "represents r' dq" "r_pos r' = 0"
      by (cases "parse_bytes d p'") auto
    show ?thesis using Ok r r' by (simp add: session_represents)
  next
    case (Err e)
    with A B show ?thesis by (cases "parse_backing b p"; cases "parse_bytes d p'") auto
  qed (use C in simp)
qed

text \<open>Opening an image whose log is well formed never panics, from bytes or over any faithful
  backing, whatever its other bytes are.\<close>

theorem opening_total:
  assumes "faithful_backing b d" and "length d < 2 ^ 63" and "log_ok d" and "represents_opt p q"
  shows "from_backing b p \<noteq> Panic \<and> parse_bytes d p \<noteq> Panic"
  using open_disk_total [OF assms(2,3), of q] opens_Panic [OF parse_backing_opens [OF assms]]
    opens_Panic [OF parse_bytes_opens [OF assms(2,4)]]
  by (simp add: from_backing_def)

text \<open>C16: A client that keeps reading, with buffers of whatever sizes, makes progress until the end
  of the disk or until a byte that cannot be delivered. There is a number \<open>m\<close> of reads that succeed
  and together deliver, in order, every byte from the cursor on, each read filling its buffer as
  far as the disk goes: when the sizes add up to what is left, that is the whole rest of the disk.
  If there is a read after them, it fails, and with the error of a byte of the disk in its own range.\<close>

theorem reading_reaches_the_end:
  assumes "represents r q" and "r_pos r \<le> disk_size q"
  shows "\<exists>m \<le> length ns.
    let answers = session (map ReadBytes ns) r;
        reached = min (disk_size q) (r_pos r + sum_list (take m ns))
    in collect (map (disk_byte q) [r_pos r..<reached]) = Ok (concat (map payload (take m answers)))
       \<and> (m < length ns \<longrightarrow>
            (\<exists>e v. answers ! m = Delivered (Err e) \<and> reached \<le> v
               \<and> v < min (disk_size q) (reached + ns ! m) \<and> disk_byte q v = Err e))"
  using served_progress [OF assms(2), of ns] session_represents [OF assms(1)] by (simp add: Let_def)

text \<open>On a disk of 4096 sevens, and on one whose image ends before its only block.\<close>

theorem reading_reaches_the_end_witness:
  "concat (map payload (session (map ReadBytes [1, 0, 5, 9]) (set_pos 4093 (sample_reader (replicate 4096 7) 0))))
    = [7, 7, 7]"
proof -
  let ?r = "set_pos 4093 (sample_reader (replicate 4096 7) 0)" and ?q = "sample_disk (replicate 4096 7)"
  let ?ns = "[1, 0, 5, 9] :: nat list"
  have byte: "disk_byte ?q v = Ok 7" if "v < 4096" for v
    using that by (simp add: sample_disk_byte file_byte_def)
  obtain m where m: "m \<le> length ?ns"
    "collect (map (disk_byte ?q) [4093..<min 4096 (4093 + sum_list (take m ?ns))])
       = Ok (concat (map payload (take m (session (map ReadBytes ?ns) ?r))))"
    "m < length ?ns \<Longrightarrow> \<exists>e v. v < (4096 :: nat) \<and> disk_byte ?q v = Err e"
    using reading_reaches_the_end [of ?r ?q ?ns] by (auto simp: sample_represents sample_disk_size Let_def)
  have "m = length ?ns"
  proof (rule ccontr)
    assume "m \<noteq> length ?ns"
    then have "m < length ?ns" using m(1) by (rule le_neq_implies_less [rotated])
    from m(3) [OF this] show False using byte by auto
  qed
  moreover have "length (session (map ReadBytes ?ns) ?r) = length ?ns"
    by (simp only: length_session length_map)
  ultimately have "take m (session (map ReadBytes ?ns) ?r) = session (map ReadBytes ?ns) ?r"
    by (simp only: take_all order_refl)
  moreover have "min 4096 (4093 + sum_list (take m ?ns)) = 4096" using \<open>m = length ?ns\<close> by simp
  moreover have "map (disk_byte ?q) [4093..<4096] = map (\<lambda>v. Ok 7) [4093..<4096]" using byte by simp
  then have "collect (map (disk_byte ?q) [4093..<4096]) = Ok (map (\<lambda>v. 7) [4093..<4096])"
    by (simp only: collect_Ok)
  ultimately show ?thesis using m(2) by (simp add: upt_rec)
qed

text \<open>C17: Seeking goes where it is told when the target is a position below \<open>2 ^ 63\<close>, on or past
  the end of the disk alike. A target before the start is refused, and so is an absolute one from
  \<open>2 ^ 63\<close> on; in both cases the cursor stays. A relative target from \<open>2 ^ 63\<close> on overflows the
  signed addition: the unchecked operator panics.\<close>

theorem seek_exact:
  assumes "metadata_ok (r_meta r)" and "r_pos r < 2 ^ 63"
    and "case p of SeekStart n \<Rightarrow> n < 2 ^ 64 | SeekCurrent k \<Rightarrow> i64 k | SeekEnd k \<Rightarrow> i64 k"
  shows "seek r p =
    (if 0 \<le> seek_goal r p \<and> seek_goal r p < 2 ^ 63
     then (Ok (nat (seek_goal r p)), set_pos (nat (seek_goal r p)) r)
     else if seek_goal r p < 0 \<or> absolute p
     then (Err (IoError InvalidInput ''seek before start''), r)
     else (Panic, r))"
proof -
  define len where "len = unat (virtual_disk_size (r_meta r))"
  have "len < 2 ^ 63" using assms(1) by (simp add: metadata_ok_def len_def)
  then show ?thesis
    using assms(2,3)
    by (cases p) (auto simp: seek_def seek_goal_def absolute_def i64_def as_i64_def add_i64_def
        len_def [symmetric])
qed

theorem seek_exact_witness:
  "seek (sample_reader [] 10) (SeekEnd 5) = (Ok 4101, sample_reader [] 4101)
   \<and> seek (sample_reader [] 10) (SeekCurrent (- 11))
       = (Err (IoError InvalidInput ''seek before start''), sample_reader [] 10)
   \<and> fst (seek (sample_reader [] 10) (SeekEnd (2 ^ 63 - 1))) = Panic"
proof -
  have m: "r_meta (sample_reader [] 10) = sample_meta" "r_pos (sample_reader [] 10) = 10"
    by (simp_all add: sample_reader_def)
  have v: "unat (virtual_disk_size sample_meta) = 4096" by (simp add: sample_meta_def)
  note ex = seek_exact [of "sample_reader [] 10", unfolded m, OF sample_meta_ok]
  show ?thesis
    using ex [of "SeekEnd 5"] ex [of "SeekCurrent (- 11)"] ex [of "SeekEnd (2 ^ 63 - 1)"]
    by (simp add: i64_def seek_goal_def absolute_def m v) (simp add: sample_reader_def)
qed

end
