(* ===== verification/Example.thy ===== *)
theory Example
  imports Opening
begin

text \<open>
  The image builder and the demonstration of \<open>core/examples/bounded_memory.rs\<close>: a sparse image
  of 288 MiB whose only block stands behind a hole, written to a file and read back through the
  reader. The calls of the operating system that create and write the file are the parameter
  \<open>fault\<close>, which says for each whether it fails; the sizes of the resident set that the program
  asks \<open>ps\<close> for are parameters too.
\<close>

definition EX_MB :: u64 where "EX_MB = 0x00100000"
definition EX_BLOCK_SIZE :: u32 where "EX_BLOCK_SIZE = 32 * ucast EX_MB"
definition EX_VIRTUAL_DISK_SIZE :: u64 where "EX_VIRTUAL_DISK_SIZE = 4096 * EX_MB"
definition EX_LOG_OFFSET :: u64 where "EX_LOG_OFFSET = EX_MB"
definition EX_LOG_LENGTH :: u32 where "EX_LOG_LENGTH = ucast EX_MB"
definition EX_META_OFFSET :: u64 where "EX_META_OFFSET = 2 * EX_MB"
definition EX_META_LENGTH :: u32 where "EX_META_LENGTH = ucast EX_MB"
definition EX_BAT_OFFSET :: u64 where "EX_BAT_OFFSET = 3 * EX_MB"
definition EX_BAT_LENGTH :: u32 where "EX_BAT_LENGTH = ucast EX_MB"
definition EX_DATA_OFFSET :: u64 where "EX_DATA_OFFSET = 256 * EX_MB"

definition EX_POLY :: u32 where "EX_POLY = 0x82F63B78"

definition ex_crc32c :: "bytes \<Rightarrow> u32" where
  "ex_crc32c data =
     foldl (\<lambda>crc byte.
         ((\<lambda>crc. if crc AND 1 \<noteq> 0 then drop_bit 1 crc XOR EX_POLY else drop_bit 1 crc) ^^ 8)
           (crc XOR ucast byte))
       0xFFFFFFFF data XOR 0xFFFFFFFF"

definition EX_BAT_GUID :: bytes where
  "EX_BAT_GUID =
     [0x66, 0x77, 0xC2, 0x2D, 0x23, 0xF6, 0x00, 0x42,
      0x9D, 0x64, 0x11, 0x5E, 0x9B, 0xFD, 0x4A, 0x08]"

definition EX_METADATA_GUID :: bytes where
  "EX_METADATA_GUID =
     [0x06, 0xA2, 0x7C, 0x8B, 0x90, 0x47, 0x9A, 0x4B,
      0xB8, 0xFE, 0x57, 0x5F, 0x05, 0x0F, 0x88, 0x6E]"

definition EX_GUID_FILE_PARAMETERS :: bytes where
  "EX_GUID_FILE_PARAMETERS =
     [0x37, 0x67, 0xA1, 0xCA, 0x36, 0xFA, 0x43, 0x4D,
      0xB3, 0xB6, 0x33, 0xF0, 0xAA, 0x44, 0xE7, 0x6B]"

definition EX_GUID_VIRTUAL_DISK_SIZE :: bytes where
  "EX_GUID_VIRTUAL_DISK_SIZE =
     [0x24, 0x42, 0xA5, 0x2F, 0x1B, 0xCD, 0x76, 0x48,
      0xB2, 0x11, 0x5D, 0xBE, 0xD8, 0x3B, 0xF4, 0xB8]"

definition EX_GUID_LOGICAL_SECTOR_SIZE :: bytes where
  "EX_GUID_LOGICAL_SECTOR_SIZE =
     [0x1D, 0xBF, 0x41, 0x81, 0x6F, 0xA9, 0x09, 0x47,
      0xBA, 0x47, 0xF2, 0x33, 0xA8, 0xFA, 0xAB, 0x5F]"

text \<open>A run of \<open>copy_from_slice\<close> assignments.\<close>

primrec put_all :: "(nat \<times> bytes) list \<Rightarrow> bytes \<Rightarrow> ('e, bytes) outcome" where
  "put_all [] d = Ok d"
| "put_all (w # ws) d = and_then (put_slice d (fst w) (snd w)) (put_all ws)"

text \<open>A function that writes to the subslice it is lent.\<close>

definition on_slice ::
  "bytes \<Rightarrow> nat \<Rightarrow> nat \<Rightarrow> (bytes \<Rightarrow> ('e, bytes) outcome) \<Rightarrow> ('e, bytes) outcome" where
  "on_slice d a b f = and_then (slice d a b) (\<lambda>s. and_then (f s) (\<lambda>s'. put_slice d a s'))"

definition header_fields :: "u64 \<Rightarrow> (nat \<times> bytes) list" where
  "header_fields sq =
     [(0, [0x68, 0x65, 0x61, 0x64]),
      (8, u64_to_le sq),
      (64, to_le 2 1),
      (66, to_le 2 1),
      (68, u32_to_le EX_LOG_LENGTH),
      (72, u64_to_le EX_LOG_OFFSET)]"

definition write_header :: "u64 \<Rightarrow> bytes \<Rightarrow> ('e, bytes) outcome" where
  "write_header sq slot =
     on_slice slot 0 4096 (\<lambda>h.
       and_then (put_all (header_fields sq) h) (\<lambda>h.
       let c = ex_crc32c h in
       put_slice h 4 (u32_to_le c)))"

definition table_fields :: "(nat \<times> bytes) list" where
  "table_fields =
     [(0, [0x72, 0x65, 0x67, 0x69]),
      (8, u32_to_le 2),
      (16, EX_BAT_GUID),
      (32, u64_to_le EX_BAT_OFFSET),
      (40, u32_to_le EX_BAT_LENGTH),
      (44, u32_to_le 1),
      (48, EX_METADATA_GUID),
      (64, u64_to_le EX_META_OFFSET),
      (72, u32_to_le EX_META_LENGTH),
      (76, u32_to_le 1)]"

definition write_region_table :: "bytes \<Rightarrow> ('e, bytes) outcome" where
  "write_region_table rt =
     and_then (put_all table_fields rt) (\<lambda>rt.
     and_then (slice rt 0 65536) (\<lambda>tmp.
     and_then (put_slice tmp 4 (replicate 4 0)) (\<lambda>tmp.
     let c = ex_crc32c tmp in
     put_slice rt 4 (u32_to_le c))))"

definition EX_FP_OFF :: u32 where "EX_FP_OFF = 0x200"
definition EX_VDS_OFF :: u32 where "EX_VDS_OFF = 0x210"
definition EX_LSS_OFF :: u32 where "EX_LSS_OFF = 0x220"

definition metadata_fields :: "(nat \<times> bytes) list" where
  "metadata_fields =
     [(0, [0x6D, 0x65, 0x74, 0x61, 0x64, 0x61, 0x74, 0x61]),
      (10, to_le 2 3),
      (32, EX_GUID_FILE_PARAMETERS),
      (48, u32_to_le EX_FP_OFF),
      (52, u32_to_le 8),
      (64, EX_GUID_VIRTUAL_DISK_SIZE),
      (80, u32_to_le EX_VDS_OFF),
      (84, u32_to_le 8),
      (96, EX_GUID_LOGICAL_SECTOR_SIZE),
      (112, u32_to_le EX_LSS_OFF),
      (116, u32_to_le 4),
      (unat EX_FP_OFF, u32_to_le EX_BLOCK_SIZE),
      (unat EX_VDS_OFF, u64_to_le EX_VIRTUAL_DISK_SIZE),
      (unat EX_LSS_OFF, u32_to_le 512)]"

definition write_metadata :: "bytes \<Rightarrow> ('e, bytes) outcome" where
  "write_metadata region = put_all metadata_fields region"

definition ex_bat_entry :: u64 where
  "ex_bat_entry = push_bit 20 (drop_bit 20 EX_DATA_OFFSET) OR 6"

text \<open>The front matter, in memory.\<close>

definition build_front :: "('e, bytes) outcome" where
  "build_front =
     (let front = replicate (min (unat EX_DATA_OFFSET) (5 * unat EX_MB)) 0 in
      and_then (put_slice front 0 [0x76, 0x68, 0x64, 0x78, 0x66, 0x69, 0x6C, 0x65]) (\<lambda>front.
      and_then (on_slice front 0x10000 0x20000 (write_header 1)) (\<lambda>front.
      and_then (on_slice front 0x20000 0x30000 (write_header 0)) (\<lambda>front.
      and_then (on_slice front 0x30000 0x40000 write_region_table) (\<lambda>front.
      and_then (on_slice front 0x40000 0x50000 write_region_table) (\<lambda>front.
      and_then (on_slice front (unat EX_META_OFFSET)
                  (unat (EX_META_OFFSET + ucast EX_META_LENGTH)) write_metadata) (\<lambda>front.
      put_slice front (unat EX_BAT_OFFSET) (u64_to_le ex_bat_entry))))))))"

text \<open>
  The file that is written: its content and its cursor. A write beyond the end leaves a hole
  that reads as zeros.
\<close>

datatype file_call = CreateFile | WriteFront | SeekData | WriteBlock | Flush

record out_file =
  of_content :: bytes
  of_cursor :: nat

definition write_out :: "bytes \<Rightarrow> out_file \<Rightarrow> out_file" where
  "write_out bs f =
     \<lparr> of_content =
         take (of_cursor f) (of_content f @ replicate (of_cursor f - length (of_content f)) 0)
           @ bs @ drop (of_cursor f + length bs) (of_content f),
       of_cursor = of_cursor f + length bs \<rparr>"

definition os_call :: "(file_call \<Rightarrow> io_error option) \<Rightarrow> file_call \<Rightarrow> 'a \<Rightarrow> 'a io_result" where
  "os_call fault c x = (case fault c of Some e \<Rightarrow> Err e | None \<Rightarrow> Ok x)"

text \<open>The result is the length the function returns and the content of the file.\<close>

definition write_sparse_vhdx :: "(file_call \<Rightarrow> io_error option) \<Rightarrow> (nat \<times> bytes) io_result" where
  "write_sparse_vhdx fault =
     and_then build_front (\<lambda>front.
     and_then (os_call fault CreateFile \<lparr> of_content = [], of_cursor = 0 \<rparr>) (\<lambda>f.
     and_then (os_call fault WriteFront (write_out front f)) (\<lambda>f.
     and_then (os_call fault SeekData (f\<lparr> of_cursor := unat EX_DATA_OFFSET \<rparr>)) (\<lambda>f.
     let block = (replicate (unat EX_BLOCK_SIZE) 0)[0 := 0x42] in
     and_then (os_call fault WriteBlock (write_out block f)) (\<lambda>f.
     let total = unat (EX_DATA_OFFSET + ucast EX_BLOCK_SIZE) in
     and_then (os_call fault Flush f) (\<lambda>f.
     Ok (total, of_content f)))))))"


text \<open>
  The demonstration: write the image, open it, read 8 MiB from its start, check the first byte
  and the growth of the resident set. \<open>os\<close> gives the file that is opened for a content. Removing
  the file is left out; when an assertion fails the lines already printed are left out.
\<close>

fun expect :: "('e, 'a) outcome \<Rightarrow> ('f, 'a) outcome" where
  "expect (Ok x) = Ok x"
| "expect _ = Panic"

definition demo_lines :: "nat \<Rightarrow> nat \<Rightarrow> nat \<Rightarrow> nat \<Rightarrow> string list" where
  "demo_lines vsize file_len rss_before rss_after =
     (let grew = rss_after - rss_before; file_kib = file_len div 1024 in
      [''virtual disk size : '' @ decimal (vsize div unat EX_MB) @ '' MiB'',
       ''container file size: '' @ decimal (file_len div unat EX_MB) @ '' MiB (on disk, sparse)'',
       ''RSS before open    : '' @ decimal rss_before @ '' KiB'',
       ''RSS after open+read: '' @ decimal rss_after @ '' KiB  (grew '' @ decimal grew @ '' KiB)'',
       ''OK: RSS growth '' @ decimal grew @ '' KiB << container '' @ decimal file_kib
         @ '' KiB << virtual '' @ decimal (vsize div 1024) @ '' KiB '' @ em_dash @ '' bounded.''])"

definition demo ::
  "(file_call \<Rightarrow> io_error option) \<Rightarrow> (bytes \<Rightarrow> os_file) \<Rightarrow> nat \<Rightarrow> nat \<Rightarrow> ('e, string list) outcome"
where
  "demo fault os rss_before rss_after =
     and_then (expect (write_sparse_vhdx fault)) (\<lambda>(file_len, content).
     and_then (expect (open_file (os content))) (\<lambda>reader.
     let vsize = unat (reader_disk_size reader);
         (sought, reader) = seek reader (SeekStart 0)
     in
     and_then (expect sought) (\<lambda>_.
     and_then (expect (fst (read_exact read reader (8 * unat EX_MB)))) (\<lambda>buf.
     if \<not> 0 < length buf \<or> buf ! 0 \<noteq> 0x42 then Panic
     else
       let grew = rss_after - rss_before; file_kib = file_len div 1024 in
       if \<not> grew < file_kib then Panic
       else Ok (demo_lines vsize file_len rss_before rss_after)))))"

subsection \<open>The image in closed form\<close>

definition writes :: "(nat \<times> bytes) list \<Rightarrow> bytes \<Rightarrow> bytes" where
  "writes ws d = fold (\<lambda>w d. overwrite d (fst w) (snd w)) ws d"

definition within :: "nat \<Rightarrow> (nat \<times> bytes) list \<Rightarrow> bool" where
  "within n ws = list_all (\<lambda>w. fst w + length (snd w) \<le> n) ws"

definition apart :: "nat \<Rightarrow> nat \<Rightarrow> (nat \<times> bytes) list \<Rightarrow> bool" where
  "apart o1 n ws = list_all (\<lambda>w. o1 + n \<le> fst w \<or> fst w + length (snd w) \<le> o1) ws"

lemma writes_simps [simp]:
  "writes [] d = d" "writes (w # ws) d = writes ws (overwrite d (fst w) (snd w))"
  by (simp_all add: writes_def)

lemma within_simps [simp]:
  "within n []" "within n (w # ws) = (fst w + length (snd w) \<le> n \<and> within n ws)"
  by (simp_all add: within_def)

lemma apart_simps [simp]:
  "apart o1 n []"
  "apart o1 n (w # ws) = ((o1 + n \<le> fst w \<or> fst w + length (snd w) \<le> o1) \<and> apart o1 n ws)"
  by (simp_all add: apart_def)

lemma put_all_eval: "within (length d) ws \<Longrightarrow> put_all ws d = Ok (writes ws d)"
  by (induction ws arbitrary: d) (auto simp: put_slice_def)

lemma length_writes [simp]: "within (length d) ws \<Longrightarrow> length (writes ws d) = length d"
  by (induction ws arbitrary: d) auto

text \<open>A window that no write touches, and one that the last write to it fills.\<close>

lemma window_writes_apart:
  "within (length d) ws \<Longrightarrow> apart o1 n ws \<Longrightarrow> window (writes ws d) o1 n = window d o1 n"
  by (induction ws arbitrary: d) (auto simp: window_overwrite_disjoint)

text \<open>Writes to ranges that are apart from each other all hold at the end.\<close>

primrec spaced :: "(nat \<times> bytes) list \<Rightarrow> bool" where
  "spaced [] = True"
| "spaced (w # ws) = (apart (fst w) (length (snd w)) ws \<and> spaced ws)"

lemma fields_hold:
  "within (length d) ws \<Longrightarrow> spaced ws \<Longrightarrow>
   list_all (\<lambda>w. window (writes ws d) (fst w) (length (snd w)) = snd w) ws"
proof (induction ws arbitrary: d)
  case (Cons w ws)
  then show ?case
    using Cons.IH [of "overwrite d (fst w) (snd w)"]
    by (simp add: window_writes_apart window_overwrite_same)
qed simp

lemma window_replicate: "window (replicate n x) o1 k = replicate (min k (n - o1)) x"
  by (simp add: window_def)

lemma ex_crc32c_eq: "ex_crc32c = crc32c"
  by (rule ext) (simp only: ex_crc32c_def crc32c_def crc_byte_def [abs_def] crc_bit_def [abs_def],
      unfold EX_POLY_def crc_poly_def, rule refl)

lemma item_guids_apart:
  "GUID_VIRTUAL_DISK_SIZE_QEMU_COMPAT \<noteq> GUID_FILE_PARAMETERS"
  "GUID_LOGICAL_SECTOR_SIZE \<noteq> GUID_FILE_PARAMETERS"
  "GUID_LOGICAL_SECTOR_SIZE \<noteq> GUID_VIRTUAL_DISK_SIZE"
  "GUID_LOGICAL_SECTOR_SIZE \<noteq> GUID_VIRTUAL_DISK_SIZE_QEMU_COMPAT"
  "GUID_VIRTUAL_DISK_SIZE_QEMU_COMPAT \<noteq> GUID_VIRTUAL_DISK_SIZE"
  by (simp_all add: GUID_FILE_PARAMETERS_def GUID_LOGICAL_SECTOR_SIZE_def GUID_VIRTUAL_DISK_SIZE_def
      GUID_VIRTUAL_DISK_SIZE_QEMU_COMPAT_def)

lemma ex_layout:
  "unat EX_MB = 0x100000" "EX_BLOCK_SIZE = 0x2000000" "EX_VIRTUAL_DISK_SIZE = 0x100000000"
  "EX_LOG_OFFSET = 0x100000" "EX_LOG_LENGTH = 0x100000" "EX_META_OFFSET = 0x200000"
  "EX_META_LENGTH = 0x100000" "EX_BAT_OFFSET = 0x300000" "EX_BAT_LENGTH = 0x100000"
  "EX_DATA_OFFSET = 0x10000000" "ex_bat_entry = 0x10000006"
  "EX_FP_OFF = 0x200" "EX_VDS_OFF = 0x210" "EX_LSS_OFF = 0x220"
  by (simp_all add: EX_MB_def EX_BLOCK_SIZE_def EX_VIRTUAL_DISK_SIZE_def EX_LOG_OFFSET_def
      EX_LOG_LENGTH_def EX_META_OFFSET_def EX_META_LENGTH_def EX_BAT_OFFSET_def EX_BAT_LENGTH_def
      EX_DATA_OFFSET_def ex_bat_entry_def EX_FP_OFF_def EX_VDS_OFF_def EX_LSS_OFF_def)

lemma ex_guids:
  "EX_BAT_GUID = BAT_GUID" "EX_METADATA_GUID = METADATA_GUID"
  "EX_GUID_FILE_PARAMETERS = GUID_FILE_PARAMETERS"
  "EX_GUID_VIRTUAL_DISK_SIZE = GUID_VIRTUAL_DISK_SIZE_QEMU_COMPAT"
  "EX_GUID_LOGICAL_SECTOR_SIZE = GUID_LOGICAL_SECTOR_SIZE"
  by (simp_all add: EX_BAT_GUID_def BAT_GUID_def EX_METADATA_GUID_def METADATA_GUID_def
      EX_GUID_FILE_PARAMETERS_def GUID_FILE_PARAMETERS_def EX_GUID_VIRTUAL_DISK_SIZE_def
      GUID_VIRTUAL_DISK_SIZE_QEMU_COMPAT_def EX_GUID_LOGICAL_SECTOR_SIZE_def GUID_LOGICAL_SECTOR_SIZE_def)

lemma length_guid [simp]:
  "length BAT_GUID = 16" "length METADATA_GUID = 16" "length GUID_FILE_PARAMETERS = 16"
  "length GUID_VIRTUAL_DISK_SIZE_QEMU_COMPAT = 16" "length GUID_LOGICAL_SECTOR_SIZE = 16"
  by (simp_all add: BAT_GUID_def METADATA_GUID_def GUID_FILE_PARAMETERS_def
      GUID_VIRTUAL_DISK_SIZE_QEMU_COMPAT_def GUID_LOGICAL_SECTOR_SIZE_def)

lemma fields_within:
  "within 4096 (header_fields sq)" "within 65536 table_fields" "within 0x100000 metadata_fields"
  by (simp_all add: header_fields_def table_fields_def metadata_fields_def ex_layout ex_guids)

definition header_body :: "u64 \<Rightarrow> bytes" where
  "header_body sq = writes (header_fields sq) (replicate 4096 0)"

definition table_body :: bytes where
  "table_body = writes table_fields (replicate 65536 0)"

definition metadata_body :: bytes where
  "metadata_body = writes metadata_fields (replicate 0x100000 0)"

lemma length_bodies [simp]:
  "length (header_body sq) = 4096" "length table_body = 65536" "length metadata_body = 0x100000"
  using fields_within by (simp_all add: header_body_def table_body_def metadata_body_def)

lemma unsealed:
  "window (header_body sq) 4 4 = replicate 4 0" "window table_body 4 4 = replicate 4 0"
proof -
  have "apart 4 4 (header_fields sq)" "apart 4 4 table_fields"
    by (simp_all add: header_fields_def table_fields_def)
  then show "window (header_body sq) 4 4 = replicate 4 0" "window table_body 4 4 = replicate 4 0"
    using fields_within
    by (simp_all add: header_body_def table_body_def window_writes_apart window_replicate)
qed

lemma zero_crc_unsealed: "8 \<le> length b \<Longrightarrow> window b 4 4 = replicate 4 0 \<Longrightarrow> zero_crc b = b"
  using overwrite_window_id [of 4 4 b] by (simp add: zero_crc_def)

lemma write_header_eval:
  "write_header sq (replicate 65536 0) = Ok (overwrite (replicate 65536 0) 0 (seal (header_body sq)))"
proof -
  have z: "zero_crc (header_body sq) = header_body sq" by (rule zero_crc_unsealed) (simp_all add: unsealed)
  have body: "put_all (header_fields sq) (replicate 4096 0) = Ok (header_body sq)"
    using fields_within(1) by (simp add: put_all_eval header_body_def)
  show ?thesis
    by (simp add: write_header_def on_slice_def slice_def window_replicate body put_slice_def
        ex_crc32c_eq) (simp add: seal_def z)
qed

lemma write_region_table_eval: "write_region_table (replicate 65536 0) = Ok (seal table_body)"
proof -
  have body: "put_all table_fields (replicate 65536 0) = Ok table_body"
    using fields_within(2) by (simp add: put_all_eval table_body_def)
  show ?thesis
    by (simp add: write_region_table_def body slice_def put_slice_def ex_crc32c_eq seal_def
        zero_crc_def [symmetric])
qed

lemma write_metadata_eval: "write_metadata (replicate 0x100000 0) = Ok metadata_body"
  using fields_within(3) by (simp add: write_metadata_def put_all_eval metadata_body_def)

lemma writes_snoc: "writes (ws @ [w]) d = overwrite (writes ws d) (fst w) (snd w)"
  by (simp add: writes_def)

lemma on_slice_eval:
  assumes "within n ws" and "apart a (b - a) ws" and "a \<le> b" and "b \<le> n"
    and "f (replicate (b - a) 0) = Ok s" and "length s = b - a"
  shows "on_slice (writes ws (replicate n 0)) a b f = Ok (writes (ws @ [(a, s)]) (replicate n 0))"
proof -
  have "window (writes ws (replicate n 0)) a (b - a) = replicate (b - a) 0"
    using assms by (simp add: window_writes_apart window_replicate)
  with assms show ?thesis
    by (simp add: on_slice_def slice_def put_slice_def writes_snoc)
qed

definition header_slot :: "u64 \<Rightarrow> bytes" where
  "header_slot sq = overwrite (replicate 65536 0) 0 (seal (header_body sq))"

definition front_fields :: "(nat \<times> bytes) list" where
  "front_fields =
     [(0, FILE_MAGIC), (0x10000, header_slot 1), (0x20000, header_slot 0),
      (0x30000, seal table_body), (0x40000, seal table_body), (0x200000, metadata_body),
      (0x300000, u64_to_le ex_bat_entry)]"

definition front_matter :: bytes where
  "front_matter = writes front_fields (replicate 0x500000 0)"

lemma length_slots [simp]:
  "length (header_slot sq) = 65536" "length (seal table_body) = 65536" "length FILE_MAGIC = 8"
  by (simp_all add: header_slot_def FILE_MAGIC_def)

lemma front_within: "within 0x500000 front_fields"
  by (simp add: front_fields_def)

text \<open>The front after the first \<open>k\<close> of its writes.\<close>

definition front_after :: "nat \<Rightarrow> bytes" where
  "front_after k = writes (take k front_fields) (replicate 0x500000 0)"

lemma front_step:
  assumes "k' = Suc k" and "k < length front_fields" and "front_fields ! k = (a, s)"
    and "within 0x500000 (take k front_fields)" and "apart a (b - a) (take k front_fields)"
    and "a \<le> b" and "b \<le> 0x500000" and "f (replicate (b - a) 0) = Ok s" and "length s = b - a"
  shows "on_slice (front_after k) a b f = Ok (front_after k')"
  using on_slice_eval [where f = f and a = a and b = b, OF assms(4-9)] assms(1-3)
  by (simp add: front_after_def take_Suc_conv_app_nth)

lemma front_steps:
  "put_slice (replicate 0x500000 0) 0 [0x76, 0x68, 0x64, 0x78, 0x66, 0x69, 0x6C, 0x65] = Ok (front_after 1)"
  "on_slice (front_after 1) 0x10000 0x20000 (write_header 1) = Ok (front_after 2)"
  "on_slice (front_after 2) 0x20000 0x30000 (write_header 0) = Ok (front_after 3)"
  "on_slice (front_after 3) 0x30000 0x40000 write_region_table = Ok (front_after 4)"
  "on_slice (front_after 4) 0x40000 0x50000 write_region_table = Ok (front_after 5)"
  "on_slice (front_after 5) 0x200000 0x300000 write_metadata = Ok (front_after 6)"
  "put_slice (front_after 6) 0x300000 (u64_to_le ex_bat_entry) = Ok front_matter"
proof -
  note parts = front_fields_def write_header_eval header_slot_def [symmetric] write_region_table_eval
    write_metadata_eval
  show "put_slice (replicate 0x500000 0) 0 [0x76, 0x68, 0x64, 0x78, 0x66, 0x69, 0x6C, 0x65] = Ok (front_after 1)"
    by (simp add: put_slice_def FILE_MAGIC_def front_after_def front_fields_def)
  show "on_slice (front_after 1) 0x10000 0x20000 (write_header 1) = Ok (front_after 2)"
    by (rule front_step [where k = 1 and s = "header_slot 1"]) (simp_all add: parts)
  show "on_slice (front_after 2) 0x20000 0x30000 (write_header 0) = Ok (front_after 3)"
    by (rule front_step [where k = 2 and s = "header_slot 0"]) (simp_all add: parts)
  show "on_slice (front_after 3) 0x30000 0x40000 write_region_table = Ok (front_after 4)"
    by (rule front_step [where k = 3 and s = "seal table_body"]) (simp_all add: parts)
  show "on_slice (front_after 4) 0x40000 0x50000 write_region_table = Ok (front_after 5)"
    by (rule front_step [where k = 4 and s = "seal table_body"]) (simp_all add: parts)
  show "on_slice (front_after 5) 0x200000 0x300000 write_metadata = Ok (front_after 6)"
    by (rule front_step [where k = 5 and s = metadata_body]) (simp_all add: parts)
  have "length (front_after 6) = 0x500000"
    by (simp add: front_after_def front_fields_def)
  then show "put_slice (front_after 6) 0x300000 (u64_to_le ex_bat_entry) = Ok front_matter"
    by (simp add: put_slice_def) (simp add: front_after_def front_matter_def front_fields_def)
qed

lemma build_front_eval: "build_front = Ok front_matter"
proof -
  have sizes: "min (unat EX_DATA_OFFSET) (5 * unat EX_MB) = 0x500000" "unat EX_META_OFFSET = 0x200000"
    "unat (EX_META_OFFSET + ucast EX_META_LENGTH) = 0x300000" "unat EX_BAT_OFFSET = 0x300000"
    by (simp_all add: ex_layout)
  show ?thesis unfolding build_front_def Let_def sizes front_steps and_then.simps by (rule refl)
qed

text \<open>The file: the front matter, the hole, and the block with its first byte set.\<close>

definition demo_block :: bytes where
  "demo_block = (replicate 0x2000000 0)[0 := 0x42]"

definition demo_image :: bytes where
  "demo_image = front_matter @ replicate 0xFB00000 0 @ demo_block"

lemma length_demo [simp]:
  "length front_matter = 0x500000" "length demo_block = 0x2000000" "length demo_image = 0x12000000"
  using front_within by (simp_all add: front_matter_def demo_block_def demo_image_def)

lemma write_sparse_vhdx_eval: "write_sparse_vhdx (\<lambda>_. None) = Ok (0x12000000, demo_image)"
  unfolding write_sparse_vhdx_def build_front_eval os_call_def write_out_def
  by (simp add: ex_layout demo_image_def demo_block_def [symmetric])

subsection \<open>The fields of the image\<close>

lemma demo_front: "o1 + n \<le> 0x500000 \<Longrightarrow> window demo_image o1 n = window front_matter o1 n"
  by (simp add: demo_image_def window_append_left)

lemma demo_parts:
  "window demo_image 0 8 = FILE_MAGIC"
  "window demo_image 0x10000 0x1000 = seal (header_body 1)"
  "window demo_image 0x20000 0x1000 = seal (header_body 0)"
  "window demo_image 0x30000 0x10000 = seal table_body"
  "window demo_image 0x40000 0x10000 = seal table_body"
  "window demo_image 0x200000 0x100000 = metadata_body"
  "window demo_image 0x300000 8 = u64_to_le ex_bat_entry"
proof -
  have "spaced front_fields" by (simp add: front_fields_def)
  then have "list_all (\<lambda>w. window front_matter (fst w) (length (snd w)) = snd w) front_fields"
    unfolding front_matter_def using front_within by (intro fields_hold) simp
  then have f: "window demo_image 0 8 = FILE_MAGIC" "window demo_image 0x10000 0x10000 = header_slot 1"
    "window demo_image 0x20000 0x10000 = header_slot 0"
    "window demo_image 0x30000 0x10000 = seal table_body" "window demo_image 0x40000 0x10000 = seal table_body"
    "window demo_image 0x200000 0x100000 = metadata_body"
    "window demo_image 0x300000 8 = u64_to_le ex_bat_entry"
    unfolding front_fields_def by (simp_all add: demo_front)
  then show "window demo_image 0 8 = FILE_MAGIC"
    "window demo_image 0x30000 0x10000 = seal table_body" "window demo_image 0x40000 0x10000 = seal table_body"
    "window demo_image 0x200000 0x100000 = metadata_body"
    "window demo_image 0x300000 8 = u64_to_le ex_bat_entry"
    by simp_all
  have head: "window (header_slot sq) 0 0x1000 = seal (header_body sq)" for sq
    by (simp add: header_slot_def window_overwrite_same)
  show "window demo_image 0x10000 0x1000 = seal (header_body 1)"
    using arg_cong [OF f(2), of "\<lambda>w. window w 0 0x1000"] by (simp add: window_window head)
  show "window demo_image 0x20000 0x1000 = seal (header_body 0)"
    using arg_cong [OF f(3), of "\<lambda>w. window w 0 0x1000"] by (simp add: window_window head)
qed

lemma ex_signatures:
  "[0x68, 0x65, 0x61, 0x64] = HEADER_SIGNATURE" "[0x72, 0x65, 0x67, 0x69] = REGION_TABLE_SIGNATURE"
  "[0x6D, 0x65, 0x74, 0x61, 0x64, 0x61, 0x74, 0x61] = METADATA_TABLE_SIGNATURE"
  by (simp_all add: HEADER_SIGNATURE_def REGION_TABLE_SIGNATURE_def METADATA_TABLE_SIGNATURE_def)

lemma length_signatures [simp]:
  "length HEADER_SIGNATURE = 4" "length REGION_TABLE_SIGNATURE = 4" "length METADATA_TABLE_SIGNATURE = 8"
  by (simp_all add: HEADER_SIGNATURE_def REGION_TABLE_SIGNATURE_def METADATA_TABLE_SIGNATURE_def)

lemma header_body_fields:
  "window (seal (header_body sq)) 0 4 = HEADER_SIGNATURE"
  "window (seal (header_body sq)) 8 8 = u64_to_le sq"
  "window (seal (header_body sq)) 68 4 = u32_to_le 0x100000"
  "window (seal (header_body sq)) 48 16 = replicate 16 0"
proof -
  have "spaced (header_fields sq)" by (simp add: header_fields_def)
  then have "list_all (\<lambda>w. window (header_body sq) (fst w) (length (snd w)) = snd w) (header_fields sq)"
    unfolding header_body_def using fields_within(1) by (intro fields_hold) simp
  then show "window (seal (header_body sq)) 0 4 = HEADER_SIGNATURE"
    "window (seal (header_body sq)) 8 8 = u64_to_le sq"
    "window (seal (header_body sq)) 68 4 = u32_to_le 0x100000"
    by (simp_all add: header_fields_def window_seal ex_signatures ex_layout)
  have "apart 48 16 (header_fields sq)" by (simp add: header_fields_def)
  then show "window (seal (header_body sq)) 48 16 = replicate 16 0"
    using fields_within(1) [of sq]
    by (simp add: window_seal) (simp add: header_body_def window_writes_apart window_replicate)
qed

lemma table_body_fields:
  "window (seal table_body) 0 4 = REGION_TABLE_SIGNATURE"
  "window (seal table_body) 8 4 = u32_to_le 2"
  "window (seal table_body) 16 16 = BAT_GUID"
  "window (seal table_body) 32 8 = u64_to_le 0x300000"
  "window (seal table_body) 40 4 = u32_to_le 0x100000"
  "window (seal table_body) 48 16 = METADATA_GUID"
  "window (seal table_body) 64 8 = u64_to_le 0x200000"
  "window (seal table_body) 72 4 = u32_to_le 0x100000"
proof -
  have "spaced table_fields" by (simp add: table_fields_def ex_guids)
  then have "list_all (\<lambda>w. window table_body (fst w) (length (snd w)) = snd w) table_fields"
    unfolding table_body_def using fields_within(2) by (intro fields_hold) simp
  then show "window (seal table_body) 0 4 = REGION_TABLE_SIGNATURE"
    "window (seal table_body) 8 4 = u32_to_le 2"
    "window (seal table_body) 16 16 = BAT_GUID"
    "window (seal table_body) 32 8 = u64_to_le 0x300000"
    "window (seal table_body) 40 4 = u32_to_le 0x100000"
    "window (seal table_body) 48 16 = METADATA_GUID"
    "window (seal table_body) 64 8 = u64_to_le 0x200000"
    "window (seal table_body) 72 4 = u32_to_le 0x100000"
    by (simp_all add: table_fields_def window_seal ex_signatures ex_layout ex_guids)
qed

lemma metadata_body_fields:
  "window metadata_body 0 8 = METADATA_TABLE_SIGNATURE"
  "window metadata_body 10 2 = to_le 2 3"
  "window metadata_body 32 16 = GUID_FILE_PARAMETERS"
  "window metadata_body 48 4 = u32_to_le 0x200"
  "window metadata_body 52 4 = u32_to_le 8"
  "window metadata_body 64 16 = GUID_VIRTUAL_DISK_SIZE_QEMU_COMPAT"
  "window metadata_body 80 4 = u32_to_le 0x210"
  "window metadata_body 84 4 = u32_to_le 8"
  "window metadata_body 96 16 = GUID_LOGICAL_SECTOR_SIZE"
  "window metadata_body 112 4 = u32_to_le 0x220"
  "window metadata_body 116 4 = u32_to_le 4"
  "window metadata_body 0x200 4 = u32_to_le 0x2000000"
  "window metadata_body 0x204 4 = replicate 4 0"
  "window metadata_body 0x210 8 = u64_to_le 0x100000000"
  "window metadata_body 0x220 4 = u32_to_le 512"
proof -
  have "spaced metadata_fields" by (simp add: metadata_fields_def ex_layout ex_guids)
  then have "list_all (\<lambda>w. window metadata_body (fst w) (length (snd w)) = snd w) metadata_fields"
    unfolding metadata_body_def using fields_within(3) by (intro fields_hold) simp
  then show "window metadata_body 0 8 = METADATA_TABLE_SIGNATURE"
    "window metadata_body 10 2 = to_le 2 3"
    "window metadata_body 32 16 = GUID_FILE_PARAMETERS"
    "window metadata_body 48 4 = u32_to_le 0x200"
    "window metadata_body 52 4 = u32_to_le 8"
    "window metadata_body 64 16 = GUID_VIRTUAL_DISK_SIZE_QEMU_COMPAT"
    "window metadata_body 80 4 = u32_to_le 0x210"
    "window metadata_body 84 4 = u32_to_le 8"
    "window metadata_body 96 16 = GUID_LOGICAL_SECTOR_SIZE"
    "window metadata_body 112 4 = u32_to_le 0x220"
    "window metadata_body 116 4 = u32_to_le 4"
    "window metadata_body 0x200 4 = u32_to_le 0x2000000"
    "window metadata_body 0x210 8 = u64_to_le 0x100000000"
    "window metadata_body 0x220 4 = u32_to_le 512"
    by (simp_all add: metadata_fields_def ex_signatures ex_layout ex_guids)
  have "apart 0x204 4 metadata_fields" by (simp add: metadata_fields_def ex_layout ex_guids)
  then show "window metadata_body 0x204 4 = replicate 4 0"
    using fields_within(3) by (simp add: metadata_body_def window_writes_apart window_replicate)
qed

subsection \<open>Opening the image\<close>

lemma word_at:
  "window d o1 4 = u32_to_le w \<Longrightarrow> o1 + 4 \<le> length d \<Longrightarrow> le_u32 d o1 = w"
  "window d o1 8 = u64_to_le v \<Longrightarrow> o1 + 8 \<le> length d \<Longrightarrow> le_u64 d o1 = v"
  by (simp_all add: le_u32_def le_u64_def u32_to_le_def u64_to_le_def le_nat_to_le
      mod_less [OF unat_u32_bound, simplified] mod_less [OF unat_u64_bound, simplified])

lemma demo_sub:
  "window d base m = b \<Longrightarrow> o1 + n \<le> m \<Longrightarrow> window d (base + o1) n = window b o1 n"
  by (auto simp: window_window)

lemma demo_header:
  "parse_active_header demo_image = Ok (header_at demo_image HEADER1_OFFSET)"
  "log_guid (header_at demo_image HEADER1_OFFSET) = ZERO_GUID"
  "log_length (header_at demo_image HEADER1_OFFSET) = 0x100000"
proof -
  note h1 = demo_sub [OF demo_parts(2)] and h2 = demo_sub [OF demo_parts(3)]
  have valid: "header_valid demo_image HEADER1_OFFSET" "header_valid demo_image HEADER2_OFFSET"
    using demo_parts(2,3) h1 [of 0 4] h2 [of 0 4]
    by (simp_all add: block_valid_def header_layout header_body_fields crc_ok_seal)
  have "sequence_number (header_at demo_image HEADER1_OFFSET) = 1"
    unfolding header_at_def using h1 [of 8 8] header_body_fields(2) [of 1]
    by (simp add: header_layout) (rule word_at(2); simp)
  moreover have "sequence_number (header_at demo_image HEADER2_OFFSET) = 0"
    unfolding header_at_def using h2 [of 8 8] header_body_fields(2) [of 0]
    by (simp add: header_layout) (rule word_at(2); simp)
  ultimately show "parse_active_header demo_image = Ok (header_at demo_image HEADER1_OFFSET)"
    using valid by (simp add: parse_active_header_def parse_header_copies)
  show "log_guid (header_at demo_image HEADER1_OFFSET) = ZERO_GUID"
    using h1 [of 48 16] header_body_fields(4) [of 1]
    by (simp add: header_at_def le_arr16_def header_layout ZERO_GUID_def)
  show "log_length (header_at demo_image HEADER1_OFFSET) = 0x100000"
    unfolding header_at_def using h1 [of 68 4] header_body_fields(3) [of 1]
    by (simp add: header_layout) (rule word_at(1); simp)
qed

lemma demo_log: "apply_log demo_image = Ok demo_image" "log_ok demo_image"
  using demo_header by (simp_all add: apply_log_def log_ok_def replayed_def)

text \<open>A sealed region table that lies in the buffer is accepted when its entries are.\<close>

lemma parse_sealed_table:
  assumes "region_table_valid d off" and "off + 16 < 2 ^ 64"
    and "region_loop (window d off (length d - off)) n
           [0..<min (unat (le_u32 d (off + 8))) REGION_ENTRY_COUNT_MAX] None None = Ok (Some b, Some m)"
  shows "parse_region_table d off n = Ok \<lparr> rt_bat = b, rt_metadata = m \<rparr>"
proof -
  let ?sl = "window d off (length d - off)"
  have len: "off + 65536 \<le> length d" using assms(1) by (simp add: block_valid_def REGION_TABLE_CRC_COVERAGE_def)
  have w: "window ?sl 0 65536 = window d off 65536" "window ?sl 0 4 = window d off 4"
    using len by (simp_all add: window_window)
  have f: "le_u32 ?sl 4 = le_u32 d (off + 4)" "le_u32 ?sl 8 = le_u32 d (off + 8)"
    "le_u32 (window d off 65536) 4 = le_u32 d (off + 4)"
    using len by (simp_all add: le_u32_def window_window)
  have "crc_ok (window d off 65536)" "window d off 4 = REGION_TABLE_SIGNATURE"
    using assms(1) by (simp_all add: block_valid_def REGION_TABLE_CRC_COVERAGE_def)
  then have crc: "block_crc (window d off 65536) = (Ok (le_u32 d (off + 4)) :: u32 result)"
    and sig: "window d off 4 = REGION_TABLE_SIGNATURE"
    using len f by (simp_all add: block_crc_eval crc_ok_def)
  show ?thesis
    using len crc sig assms(2,3) w f
    by (simp add: parse_region_table_def slice_def put_slice_def add_u_def Let_def min_absorb1)
qed

text \<open>The contents that are laid out as the image is, in what opening looks at behind the log.\<close>

definition laid_out :: "bytes \<Rightarrow> bool" where
  "laid_out c \<longleftrightarrow>
     length c = 0x12000000 \<and> window c 0x30000 0x10000 = seal table_body
     \<and> window c 0x200000 0x100000 = metadata_body
     \<and> window c 0x300000 0x100000 = window demo_image 0x300000 0x100000"

lemma demo_laid_out: "laid_out demo_image"
  by (simp add: laid_out_def demo_parts)

lemma laid_out_size: "laid_out c \<Longrightarrow> length c = 0x12000000"
  by (simp add: laid_out_def)

definition head_of :: "bytes \<Rightarrow> bytes" where
  "head_of c = window c 0 MIN_CONTAINER_SIZE"

lemma head_of:
  assumes "laid_out c"
  shows "length (head_of c) = 0x250000" "o1 + n \<le> 0x250000 \<Longrightarrow> window (head_of c) o1 n = window c o1 n"
  using assms by (simp_all add: laid_out_def head_of_def MIN_CONTAINER_SIZE_def window_window)

definition demo_bat_entry :: region_entry where
  "demo_bat_entry = \<lparr> re_guid = BAT_GUID, re_file_offset = 0x300000, re_length = 0x100000 \<rparr>"

definition demo_meta_entry :: region_entry where
  "demo_meta_entry = \<lparr> re_guid = METADATA_GUID, re_file_offset = 0x200000, re_length = 0x100000 \<rparr>"

lemma laid_out_words:
  assumes "laid_out c"
  shows "le_u64 (head_of c) 0x30020 = 0x300000" "le_u32 (head_of c) 0x30028 = 0x100000"
    "le_u64 (head_of c) 0x30040 = 0x200000" "le_u32 (head_of c) 0x30048 = 0x100000"
    "le_u32 (head_of c) 0x30008 = 2"
proof -
  have t: "window c 0x30000 0x10000 = seal table_body" using assms by (simp add: laid_out_def)
  show "le_u64 (head_of c) 0x30020 = 0x300000" "le_u32 (head_of c) 0x30028 = 0x100000"
    "le_u64 (head_of c) 0x30040 = 0x200000" "le_u32 (head_of c) 0x30048 = 0x100000"
    "le_u32 (head_of c) 0x30008 = 2"
    using demo_sub [OF t, of 32 8] demo_sub [OF t, of 40 4] demo_sub [OF t, of 64 8]
      demo_sub [OF t, of 72 4] demo_sub [OF t, of 8 4]
    by (simp_all add: table_body_fields word_at head_of [OF assms])
qed

lemma laid_out_regions:
  assumes "laid_out c"
  shows "parse_region_table (head_of c) REGION_TABLE1_OFFSET (length c)
     = Ok \<lparr> rt_bat = demo_bat_entry, rt_metadata = demo_meta_entry \<rparr>"
proof (rule parse_sealed_table)
  have table: "window c 0x30000 0x10000 = seal table_body" using assms by (simp add: laid_out_def)
  note t = demo_sub [OF table] and size = laid_out_size [OF assms] and h = head_of [OF assms]
    and words_c = laid_out_words [OF assms]
  show "region_table_valid (head_of c) REGION_TABLE1_OFFSET"
    using table t [of 0 4]
    by (simp add: h block_valid_def header_layout REGION_TABLE_CRC_COVERAGE_def table_body_fields crc_ok_seal)
  define sl where "sl = window (head_of c) REGION_TABLE1_OFFSET (length (head_of c) - REGION_TABLE1_OFFSET)"
  have g: "window sl o1 n = window (head_of c) (0x30000 + o1) n" if "o1 + n \<le> 0x220000" for o1 n
    using that by (simp add: sl_def h header_layout window_window)
  have len: "length sl = 0x220000" by (simp add: sl_def h header_layout size)
  have words: "le_u64 sl o1 = le_u64 (head_of c) (0x30000 + o1)" "le_u32 sl o1 = le_u32 (head_of c) (0x30000 + o1)"
    if "o1 \<le> 0x1000" for o1
    using that g [of o1 8] g [of o1 4] by (simp_all add: h le_u64_def le_u32_def len)
  have guids: "window sl 16 16 = BAT_GUID" "window sl 48 16 = METADATA_GUID"
    using g [of 16 16] g [of 48 16] t [of 16 16] t [of 48 16] by (simp_all add: h table_body_fields)
  have count: "min (unat (le_u32 (head_of c) (REGION_TABLE1_OFFSET + 8))) REGION_ENTRY_COUNT_MAX = 2"
    by (simp add: header_layout words_c REGION_ENTRY_COUNT_MAX_def)
  have "region_loop sl (length c) [0, 1] None None = Ok (Some demo_bat_entry, Some demo_meta_entry)"
    using len guids
    by (simp add: Let_def REGION_ENTRY_SIZE_def slice_def words words_c checked_add_def size
        guids_differ demo_bat_entry_def demo_meta_entry_def)
  then show "region_loop (window (head_of c) REGION_TABLE1_OFFSET (length (head_of c) - REGION_TABLE1_OFFSET)) (length c)
      [0..<min (unat (le_u32 (head_of c) (REGION_TABLE1_OFFSET + 8))) REGION_ENTRY_COUNT_MAX] None None
      = Ok (Some demo_bat_entry, Some demo_meta_entry)"
    unfolding count sl_def [symmetric] by (simp add: upt_rec)
qed (simp add: header_layout)

definition demo_meta :: vhdx_metadata where
  "demo_meta = \<lparr> block_size = 0x2000000, has_parent = False, virtual_disk_size = 0x100000000,
                 logical_sector_size = 512 \<rparr>"

lemma demo_metadata: "parse_metadata metadata_body 0 0x100000 = Ok demo_meta"
proof -
  note f = metadata_body_fields
  have words: "le_u32 metadata_body 48 = 0x200" "le_u32 metadata_body 52 = 8"
    "le_u32 metadata_body 80 = 0x210" "le_u32 metadata_body 84 = 8"
    "le_u32 metadata_body 112 = 0x220" "le_u32 metadata_body 116 = 4"
    by (simp_all add: f word_at)
  have "le_nat (to_le 2 3) = 3" by (simp add: le_nat_to_le)
  then have count: "le_u16 metadata_body 10 = 3" using f(2) by (simp add: le_u16_def)
  define fp vds lss where "fp = window metadata_body 0x200 8" and "vds = window metadata_body 0x210 8"
    and "lss = window metadata_body 0x220 4"
  have w: "window fp 0 4 = u32_to_le 0x2000000" "window fp 4 4 = replicate 4 0"
    "window vds 0 8 = u64_to_le 0x100000000" "window lss 0 4 = u32_to_le 512"
    using f by (simp_all add: fp_def vds_def lss_def window_window)
  have len: "length fp = 8" "length vds = 8" "length lss = 4"
    by (simp_all add: fp_def vds_def lss_def)
  have "le_u32 fp 4 = 0" using w(2) len by (simp add: le_u32_def)
  moreover have "le_u32 fp 0 = 0x2000000" "le_u64 vds 0 = 0x100000000" "le_u32 lss 0 = 512"
    using w len by (simp_all add: word_at)
  ultimately have items: "apply_item GUID_LOGICAL_SECTOR_SIZE lss
      (apply_item GUID_VIRTUAL_DISK_SIZE_QEMU_COMPAT vds (apply_item GUID_FILE_PARAMETERS fp no_items))
      = \<lparr> mi_block_size = Some 0x2000000, mi_has_parent = False,
          mi_virtual_disk_size = Some 0x100000000, mi_logical_sector_size = Some 512 \<rparr>"
    using len by (simp add: apply_item_def no_items_def item_guids_apart)
  have loop: "metadata_loop metadata_body 0 metadata_body [0, 1, 2] no_items
      = Ok (apply_item GUID_LOGICAL_SECTOR_SIZE lss
          (apply_item GUID_VIRTUAL_DISK_SIZE_QEMU_COMPAT vds (apply_item GUID_FILE_PARAMETERS fp no_items)))"
    by (simp add: slice_def words f add_u_def fp_def vds_def lss_def Let_def)
  have upto: "[0..<unat (le_u16 metadata_body 10)] = [0, 1, 2]" unfolding count by (simp add: upt_rec)
  show ?thesis
    unfolding parse_metadata_def Let_def
    by (simp add: add_u_def slice_def f(1) upto loop items demo_meta_def del: metadata_loop.simps One_nat_def)
qed

lemma demo_validate: "validate demo_meta = Ok ()"
proof -
  have "count_ones 0x2000000 = 1" by (simp add: count_ones_def upt_rec)
  then show ?thesis
    by (simp add: validate_def demo_meta_def BLOCK_SIZE_MIN_def BLOCK_SIZE_MAX_def VALID_SECTOR_SIZES_def
        VIRTUAL_DISK_SIZE_MAX_def mod_u_def)
qed

definition demo_bat :: bat where
  "demo_bat = \<lparr> bat_entries = ex_bat_entry # replicate 131071 0, bat_meta = demo_meta, region_offset = 0 \<rparr>"

lemma demo_bat_words:
  "le_u64 (window demo_image 0x300000 0x100000) 0 = ex_bat_entry"
  "0 < i \<Longrightarrow> i < 131072 \<Longrightarrow> le_u64 (window demo_image 0x300000 0x100000) (i * 8) = 0"
proof -
  show "le_u64 (window demo_image 0x300000 0x100000) 0 = ex_bat_entry"
    by (rule word_at(2)) (simp_all add: window_window demo_parts(7))
  assume i: "0 < i" "i < 131072"
  then have "apart (0x300000 + i * 8) 8 front_fields" by (simp add: front_fields_def)
  then have "window demo_image (0x300000 + i * 8) 8 = replicate 8 0"
    using i front_within
    by (simp add: demo_front front_matter_def window_writes_apart window_replicate)
  then show "le_u64 (window demo_image 0x300000 0x100000) (i * 8) = 0"
    using i by (simp add: le_u64_def window_window)
qed

lemma demo_parse_bat:
  "parse_bat (window demo_image 0x300000 0x100000) 0 0x100000 demo_meta = Ok demo_bat"
proof -
  have "map (\<lambda>i. le_u64 (window demo_image 0x300000 0x100000) (i * 8)) [0..<131072]
      = ex_bat_entry # replicate 131071 0"
  proof (rule nth_equalityI)
    fix i assume "i < length (map (\<lambda>i. le_u64 (window demo_image 0x300000 0x100000) (i * 8)) [0..<131072])"
    then show "map (\<lambda>i. le_u64 (window demo_image 0x300000 0x100000) (i * 8)) [0..<131072] ! i
        = (ex_bat_entry # replicate 131071 0) ! i"
      using demo_bat_words by (cases "i = 0") (simp_all add: nth_Cons')
  qed simp
  then show ?thesis
    by (simp add: parse_bat_def add_u_def slice_def demo_bat_def Let_def)
qed

text \<open>Opening succeeds, whatever the backing.\<close>

definition demo_disk :: disk where
  "demo_disk = Disk demo_image demo_bat None"

lemma open_laid_out:
  assumes "laid_out c"
  shows "open_content c None = Ok (Disk c demo_bat None)"
proof -
  have regions: "region_bytes c demo_meta_entry = Ok metadata_body"
    "region_bytes c demo_bat_entry = Ok (window demo_image 0x300000 0x100000)"
    using assms
    by (simp_all add: laid_out_def region_bytes_def entry_end_def demo_meta_entry_def demo_bat_entry_def)
  have lens: "re_length demo_meta_entry = 0x100000" "re_length demo_bat_entry = 0x100000"
    by (simp_all add: demo_meta_entry_def demo_bat_entry_def)
  have parent: "\<not> has_parent demo_meta" by (simp add: demo_meta_def)
  show ?thesis
    unfolding open_content_def Let_def head_of_def [symmetric] laid_out_regions [OF assms]
    using lens parent by (simp add: regions demo_metadata demo_validate demo_parse_bat)
qed

lemma open_demo: "open_disk demo_image None = Ok demo_disk"
  using open_laid_out [OF demo_laid_out]
  by (simp add: open_disk_def demo_parts(1) MIN_CONTAINER_SIZE_def demo_log demo_disk_def)

subsection \<open>Reading it back\<close>

definition demo_byte :: "nat \<Rightarrow> u8" where
  "demo_byte v = (if v = 0 then 0x42 else 0)"

lemma demo_geometry:
  "block_bytes demo_meta = 0x2000000" "ratio demo_meta = 128" "disk_bytes demo_meta = 2 ^ 32"
  "disk_size demo_disk = 2 ^ 32"
  by (simp_all add: block_bytes_def ratio_def sector_bytes_def disk_bytes_def demo_meta_def
      disk_size_def disk_meta_def demo_disk_def demo_bat_def)

lemma demo_image_block: "v < 0x2000000 \<Longrightarrow> demo_image ! (0x10000000 + v) = demo_byte v"
  by (simp add: demo_image_def nth_append demo_block_def demo_byte_def nth_list_update)

lemma demo_disk_byte:
  assumes "v < 2 ^ 32"
  shows "disk_byte demo_disk v = Ok (demo_byte v)"
proof -
  let ?blk = "v div 0x2000000"
  have blk: "?blk < 128" using assms by (simp add: div_less_iff_less_mult)
  have e: "entry_state ex_bat_entry = 6" "entry_offset_mb ex_bat_entry * MIB = 0x10000000"
    by (simp_all add: entry_state_def entry_offset_mb_def ex_layout MIB_def)
  show ?thesis
  proof (cases "?blk = 0")
    case True
    then have v: "v < 0x2000000" by (simp add: div_eq_0_iff)
    then have "bat_lookup demo_bat v = Ok (File (0x10000000 + v))"
      using e by (simp add: bat_lookup_def demo_bat_def demo_geometry Let_def payload_index_def list_get_def)
    then show ?thesis
      using demo_image_block [OF v] v by (simp add: demo_disk_def disk_byte_eq file_byte_def)
  next
    case False
    then have "(ex_bat_entry # replicate 131071 0) ! ?blk = 0" using blk by (simp add: nth_Cons')
    then have "bat_lookup demo_bat v = Ok Parent"
      using blk by (simp add: bat_lookup_def demo_bat_def demo_geometry Let_def payload_index_def
          list_get_def entry_state_def)
    moreover have "v \<noteq> 0" using False by auto
    ultimately show ?thesis by (simp add: demo_disk_def disk_byte_eq parent_byte_def demo_byte_def)
  qed
qed

text \<open>\<open>read\<close> satisfies the contract of the parents' reads for every chain, so \<open>read_exact\<close> over
  it delivers the bytes of the disk.\<close>

interpretation whole: disk_reads read k for k
  by unfold_locales (rule read_delivers)

definition serves :: "vhdx_reader \<Rightarrow> nat \<Rightarrow> (nat \<Rightarrow> u8) \<Rightarrow> bool" where
  "serves r len g \<longleftrightarrow>
     unat (reader_disk_size r) = len
     \<and> (\<forall>p n. p + n \<le> len \<longrightarrow>
          fst (read_exact read (snd (seek r (SeekStart p))) n) = Ok (map g [p..<p + n]))"

lemma seek_start: "p < 2 ^ 63 \<Longrightarrow> seek r (SeekStart p) = (Ok p, set_pos p r)"
  by (simp add: seek_def as_i64_def)

lemma represents_serves:
  assumes r: "represents r q" and bytes: "\<And>v. v < disk_size q \<Longrightarrow> disk_byte q v = Ok (g v)"
  shows "serves r (disk_size q) g"
proof -
  have size: "unat (reader_disk_size r) = disk_size q"
    using represents_meta [OF r] by (simp add: reader_disk_size_def disk_size_def disk_bytes_def)
  have "disk_size q < 2 ^ 63"
    using r by (cases r; cases q) (auto simp: disk_size_def disk_meta_def metadata_ok_def disk_bytes_def)
  moreover have "fst (read_exact read (set_pos p r) n) = Ok (map g [p..<p + n])"
    if n: "p + n \<le> disk_size q" for p n
  proof -
    obtain p' where "read_exact read (set_pos p r) n
        = (collect (map (parent_byte (Some q)) [p..<p + n]), p')"
      using whole.read_exact_law [of "set_pos p r" q "Suc (disk_depth q)" n] r by auto
    moreover have "map (parent_byte (Some q)) [p..<p + n] = map (\<lambda>v. Ok (g v)) [p..<p + n]"
      using n bytes by (auto simp: parent_byte_def)
    ultimately show ?thesis by simp
  qed
  ultimately show ?thesis using size seek_start by (simp add: serves_def)
qed

lemma demo_opens:
  assumes "opens (m :: vhdx_reader result) (open_disk demo_image None)"
  shows "\<exists>r. m = Ok r \<and> serves r (2 ^ 32) demo_byte"
proof -
  obtain r where r: "m = Ok r" "represents r demo_disk"
    using assms unfolding open_demo by (cases m) auto
  have "serves r (disk_size demo_disk) demo_byte"
    by (rule represents_serves [OF r(2)]) (simp add: demo_geometry demo_disk_byte)
  then show ?thesis using r(1) by (simp add: demo_geometry)
qed

lemma write_sparse_vhdx_cases:
  "(\<exists>c e. fault c = Some e \<and> write_sparse_vhdx fault = Err e)
   \<or> (\<forall>c. fault c = None) \<and> write_sparse_vhdx fault = Ok (0x12000000, demo_image)"
proof (cases "\<forall>c. fault c = None")
  case True
  then have "fault = (\<lambda>_. None)" by auto
  then show ?thesis using write_sparse_vhdx_eval by simp
next
  case False
  then obtain c e where "fault c = Some e" by auto
  then show ?thesis
    by (cases c; cases "fault CreateFile"; cases "fault WriteFront"; cases "fault SeekData";
        cases "fault WriteBlock"; cases "fault Flush")
      (auto simp: write_sparse_vhdx_def build_front_eval os_call_def Let_def)
qed

lemma progressing_opens:
  assumes "progressing f" and "length (os_content f) < 2 ^ 63" and "log_ok (os_content f)"
  shows "opens (open_file f) (open_disk (os_content f) None)"
  unfolding open_file_def from_backing_def
  by (rule parse_backing_opens [OF faithful_file]) (use assms in simp_all)

lemma demo_file_opens:
  "progressing f \<Longrightarrow> os_content f = demo_image \<Longrightarrow> \<exists>r. open_file f = Ok r \<and> serves r (2 ^ 32) demo_byte"
  using progressing_opens [of f] by (intro demo_opens) (simp add: demo_log)

subsection \<open>Properties\<close>

text \<open>C11: The image that the example writes is one the reader opens, from the file and from its
  bytes, whatever short or interrupted reads the operating system answers with; every range of
  the virtual disk then reads back as it was written: the first byte set, the other
  \<open>2 ^ 32 - 1\<close> zero, whether their block is present or absent.\<close>

theorem written_image_reads_back:
  assumes "write_sparse_vhdx fault = Ok (len, os_content f)" and "progressing f"
  shows "len = length (os_content f)
    \<and> (\<exists>r. open_file f = Ok r \<and> serves r (2 ^ 32) (\<lambda>v. if v = 0 then 0x42 else 0))
    \<and> (\<exists>r. from_bytes (os_content f) = Ok r \<and> serves r (2 ^ 32) (\<lambda>v. if v = 0 then 0x42 else 0))"
proof -
  have image: "len = 0x12000000" "os_content f = demo_image"
    using assms(1) write_sparse_vhdx_cases [of fault] by auto
  have "opens (from_bytes demo_image) (open_disk demo_image None)"
    unfolding from_bytes_def by (rule parse_bytes_opens) simp_all
  from demo_opens [OF this] demo_file_opens [OF assms(2) image(2)] show ?thesis
    by (simp add: image demo_byte_def [abs_def])
qed

theorem written_image_reads_back_witness:
  "\<exists>r. open_file (slow_file demo_image) = Ok r \<and> serves r (2 ^ 32) (\<lambda>v. if v = 0 then 0x42 else 0)"
proof -
  have "write_sparse_vhdx (\<lambda>_. None) = Ok (0x12000000, os_content (slow_file demo_image))"
    by (simp add: write_sparse_vhdx_eval slow_file_def)
  from written_image_reads_back [OF this slow_progressing] show ?thesis by simp
qed

text \<open>C39: The demonstration succeeds exactly when no call on the file it writes fails and the
  resident set grows by less than the 288 MiB of the file; none of its \<open>expect\<close>, index and
  assertion on the byte read back can fail otherwise.\<close>

theorem demonstration_succeeds:
  assumes "\<And>d. length d < 2 ^ 64 \<Longrightarrow> progressing (os d) \<and> os_content (os d) = d"
  shows "demo fault os rss_before rss_after =
    (if (\<forall>c. fault c = None) \<and> rss_after - rss_before < 288 * 1024
     then Ok (demo_lines (2 ^ 32) (288 * 2 ^ 20) rss_before rss_after) else Panic)"
proof (cases "\<forall>c. fault c = None")
  case True
  then have w: "write_sparse_vhdx fault = Ok (0x12000000, demo_image)"
    using write_sparse_vhdx_cases [of fault] by auto
  have f: "progressing (os demo_image)" "os_content (os demo_image) = demo_image"
    using assms [of demo_image] by simp_all
  from demo_file_opens [OF f] obtain r where r: "open_file (os demo_image) = Ok r"
    "serves r (2 ^ 32) demo_byte" by blast
  define buf where "buf = map demo_byte [0..<0x800000]"
  have "fst (read_exact read (set_pos 0 r) (8 * unat EX_MB)) = Ok buf"
    using r(2) seek_start [of 0 r] unfolding serves_def buf_def
    by (elim conjE allE [of _ 0] allE [of _ "0x800000"]) (simp add: ex_layout)
  moreover have "0 < length buf" "buf ! 0 = 0x42" by (simp_all add: buf_def demo_byte_def)
  ultimately show ?thesis
    using True r unfolding demo_def w
    by (simp add: seek_start Let_def serves_def)
next
  case False
  then obtain e where "write_sparse_vhdx fault = Err e"
    using write_sparse_vhdx_cases [of fault] by auto
  then show ?thesis unfolding demo_def if_not_P [OF False] using False by simp
qed

theorem demonstration_succeeds_witness:
  "demo (\<lambda>_. None) slow_file 5000 20000 = (Ok (demo_lines (2 ^ 32) (288 * 2 ^ 20) 5000 20000) :: string list result)"
proof -
  have "progressing (slow_file d) \<and> os_content (slow_file d) = d" if "length d < 2 ^ 64" for d
    using slow_progressing [OF that] by (simp add: slow_file_def)
  from demonstration_succeeds [OF this, of "\<lambda>_. None" 5000 20000] show ?thesis by simp
qed

end
