(* ===== verification/Dirty.thy ===== *)
theory Dirty
  imports Example
begin

text \<open>
  An image with a dirty log, on which the theorems about replay are instantiated: the image of
  theory \<open>Example\<close>, with a log GUID in its first header and one log entry that writes one sector.
\<close>

definition dirty_guid :: bytes where "dirty_guid = replicate 16 0xD1"

text \<open>A log entry with one data descriptor, sealed.\<close>

definition entry_fields :: "u64 \<Rightarrow> bytes \<Rightarrow> (nat \<times> bytes) list" where
  "entry_fields off sec =
     [(0, LOG_ENTRY_SIGNATURE), (8, u32_to_le 4192), (16, u64_to_le 1), (24, u32_to_le 1),
      (32, dirty_guid), (64, DESC_SIGNATURE), (88, u64_to_le off), (96, sec)]"

definition sector_entry :: "u64 \<Rightarrow> bytes \<Rightarrow> bytes" where
  "sector_entry off sec = seal (writes (entry_fields off sec) (replicate 4192 0))"

definition dirty_header :: bytes where
  "dirty_header = seal (overwrite (header_body 1) 48 dirty_guid)"

definition dirty_image :: "u64 \<Rightarrow> bytes \<Rightarrow> bytes" where
  "dirty_image off sec = writes [(0x10000, dirty_header), (0x100000, sector_entry off sec)] demo_image"

lemma length_log_parts [simp]:
  "length dirty_guid = 16" "length LOG_ENTRY_SIGNATURE = 4" "length DESC_SIGNATURE = 4"
  "length dirty_header = 0x1000"
  by (simp_all add: dirty_guid_def LOG_ENTRY_SIGNATURE_def DESC_SIGNATURE_def dirty_header_def)

subsection \<open>The entry\<close>

lemma entry_within: "length sec = 4096 \<Longrightarrow> within 4192 (entry_fields off sec)"
  by (simp add: entry_fields_def)

lemma length_sector_entry [simp]: "length sec = 4096 \<Longrightarrow> length (sector_entry off sec) = 4192"
  using entry_within by (simp add: sector_entry_def)

lemma entry_windows:
  assumes "length sec = 4096"
  shows "window (sector_entry off sec) 0 4 = LOG_ENTRY_SIGNATURE"
    "window (sector_entry off sec) 8 4 = u32_to_le 4192"
    "window (sector_entry off sec) 24 4 = u32_to_le 1"
    "window (sector_entry off sec) 32 16 = dirty_guid"
    "window (sector_entry off sec) 64 4 = DESC_SIGNATURE"
    "window (sector_entry off sec) 88 8 = u64_to_le off"
    "window (sector_entry off sec) 96 4096 = sec"
proof -
  have "spaced (entry_fields off sec)" by (simp add: entry_fields_def)
  then have "list_all (\<lambda>w. window (writes (entry_fields off sec) (replicate 4192 0)) (fst w) (length (snd w)) = snd w)
      (entry_fields off sec)"
    using entry_within [OF assms] by (intro fields_hold) simp
  then show "window (sector_entry off sec) 0 4 = LOG_ENTRY_SIGNATURE"
    "window (sector_entry off sec) 8 4 = u32_to_le 4192"
    "window (sector_entry off sec) 24 4 = u32_to_le 1"
    "window (sector_entry off sec) 32 16 = dirty_guid"
    "window (sector_entry off sec) 64 4 = DESC_SIGNATURE"
    "window (sector_entry off sec) 88 8 = u64_to_le off"
    "window (sector_entry off sec) 96 4096 = sec"
    using assms entry_within [OF assms, of off]
    by (simp_all add: entry_fields_def sector_entry_def window_seal)
qed

lemma entry_words:
  assumes "length sec = 4096"
  shows "le_u32 (sector_entry off sec) 8 = 4192" "descriptor_count (sector_entry off sec) = 1"
    "le_arr16 (sector_entry off sec) 32 = dirty_guid" "le_u64 (sector_entry off sec) 88 = off"
    "crc_ok (sector_entry off sec)"
proof -
  note w = entry_windows [OF assms]
  have len: "length (sector_entry off sec) = 4192" using assms by simp
  show "le_u32 (sector_entry off sec) 8 = 4192" using w(2) len by (intro word_at(1)) simp_all
  have "le_u32 (sector_entry off sec) 24 = 1" using w(3) len by (intro word_at(1)) simp_all
  then show "descriptor_count (sector_entry off sec) = 1" by (simp add: descriptor_count_def)
  show "le_arr16 (sector_entry off sec) 32 = dirty_guid" using w(4) len by (simp add: le_arr16_def get_or_zero_def)
  show "le_u64 (sector_entry off sec) 88 = off" using w(6) len by (intro word_at(2)) simp_all
  show "crc_ok (sector_entry off sec)"
    unfolding sector_entry_def using entry_within [OF assms] by (intro crc_ok_seal) simp
qed

text \<open>A log that holds the entry and then no other.\<close>

lemma collect_one:
  assumes sec: "length sec = 4096" and log: "window log 0 4192 = sector_entry off sec"
    and rest: "window log 4192 4 = replicate 4 0" and len: "4256 \<le> length log"
  shows "collect_entries log dirty_guid = [sector_entry off sec]"
proof -
  have sub: "window log o1 n = window (sector_entry off sec) o1 n" if "o1 + n \<le> 4192" for o1 n
    using demo_sub [of log 0 4192 _ o1 n] log that by simp
  have n: "log_entry_len log 0 = 4192"
    using sub [of 8 4] entry_windows(2) [OF sec] len word_at(1) [of log 8 4192] by (simp add: log_entry_len_def)
  then have e: "log_entry_at log 0 = sector_entry off sec" by (simp add: log_entry_at_def log)
  have fits: "entry_fits log 0"
    using sub [of 0 4] entry_windows(1) [OF sec] len n by (simp add: entry_fits_def)
  have "hd (replicate 4 (0 :: u8)) \<noteq> hd LOG_ENTRY_SIGNATURE" by (simp add: LOG_ENTRY_SIGNATURE_def)
  then have differs: "replicate 4 0 \<noteq> LOG_ENTRY_SIGNATURE" by metis
  have stop: "\<not> entry_fits log 4192"
    using rest differs by (simp add: entry_fits_def)
  have "collect_loop log dirty_guid 4192 = []" using stop by (subst collect_loop_step) simp
  then have "collect_loop log dirty_guid 0 = [(le_u64 (sector_entry off sec) 16, sector_entry off sec)]"
    using fits entry_words [OF sec] by (subst collect_loop_step) (simp add: n e)
  then show ?thesis by (simp add: collect_entries_def)
qed

subsection \<open>The image\<close>

lemma dirty_writes:
  assumes "length sec = 4096"
  shows "length (dirty_image off sec) = 0x12000000"
    "window (dirty_image off sec) 0x10000 0x1000 = dirty_header"
    "window (dirty_image off sec) 0x100000 4192 = sector_entry off sec"
    "apart o1 n [(0x10000, dirty_header), (0x100000, sector_entry off sec)] \<Longrightarrow>
      window (dirty_image off sec) o1 n = window demo_image o1 n"
proof -
  let ?ws = "[(0x10000, dirty_header), (0x100000, sector_entry off sec)]"
  have ws: "within (length demo_image) ?ws" "spaced ?ws" using assms by simp_all
  show "length (dirty_image off sec) = 0x12000000"
    unfolding dirty_image_def using length_writes [OF ws(1)] by simp
  show "window (dirty_image off sec) 0x10000 0x1000 = dirty_header"
    "window (dirty_image off sec) 0x100000 4192 = sector_entry off sec"
    using fields_hold [OF ws] assms by (simp_all add: dirty_image_def)
  show "window (dirty_image off sec) o1 n = window demo_image o1 n" if "apart o1 n ?ws"
    unfolding dirty_image_def by (rule window_writes_apart [OF ws(1) that])
qed

lemma dirty_header_fields:
  "window dirty_header 0 4 = HEADER_SIGNATURE" "window dirty_header 8 8 = u64_to_le 1"
  "window dirty_header 48 16 = dirty_guid" "window dirty_header 68 4 = u32_to_le 0x100000"
  "window dirty_header 72 8 = u64_to_le 0x100000" "crc_ok dirty_header"
proof -
  have "spaced (header_fields 1)" by (simp add: header_fields_def)
  then have "list_all (\<lambda>w. window (header_body 1) (fst w) (length (snd w)) = snd w) (header_fields 1)"
    unfolding header_body_def using fields_within(1) by (intro fields_hold) simp
  then show "window dirty_header 0 4 = HEADER_SIGNATURE" "window dirty_header 8 8 = u64_to_le 1"
    "window dirty_header 68 4 = u32_to_le 0x100000" "window dirty_header 72 8 = u64_to_le 0x100000"
    by (simp_all add: dirty_header_def window_seal window_overwrite_disjoint header_fields_def
        ex_signatures ex_layout)
  show "window dirty_header 48 16 = dirty_guid"
    by (simp add: dirty_header_def window_seal window_overwrite_same)
  show "crc_ok dirty_header" by (simp add: dirty_header_def crc_ok_seal)
qed

definition dirty_log_header :: "bytes \<Rightarrow> vhdx_header" where
  "dirty_log_header d = header_at d HEADER1_OFFSET"

lemma dirty_active_header:
  assumes "length sec = 4096"
  shows "parse_active_header (dirty_image off sec) = Ok (dirty_log_header (dirty_image off sec))"
    "log_guid (dirty_log_header (dirty_image off sec)) = dirty_guid"
    "log_length (dirty_log_header (dirty_image off sec)) = 0x100000"
    "log_offset (dirty_log_header (dirty_image off sec)) = 0x100000"
proof -
  let ?d = "dirty_image off sec"
  note size = dirty_writes(1) [OF assms, of off]
  have copy2: "window ?d 0x20000 0x1000 = seal (header_body 0)"
    using dirty_writes(4) [OF assms, of "0x20000" "0x1000" off] demo_parts(3) assms by simp
  note h1 = demo_sub [OF dirty_writes(2) [OF assms, of off]] and h2 = demo_sub [OF copy2]
  have valid: "header_valid ?d HEADER1_OFFSET" "header_valid ?d HEADER2_OFFSET"
    using dirty_writes(2) [OF assms, of off] copy2 h1 [of 0 4] h2 [of 0 4]
    by (simp_all add: size block_valid_def header_layout dirty_header_fields header_body_fields crc_ok_seal)
  have "sequence_number (header_at ?d HEADER1_OFFSET) = 1"
    unfolding header_at_def using h1 [of 8 8] dirty_header_fields(2)
    by (simp add: header_layout) (rule word_at(2); simp add: size)
  moreover have "sequence_number (header_at ?d HEADER2_OFFSET) = 0"
    unfolding header_at_def using h2 [of 8 8] header_body_fields(2) [of 0]
    by (simp add: header_layout) (rule word_at(2); simp add: size)
  ultimately show "parse_active_header ?d = Ok (dirty_log_header ?d)"
    using valid by (simp add: dirty_log_header_def parse_active_header_def parse_header_copies)
  show "log_guid (dirty_log_header ?d) = dirty_guid"
    using h1 [of 48 16] dirty_header_fields(3)
    by (simp add: dirty_log_header_def header_at_def le_arr16_def get_or_zero_def size header_layout)
  show "log_length (dirty_log_header ?d) = 0x100000"
    unfolding dirty_log_header_def header_at_def using h1 [of 68 4] dirty_header_fields(4)
    by (simp add: header_layout) (rule word_at(1); simp add: size)
  show "log_offset (dirty_log_header ?d) = 0x100000"
    unfolding dirty_log_header_def header_at_def using h1 [of 72 8] dirty_header_fields(5)
    by (simp add: header_layout) (rule word_at(2); simp add: size)
qed

lemma dirty_replayed:
  assumes "length sec = 4096"
  shows "replayed (dirty_image off sec) (dirty_log_header (dirty_image off sec)) = [sector_entry off sec]"
proof -
  let ?d = "dirty_image off sec" and ?log = "window (dirty_image off sec) 0x100000 0x100000"
  note size = dirty_writes(1) [OF assms, of off]
  have "window ?d 0x101060 4 = window demo_image 0x101060 4"
    using dirty_writes(4) [OF assms, of "0x101060" 4 off] assms by simp
  also have "\<dots> = replicate 4 0"
  proof -
    have "apart 0x101060 4 front_fields" by (simp add: front_fields_def)
    then show ?thesis using front_within
      by (simp add: demo_front front_matter_def window_writes_apart window_replicate)
  qed
  finally have rest: "window ?log 4192 4 = replicate 4 0" by (simp add: window_window)
  have "window ?log 0 4192 = sector_entry off sec"
    using dirty_writes(3) [OF assms, of off] by (simp add: window_window)
  from collect_one [OF assms this rest] have "collect_entries ?log dirty_guid = [sector_entry off sec]"
    by (simp add: size)
  moreover have "dirty_guid \<noteq> ZERO_GUID" by (simp add: dirty_guid_def ZERO_GUID_def)
  ultimately show ?thesis
    using dirty_active_header [OF assms, of off] by (simp add: replayed_def size)
qed

lemma dirty_log_ok:
  assumes "length sec = 4096" and "unat off + 4096 \<le> 0x12000000"
  shows "log_ok (dirty_image off sec)"
proof -
  let ?e = "sector_entry off sec" and ?w = "window (sector_entry off sec) 64 32"
  have w: "window ?w 0 4 = DESC_SIGNATURE" "le_u64 ?w 24 = off"
    using entry_windows(5,6) [OF assms(1), of off] entry_words(4) [OF assms(1), of off] assms(1)
    by (simp_all add: window_window le_u64_def)
  have "DESC_SIGNATURE \<noteq> ZERO_SIGNATURE" by (simp add: DESC_SIGNATURE_def ZERO_SIGNATURE_def)
  then have "descriptor_ok 0x12000000 ?e 0"
    using w assms by (simp add: descriptor_ok_def Let_def)
  then have "entry_ok 0x12000000 ?e"
    using entry_words(2) [OF assms(1), of off] by (simp add: entry_ok_def)
  then show ?thesis
    using dirty_active_header(1) [OF assms(1), of off] dirty_replayed [OF assms(1), of off]
      dirty_writes(1) [OF assms(1), of off]
    by (simp add: log_ok_def)
qed

lemma dirty_backing:
  assumes "length sec = 4096"
  shows "faithful_backing (BackingFile (slow_file (dirty_image off sec))) (dirty_image off sec)"
proof -
  have "progressing (slow_file (dirty_image off sec))"
    by (rule slow_progressing) (simp add: dirty_writes(1) [OF assms])
  from faithful_file [OF this] show ?thesis by (simp add: slow_file_def)
qed

subsection \<open>What the replay commits\<close>

text \<open>The sector replaces the start of the only block of the disk.\<close>

definition sevens :: bytes where "sevens = replicate 4096 7"

definition dirty_disk :: bytes where "dirty_disk = dirty_image 0x10000000 sevens"

definition replayed_disk :: bytes where "replayed_disk = overwrite dirty_disk 0x10000000 sevens"

lemma length_sevens [simp]: "length sevens = 4096"
  by (simp add: sevens_def)

lemma length_dirty_disk [simp]: "length dirty_disk = 0x12000000"
  by (simp add: dirty_disk_def dirty_writes)

lemma dirty_apply: "apply_log dirty_disk = Ok replayed_disk"
proof -
  let ?e = "sector_entry 0x10000000 sevens"
  have "apply_entry dirty_disk ?e = Ok replayed_disk"
    using sector_entry_applied(1) [of ?e "0x10000000" dirty_disk] entry_words [of sevens "0x10000000"]
      entry_windows [of sevens "0x10000000"]
    by (simp add: replayed_disk_def)
  then show ?thesis
    using replayed_run(1) [OF dirty_backing [of sevens "0x10000000"] _ dirty_active_header(1)]
      dirty_replayed [of sevens "0x10000000"]
    by (simp add: dirty_disk_def [symmetric])
qed

lemma replayed_laid_out: "laid_out replayed_disk"
proof -
  have "window replayed_disk o1 n = window demo_image o1 n"
    if "apart o1 n [(0x10000, dirty_header), (0x100000, sector_entry 0x10000000 sevens)]" "o1 + n \<le> 0x10000000"
    for o1 n
    using that dirty_writes(4) [OF length_sevens that(1)]
    by (simp add: replayed_disk_def window_overwrite_disjoint dirty_disk_def [symmetric])
  then show ?thesis by (simp add: laid_out_def demo_parts) (simp add: replayed_disk_def)
qed

lemma open_dirty: "open_disk dirty_disk None = Ok (Disk replayed_disk demo_bat None)"
proof -
  have "window dirty_disk 0 8 = FILE_MAGIC"
    using dirty_writes(4) [OF length_sevens, of 0 8 "0x10000000"] demo_parts(1) by (simp add: dirty_disk_def)
  then show ?thesis
    using open_laid_out [OF replayed_laid_out] by (simp add: open_disk_def MIN_CONTAINER_SIZE_def dirty_apply)
qed

lemma dirty_size: "disk_size (Disk replayed_disk demo_bat None) = 2 ^ 32"
  by (simp add: disk_size_def disk_meta_def demo_bat_def demo_geometry)

lemma dirty_first_byte: "disk_session (Disk replayed_disk demo_bat None) [ReadBytes 1] 0 = [Delivered (Ok [7])]"
proof -
  let ?q = "Disk replayed_disk demo_bat None"
  have e: "entry_state ex_bat_entry = 6" "entry_offset_mb ex_bat_entry * MIB = 0x10000000"
    by (simp_all add: entry_state_def entry_offset_mb_def ex_layout MIB_def)
  have "bat_lookup demo_bat 0 = Ok (File 0x10000000)"
    using e by (simp add: bat_lookup_def demo_bat_def demo_geometry Let_def payload_index_def list_get_def)
  moreover have "replayed_disk ! 0x10000000 = 7"
    by (simp add: replayed_disk_def nth_overwrite) (simp add: sevens_def)
  moreover have "length replayed_disk = 0x12000000" by (simp add: replayed_disk_def)
  ultimately have "disk_byte ?q 0 = Ok 7" by (simp add: disk_byte_eq file_byte_def)
  then show ?thesis by (simp add: disk_read_def dirty_size)
qed

subsection \<open>The theorems about replay, on this image\<close>

text \<open>Both ways of opening serve the byte that the log commits; the image itself holds another.\<close>

theorem opening_paths_agree_witness:
  "\<exists>r r'. parse_backing (BackingFile (slow_file dirty_disk)) None = Ok r \<and> parse_bytes dirty_disk None = Ok r'
    \<and> session [ReadBytes 1] r = [Delivered (Ok [7])] \<and> session [ReadBytes 1] r' = [Delivered (Ok [7])]
    \<and> dirty_disk ! 0x10000000 = 0x42"
proof -
  have b: "faithful_backing (BackingFile (slow_file dirty_disk)) dirty_disk"
    unfolding dirty_disk_def by (rule dirty_backing) simp
  have log: "log_ok dirty_disk" unfolding dirty_disk_def by (rule dirty_log_ok) simp_all
  have small: "length dirty_disk < 2 ^ 63" by simp
  have "opens (parse_backing (BackingFile (slow_file dirty_disk)) None) (open_disk dirty_disk None)"
    by (rule parse_backing_opens [OF b small log]) simp
  then obtain r where r: "parse_backing (BackingFile (slow_file dirty_disk)) None = Ok r"
    unfolding open_dirty by (cases "parse_backing (BackingFile (slow_file dirty_disk)) None") auto
  obtain r' where r': "parse_bytes dirty_disk None = Ok r'"
    and same: "\<forall>reqs. session reqs r = disk_session (Disk replayed_disk demo_bat None) reqs 0
      \<and> session reqs r' = disk_session (Disk replayed_disk demo_bat None) reqs 0"
    using opening_paths_agree [OF b small log, of None None None] unfolding r open_dirty by auto
  have w: "window dirty_disk 0x10000000 1 = window demo_image 0x10000000 1"
    unfolding dirty_disk_def by (rule dirty_writes(4)) simp_all
  have "dirty_disk ! 0x10000000 = demo_image ! 0x10000000"
    using arg_cong [OF w, of "\<lambda>l. l ! 0"] by simp
  moreover have "demo_image ! 0x10000000 = 0x42"
    using demo_image_block [of 0] by (simp add: demo_byte_def)
  ultimately show ?thesis using r r' same [rule_format, of "[ReadBytes 1]"] dirty_first_byte by auto
qed

theorem replay_forms_agree_witness:
  "apply_log dirty_disk
     = map_ok (\<lambda>ov. committed ov dirty_disk)
         (build_overlay (BackingFile (slow_file dirty_disk)) (dirty_log_header dirty_disk))
   \<and> apply_log dirty_disk = Ok replayed_disk \<and> replayed_disk ! 0x10000000 = 7"
proof -
  have "apply_log dirty_disk = map_ok (\<lambda>ov. committed ov dirty_disk)
      (build_overlay (BackingFile (slow_file dirty_disk)) (dirty_log_header dirty_disk))"
  proof (rule replay_forms_agree)
    show "faithful_backing (BackingFile (slow_file dirty_disk)) dirty_disk"
      unfolding dirty_disk_def by (rule dirty_backing) simp
    show "log_ok dirty_disk" unfolding dirty_disk_def by (rule dirty_log_ok) simp_all
    show "parse_active_header dirty_disk = Ok (dirty_log_header dirty_disk)"
      unfolding dirty_disk_def by (rule dirty_active_header) simp
  qed simp
  moreover have "replayed_disk ! 0x10000000 = 7"
    by (simp add: replayed_disk_def nth_overwrite) (simp add: sevens_def)
  ultimately show ?thesis using dirty_apply by simp
qed

text \<open>The same log with its sector at the last byte of the image.\<close>

definition straddling_disk :: bytes where "straddling_disk = dirty_image 0x11FFFFFF sevens"

theorem straddling_sector_differs_witness:
  "apply_log straddling_disk = Ok straddling_disk
   \<and> map_ok (\<lambda>ov. committed ov straddling_disk)
       (build_overlay (BackingFile (slow_file straddling_disk)) (dirty_log_header straddling_disk))
     = Ok (take 0x11FFFFFF straddling_disk @ [7])"
proof -
  let ?e = "sector_entry 0x11FFFFFF sevens"
  have size: "length straddling_disk = 0x12000000" by (simp add: straddling_disk_def dirty_writes)
  have "take 1 sevens = [7]" by (simp add: sevens_def)
  moreover have "apply_log straddling_disk = Ok straddling_disk
    \<and> map_ok (\<lambda>ov. committed ov straddling_disk)
        (build_overlay (BackingFile (slow_file straddling_disk)) (dirty_log_header straddling_disk))
      = Ok (take 0x11FFFFFF straddling_disk @ take (length straddling_disk - 0x11FFFFFF) (window ?e 96 4096))"
    using straddling_sector_differs [of "BackingFile (slow_file straddling_disk)" straddling_disk
        "dirty_log_header straddling_disk" ?e "0x11FFFFFF"]
      dirty_backing [of sevens "0x11FFFFFF"] dirty_active_header(1) [of sevens "0x11FFFFFF"]
      dirty_replayed [of sevens "0x11FFFFFF"] entry_words [of sevens "0x11FFFFFF"]
      entry_windows [of sevens "0x11FFFFFF"] size
    by (simp add: straddling_disk_def [symmetric])
  ultimately show ?thesis using entry_windows(7) [of sevens "0x11FFFFFF"] size by simp
qed

end
