(* ===== verification/Cli.thy ===== *)
theory Cli
  imports Dirty
begin

text \<open>
  The command line tool (\<open>cli/src/main.rs\<close>): the number format \<open>fmt_commas\<close> and the command
  \<open>info\<close>. The parsing of the arguments belongs to \<open>clap\<close>; the command gets the last component of
  the path, if it has one, as text, and what the operating system answers when it opens the path.
\<close>

definition comma :: char where "comma = CHR 0x2C"

primrec comma_loop :: "nat \<Rightarrow> string \<Rightarrow> string" where
  "comma_loop i [] = []"
| "comma_loop i (c # cs) =
     (if i > 0 \<and> i mod 3 = 0 then [comma, c] else [c]) @ comma_loop (i + 1) cs"

definition fmt_commas :: "nat \<Rightarrow> string" where
  "fmt_commas n = rev (comma_loop 0 (rev (decimal n)))"

lemma comma_not_digit: "digit n \<noteq> comma"
proof -
  have "n mod 10 = 0 \<or> n mod 10 = 1 \<or> n mod 10 = 2 \<or> n mod 10 = 3 \<or> n mod 10 = 4
      \<or> n mod 10 = 5 \<or> n mod 10 = 6 \<or> n mod 10 = 7 \<or> n mod 10 = 8 \<or> n mod 10 = 9"
    by presburger
  then show ?thesis by (elim disjE) (simp_all add: digit_def comma_def)
qed

lemma comma_not_in_decimal: "comma \<notin> set (decimal n)"
proof (induction n rule: decimal.induct)
  case (1 n)
  then show ?case
    using comma_not_digit [of n] by (subst decimal.simps) auto
qed

lemma filter_comma_loop:
  "comma \<notin> set cs \<Longrightarrow> filter (\<lambda>c. c \<noteq> comma) (comma_loop i cs) = cs"
  by (induction cs arbitrary: i) auto

lemma mod_succ_3:
  "(i::nat) mod 3 = 0 \<and> (i + 1) mod 3 = 1 \<or> i mod 3 = 1 \<and> (i + 1) mod 3 = 2
    \<or> i mod 3 = 2 \<and> (i + 1) mod 3 = 0"
  by presburger

text \<open>Counted from the right, every fourth character is a comma and no other is.\<close>

lemma comma_loop_nth:
  assumes "comma \<notin> set cs" and "k < length (comma_loop i cs)"
  shows "(comma_loop i cs ! k = comma) =
    (if i > 0 \<and> i mod 3 = 0 then k mod 4 = 0 else (k + i mod 3) mod 4 = 3)"
  using assms
proof (induction cs arbitrary: i k)
  case (Cons c cs)
  have c: "c \<noteq> comma" using Cons.prems(1) by auto
  have IH: "(comma_loop (i + 1) cs ! k' = comma) =
      (if (i + 1) mod 3 = 0 then k' mod 4 = 0 else (k' + (i + 1) mod 3) mod 4 = 3)"
    if "k' < length (comma_loop (i + 1) cs)" for k'
    using Cons.IH [of k' "i + 1"] Cons.prems(1) that by simp
  show ?case
  proof (cases "i > 0 \<and> i mod 3 = 0")
    case True
    then have i: "(i + 1) mod 3 = 1" by presburger
    consider "k = 0" | "k = 1" | k' where "k = k' + 2" "k' < length (comma_loop (i + 1) cs)"
      using Cons.prems(2) True by (cases k rule: nat.exhaust; cases "k - 1") auto
    then show ?thesis
    proof cases
      case 3
      have "((k' + 1) mod 4 = 3) = ((k' + 2) mod 4 = 0)" by presburger
      then show ?thesis using True IH [OF 3(2)] i 3(1) by simp
    qed (use True c in simp_all)
  next
    case False
    show ?thesis
    proof (cases k)
      case 0
      have "(i mod 3) mod 4 \<noteq> 3" using mod_succ_3 [of i] by auto
      with 0 False c show ?thesis by simp
    next
      case (Suc k')
      have "(if (i + 1) mod 3 = 0 then k' mod 4 = 0 else (k' + (i + 1) mod 3) mod 4 = 3)
          = ((k' + 1 + i mod 3) mod 4 = 3)"
      proof -
        have k: "(k' mod 4 = 0) = ((k' + 1 + 2) mod 4 = 3)" "k' + 2 = k' + 1 + 1"
          by presburger simp
        from mod_succ_3 [of i] show ?thesis
        proof (elim disjE conjE)
          assume i: "i mod 3 = 2" "(i + 1) mod 3 = 0"
          show ?thesis unfolding i using k(1) by (simp only: if_True refl)
        next
          assume i: "i mod 3 = 1" "(i + 1) mod 3 = 2"
          show ?thesis unfolding i k(2) by simp
        next
          assume i: "i mod 3 = 0" "(i + 1) mod 3 = 1"
          show ?thesis unfolding i by simp
        qed
      qed
      moreover have "k' < length (comma_loop (i + 1) cs)"
        using Cons.prems(2) False Suc by auto
      ultimately show ?thesis using False Suc IH [of k'] by auto
    qed
  qed
qed simp

lemma commas_digits: "filter (\<lambda>c. c \<noteq> comma) (fmt_commas n) = decimal n"
  using comma_not_in_decimal [of n] by (simp add: fmt_commas_def rev_filter [symmetric] filter_comma_loop)

text \<open>A number is printed with its own decimal digits, and with a comma at exactly every
  fourth character from the right.\<close>

lemma commas_group_thousands:
  assumes "k < length (fmt_commas n)"
  shows "filter (\<lambda>c. c \<noteq> comma) (fmt_commas n) = decimal n
    \<and> (rev (fmt_commas n) ! k = comma) = (k mod 4 = 3)"
  using assms comma_not_in_decimal [of n] comma_loop_nth [of "rev (decimal n)" k 0]
  by (simp add: fmt_commas_def rev_filter [symmetric] filter_comma_loop)

subsection \<open>The command\<close>

text \<open>
  \<open>{mib:.2}\<close> for \<open>mib = size as f64 / (1024.0 * 1024.0)\<close>. A size up to \<open>2 ^ 53\<close> (the reader accepts
  at most \<open>2 ^ 46\<close>) converts without rounding, and a division by a power of two is exact, so the
  text is the quotient correctly rounded to two decimals, a tie going to the even digit.
\<close>

definition hundredths :: "nat \<Rightarrow> nat" where
  "hundredths size_bytes =
     (let q = 100 * size_bytes div 2 ^ 20; rest = 100 * size_bytes mod 2 ^ 20 in
      if rest > 2 ^ 19 \<or> rest = 2 ^ 19 \<and> q mod 2 = 1 then q + 1 else q)"

definition mib_text :: "nat \<Rightarrow> string" where
  "mib_text size_bytes =
     (let h = hundredths size_bytes in decimal (h div 100) @ ''.'' @ [digit (h div 10), digit h])"

text \<open>\<open>VhdxReader::open\<close>, with the answer of the operating system to opening the path.\<close>

definition open_path :: "os_file io_result \<Rightarrow> vhdx_reader result" where
  "open_path found = and_then (map_err Io found) open_file"

record cli_run =
  cli_code :: nat
  cli_out :: "string list"
  cli_err :: "string list"

definition info :: "string option \<Rightarrow> os_file io_result \<Rightarrow> ('e, cli_run) outcome" where
  "info path_file_name found =
     (case open_path found of
        Panic \<Rightarrow> Panic
      | Err e \<Rightarrow> Ok \<lparr> cli_code = 1, cli_out = [], cli_err = [''error: '' @ error_message e] \<rparr>
      | Ok reader \<Rightarrow>
          let size_bytes = unat (reader_disk_size reader);
              sector = unat (reader_sector_size reader);
              file_name = (case path_file_name of Some s \<Rightarrow> s | None \<Rightarrow> [])
          in
          Ok \<lparr> cli_code = 0,
               cli_out =
                 [''File:              '' @ file_name,
                  ''Format:            VHDX v1 (dynamic)'',
                  ''Virtual disk size: '' @ fmt_commas size_bytes @ '' bytes ('' @ mib_text size_bytes
                    @ '' MiB)'',
                  ''Logical sectors:   '' @ decimal sector @ '' bytes''],
               cli_err = [] \<rparr>)"

lemma opened_sizes:
  assumes "represents r q"
  shows "unat (reader_disk_size r) = disk_size q"
    and "unat (reader_sector_size r) = unat (logical_sector_size (disk_meta q))"
  using represents_meta [OF assms]
  by (simp_all add: reader_disk_size_def reader_sector_size_def disk_size_def disk_bytes_def)

subsection \<open>Properties\<close>

text \<open>C30: On a file whose reads make progress and whose log is well formed (\<open>log_ok\<close>: every
  descriptor lies in its entry, no sector straddles the end of the file, every zero run can be
  allocated; a log that is not can make opening panic), \<open>info\<close> always ends. It succeeds exactly when
  the image opens, and prints the size of the disk in it, digit by digit and grouped in thousands,
  and its sector size; otherwise it prints the error, and nothing else, and exits with status 1. A
  path that cannot be opened is such an error.\<close>

theorem info_reports_the_disk:
  assumes "progressing f" and "length (os_content f) < 2 ^ 63" and "log_ok (os_content f)"
  shows "(\<exists>run. info name (Ok f) = Ok run \<and>
      (case open_disk (os_content f) None of
         Ok q \<Rightarrow> cli_code run = 0 \<and> cli_err run = []
           \<and> (\<exists>size_text. cli_out run ! 2
                   = ''Virtual disk size: '' @ size_text @ '' bytes ('' @ mib_text (disk_size q) @ '' MiB)''
               \<and> filter (\<lambda>c. c \<noteq> comma) size_text = decimal (disk_size q)
               \<and> (\<forall>k < length size_text. (rev size_text ! k = comma) = (k mod 4 = 3)))
           \<and> cli_out run ! 3
               = ''Logical sectors:   '' @ decimal (unat (logical_sector_size (disk_meta q))) @ '' bytes''
       | Err e \<Rightarrow> cli_code run = 1 \<and> cli_out run = [] \<and> cli_err run = [''error: '' @ error_message e]
       | Panic \<Rightarrow> False))
    \<and> info name (Err e) = Ok \<lparr> cli_code = 1, cli_out = [],
                               cli_err = [''error: I/O error: '' @ io_message e] \<rparr>"
proof -
  have O: "opens (open_file f) (open_disk (os_content f) None)" by (rule progressing_opens) fact+
  have total: "open_disk (os_content f) None \<noteq> Panic" by (rule open_disk_total) fact+
  have opened: "open_path (Ok f) = open_file f" by (simp add: open_path_def)
  show ?thesis
  proof (cases "open_disk (os_content f) None")
    case (Ok q)
    then obtain r where r: "open_file f = Ok r" "represents r q" using O by (cases "open_file f") auto
    note sizes = opened_sizes [OF r(2)]
    define run where "run =
        \<lparr> cli_code = 0,
          cli_out =
            [''File:              '' @ (case name of Some s \<Rightarrow> s | None \<Rightarrow> []),
             ''Format:            VHDX v1 (dynamic)'',
             ''Virtual disk size: '' @ fmt_commas (disk_size q) @ '' bytes ('' @ mib_text (disk_size q) @ '' MiB)'',
             ''Logical sectors:   '' @ decimal (unat (logical_sector_size (disk_meta q))) @ '' bytes''],
          cli_err = [] \<rparr>"
    have "info name (Ok f) = Ok run"
      unfolding info_def opened r(1) by (simp add: Let_def sizes run_def)
    moreover have "info name (Err e) = Ok \<lparr> cli_code = 1, cli_out = [],
        cli_err = [''error: I/O error: '' @ io_message e] \<rparr>"
      by (simp add: info_def open_path_def)
    moreover have "cli_code run = 0" "cli_err run = []"
      "cli_out run ! 2 = ''Virtual disk size: '' @ fmt_commas (disk_size q) @ '' bytes ('' @ mib_text (disk_size q) @ '' MiB)''"
      "cli_out run ! 3 = ''Logical sectors:   '' @ decimal (unat (logical_sector_size (disk_meta q))) @ '' bytes''"
      by (simp_all add: run_def)
    ultimately show ?thesis
      unfolding Ok outcome.case using commas_digits commas_group_thousands by blast
  next
    case (Err e')
    then have "open_file f = Err e'" using O by (cases "open_file f") auto
    then show ?thesis unfolding info_def opened Err by (simp add: open_path_def)
  qed (use total in simp)
qed

text \<open>On an image whose dirty log is replayed when it is opened.\<close>

theorem info_reports_the_disk_witness:
  "\<exists>run. info (Some ''dirty.vhdx'') (Ok (slow_file dirty_disk)) = (Ok run :: cli_run result)
     \<and> cli_code run = 0
     \<and> (\<exists>size_text. cli_out run ! 2 = ''Virtual disk size: '' @ size_text @ '' bytes (4096.00 MiB)''
         \<and> filter (\<lambda>c. c \<noteq> comma) size_text = ''4294967296'')"
proof -
  let ?q = "Disk replayed_disk demo_bat None"
  have d: "decimal (disk_size ?q) = ''4294967296''"
    by (simp add: dirty_size decimal.simps digit_def)
  have m: "'' bytes ('' @ mib_text (disk_size ?q) @ '' MiB)'' = '' bytes (4096.00 MiB)''"
    by (simp add: dirty_size mib_text_def hundredths_def Let_def decimal.simps digit_def)
  have f: "progressing (slow_file dirty_disk)" "os_content (slow_file dirty_disk) = dirty_disk"
    by (simp_all add: slow_progressing) (simp add: slow_file_def)
  have "log_ok dirty_disk" unfolding dirty_disk_def by (rule dirty_log_ok) simp_all
  then have "length (os_content (slow_file dirty_disk)) < 2 ^ 63" "log_ok (os_content (slow_file dirty_disk))"
    unfolding f(2) by simp_all
  from info_reports_the_disk [OF f(1) this, of "Some ''dirty.vhdx''"]
  show ?thesis unfolding f(2) open_dirty outcome.case d m by blast
qed

end
