(* ===== verification/Anomaly.thy ===== *)
theory Anomaly
  imports Prelude
begin

text \<open>
  The findings of the analyser (\<open>VhdxIntegrityAnomaly\<close> and its \<open>severity\<close>,
  \<open>mitre_techniques\<close> and \<open>code\<close> in \<open>forensic/src/integrity.rs\<close>), \<open>summary\<close>, and
  \<open>anomalies_at_least\<close> of \<open>forensic/src/lib.rs\<close>.

  The fields of a finding are reported and never computed with, so a machine integer in one
  is the natural number it denotes; the fields stand in the order of the source. The scale
  of severities is the type \<open>Severity\<close> of the crate \<open>forensicnomicon\<close>, which is not part
  of the repository: its five levels are the ones the code names, and its order is a
  parameter \<open>le\<close> of the operations that compare.
\<close>

datatype severity_level = Critical | High | Medium | Low | Info

datatype (plugins only: extraction) anomaly =
    BadMagic bytes
  | ContainerTruncated nat nat
  | HeaderChecksumMismatch nat nat nat
  | BothHeaderCopiesInvalid
  | SequenceNumbersIdentical nat
  | BothSequenceNumbersZero
  | HeaderCopyMismatch string nat nat
  | LogZeroedButDirty nat nat
  | LogEntrySignatureMissing nat
  | LogEntryCrcMismatch nat nat nat
  | LogEntryGuidMismatch nat bytes bytes
  | LogSequenceNumberGap nat nat nat
  | FileWriteGuidAllZeros
  | DataWriteGuidAllZeros
  | LogGuidWithNoLog bytes
  | LogGuidAllZerosWithDirtyLog nat
  | LogVersionInvalid nat
  | VersionInvalid nat
  | LogOffsetMisaligned nat
  | LogLengthMisaligned nat
  | LogBeyondContainer nat nat nat
  | LogInReservedZone nat
  | SequenceNumberGapLarge nat nat nat
  | DirtyLog nat nat
  | RegionMisaligned string nat
  | RegionBeyondContainer string nat nat
  | RegionsOverlap string string nat
  | LogOverlapsStructuralRegion nat string
  | UnknownRequiredRegion string
  | RegionTableReservedNonZero nat string nat
  | RegionEntryCountZero nat
  | RegionTableChecksumMismatch nat nat nat
  | BothRegionTableCopiesInvalid
  | RegionTableCopyMismatch string string nat nat
  | MetadataMissing string
  | BlockSizeInvalid nat string
  | LogicalSectorSizeInvalid nat
  | VirtualDiskSizeInvalid nat string
  | VirtualDiskSizeUnderreported nat nat
  | DifferencingDisk
  | PhysicalSectorSizeInvalid nat
  | VirtualDiskIdAllZeros
  | MetadataItemsOverlap nat nat nat
  | MetadataItemBeyondRegion nat nat nat
  | LeaveBlocksAllocatedSet
  | MissingParentLocator
  | VirtualDiskSizeOverreported nat nat
  | BatSizeMetadataMismatch nat nat nat nat nat
  | BatEntryInStructuralRegion nat nat string
  | MissingSectorBitmap nat nat
  | UndefinedBlockState nat
  | UnmappedBlockInNonDifferencing nat
  | GhostDataInAbsentBlock nat nat nat
  | BatEntryBeyondContainer nat nat nat
  | BatEntryUnaligned nat nat
  | BatEntriesOverlap nat nat nat
  | PartiallyPresentBlock nat
  | SectorBitmapInvalidState nat nat
  | TrailingData nat nat
  | CreatorStringAnomalous string
  | FileIdentifierReservedNonZero nat nat
  | InterRegionGapNonZero string string nat nat
  | HeaderReservedNonZero nat nat nat

primrec severity :: "anomaly \<Rightarrow> severity_level" where
  "severity (BadMagic _) = Critical"
  | "severity (ContainerTruncated _ _) = Critical"
  | "severity (HeaderChecksumMismatch _ _ _) = High"
  | "severity BothHeaderCopiesInvalid = Critical"
  | "severity (SequenceNumbersIdentical _) = Medium"
  | "severity BothSequenceNumbersZero = Medium"
  | "severity (HeaderCopyMismatch _ _ _) = High"
  | "severity (LogZeroedButDirty _ _) = Medium"
  | "severity (LogEntrySignatureMissing _) = Medium"
  | "severity (LogEntryCrcMismatch _ _ _) = High"
  | "severity (LogEntryGuidMismatch _ _ _) = High"
  | "severity (LogSequenceNumberGap _ _ _) = High"
  | "severity FileWriteGuidAllZeros = Medium"
  | "severity DataWriteGuidAllZeros = Medium"
  | "severity (LogGuidWithNoLog _) = Medium"
  | "severity (LogGuidAllZerosWithDirtyLog _) = Medium"
  | "severity (LogVersionInvalid _) = Medium"
  | "severity (VersionInvalid _) = Medium"
  | "severity (LogOffsetMisaligned _) = High"
  | "severity (LogLengthMisaligned _) = High"
  | "severity (LogBeyondContainer _ _ _) = High"
  | "severity (LogInReservedZone _) = High"
  | "severity (SequenceNumberGapLarge _ _ _) = Medium"
  | "severity (DirtyLog _ _) = Info"
  | "severity (RegionMisaligned _ _) = High"
  | "severity (RegionBeyondContainer _ _ _) = High"
  | "severity (RegionsOverlap _ _ _) = High"
  | "severity (LogOverlapsStructuralRegion _ _) = High"
  | "severity (UnknownRequiredRegion _) = Medium"
  | "severity (RegionTableReservedNonZero _ _ _) = Medium"
  | "severity (RegionEntryCountZero _) = Medium"
  | "severity (RegionTableChecksumMismatch _ _ _) = High"
  | "severity BothRegionTableCopiesInvalid = Critical"
  | "severity (RegionTableCopyMismatch _ _ _ _) = High"
  | "severity (MetadataMissing _) = Medium"
  | "severity (BlockSizeInvalid _ _) = Medium"
  | "severity (LogicalSectorSizeInvalid _) = Medium"
  | "severity (VirtualDiskSizeInvalid _ _) = Medium"
  | "severity (VirtualDiskSizeUnderreported _ _) = High"
  | "severity DifferencingDisk = Medium"
  | "severity (PhysicalSectorSizeInvalid _) = Medium"
  | "severity VirtualDiskIdAllZeros = Medium"
  | "severity (MetadataItemsOverlap _ _ _) = High"
  | "severity (MetadataItemBeyondRegion _ _ _) = High"
  | "severity LeaveBlocksAllocatedSet = Medium"
  | "severity MissingParentLocator = High"
  | "severity (VirtualDiskSizeOverreported _ _) = High"
  | "severity (BatSizeMetadataMismatch _ _ _ _ _) = High"
  | "severity (BatEntryInStructuralRegion _ _ _) = High"
  | "severity (MissingSectorBitmap _ _) = Medium"
  | "severity (UndefinedBlockState _) = Medium"
  | "severity (UnmappedBlockInNonDifferencing _) = Medium"
  | "severity (GhostDataInAbsentBlock _ _ _) = Medium"
  | "severity (BatEntryBeyondContainer _ _ _) = High"
  | "severity (BatEntryUnaligned _ _) = Medium"
  | "severity (BatEntriesOverlap _ _ _) = High"
  | "severity (PartiallyPresentBlock _) = Medium"
  | "severity (SectorBitmapInvalidState _ _) = Medium"
  | "severity (TrailingData _ _) = Medium"
  | "severity (CreatorStringAnomalous _) = Medium"
  | "severity (FileIdentifierReservedNonZero _ _) = Medium"
  | "severity (InterRegionGapNonZero _ _ _ _) = Info"
  | "severity (HeaderReservedNonZero _ _ _) = Medium"

primrec code :: "anomaly \<Rightarrow> string" where
  "code (BadMagic _) = ''VHDX-BAD-MAGIC''"
  | "code (ContainerTruncated _ _) = ''VHDX-CONTAINER-TRUNCATED''"
  | "code (HeaderChecksumMismatch _ _ _) = ''VHDX-HEADER-CHECKSUM-MISMATCH''"
  | "code BothHeaderCopiesInvalid = ''VHDX-BOTH-HEADER-COPIES-INVALID''"
  | "code (SequenceNumbersIdentical _) = ''VHDX-SEQUENCE-NUMBERS-IDENTICAL''"
  | "code BothSequenceNumbersZero = ''VHDX-BOTH-SEQUENCE-NUMBERS-ZERO''"
  | "code (HeaderCopyMismatch _ _ _) = ''VHDX-HEADER-COPY-MISMATCH''"
  | "code (LogZeroedButDirty _ _) = ''VHDX-LOG-ZEROED-BUT-DIRTY''"
  | "code (LogEntrySignatureMissing _) = ''VHDX-LOG-ENTRY-SIGNATURE-MISSING''"
  | "code (LogEntryCrcMismatch _ _ _) = ''VHDX-LOG-ENTRY-CRC-MISMATCH''"
  | "code (LogEntryGuidMismatch _ _ _) = ''VHDX-LOG-ENTRY-GUID-MISMATCH''"
  | "code (LogSequenceNumberGap _ _ _) = ''VHDX-LOG-SEQUENCE-NUMBER-GAP''"
  | "code FileWriteGuidAllZeros = ''VHDX-FILE-WRITE-GUID-ALL-ZEROS''"
  | "code DataWriteGuidAllZeros = ''VHDX-DATA-WRITE-GUID-ALL-ZEROS''"
  | "code (LogGuidWithNoLog _) = ''VHDX-LOG-GUID-WITH-NO-LOG''"
  | "code (LogGuidAllZerosWithDirtyLog _) = ''VHDX-LOG-GUID-ALL-ZEROS-WITH-DIRTY-LOG''"
  | "code (LogVersionInvalid _) = ''VHDX-LOG-VERSION-INVALID''"
  | "code (VersionInvalid _) = ''VHDX-VERSION-INVALID''"
  | "code (LogOffsetMisaligned _) = ''VHDX-LOG-OFFSET-MISALIGNED''"
  | "code (LogLengthMisaligned _) = ''VHDX-LOG-LENGTH-MISALIGNED''"
  | "code (LogBeyondContainer _ _ _) = ''VHDX-LOG-BEYOND-CONTAINER''"
  | "code (LogInReservedZone _) = ''VHDX-LOG-IN-RESERVED-ZONE''"
  | "code (SequenceNumberGapLarge _ _ _) = ''VHDX-SEQUENCE-NUMBER-GAP-LARGE''"
  | "code (DirtyLog _ _) = ''VHDX-DIRTY-LOG''"
  | "code (RegionMisaligned _ _) = ''VHDX-REGION-MISALIGNED''"
  | "code (RegionBeyondContainer _ _ _) = ''VHDX-REGION-BEYOND-CONTAINER''"
  | "code (RegionsOverlap _ _ _) = ''VHDX-REGIONS-OVERLAP''"
  | "code (LogOverlapsStructuralRegion _ _) = ''VHDX-LOG-OVERLAPS-STRUCTURAL-REGION''"
  | "code (UnknownRequiredRegion _) = ''VHDX-UNKNOWN-REQUIRED-REGION''"
  | "code (RegionTableReservedNonZero _ _ _) = ''VHDX-REGION-TABLE-RESERVED-NON-ZERO''"
  | "code (RegionEntryCountZero _) = ''VHDX-REGION-ENTRY-COUNT-ZERO''"
  | "code (RegionTableChecksumMismatch _ _ _) = ''VHDX-REGION-TABLE-CHECKSUM-MISMATCH''"
  | "code BothRegionTableCopiesInvalid = ''VHDX-BOTH-REGION-TABLE-COPIES-INVALID''"
  | "code (RegionTableCopyMismatch _ _ _ _) = ''VHDX-REGION-TABLE-COPY-MISMATCH''"
  | "code (MetadataMissing _) = ''VHDX-METADATA-MISSING''"
  | "code (BlockSizeInvalid _ _) = ''VHDX-BLOCK-SIZE-INVALID''"
  | "code (LogicalSectorSizeInvalid _) = ''VHDX-LOGICAL-SECTOR-SIZE-INVALID''"
  | "code (VirtualDiskSizeInvalid _ _) = ''VHDX-VIRTUAL-DISK-SIZE-INVALID''"
  | "code (VirtualDiskSizeUnderreported _ _) = ''VHDX-VIRTUAL-DISK-SIZE-UNDERREPORTED''"
  | "code DifferencingDisk = ''VHDX-DIFFERENCING-DISK''"
  | "code (PhysicalSectorSizeInvalid _) = ''VHDX-PHYSICAL-SECTOR-SIZE-INVALID''"
  | "code VirtualDiskIdAllZeros = ''VHDX-VIRTUAL-DISK-ID-ALL-ZEROS''"
  | "code (MetadataItemsOverlap _ _ _) = ''VHDX-METADATA-ITEMS-OVERLAP''"
  | "code (MetadataItemBeyondRegion _ _ _) = ''VHDX-METADATA-ITEM-BEYOND-REGION''"
  | "code LeaveBlocksAllocatedSet = ''VHDX-LEAVE-BLOCKS-ALLOCATED-SET''"
  | "code MissingParentLocator = ''VHDX-MISSING-PARENT-LOCATOR''"
  | "code (VirtualDiskSizeOverreported _ _) = ''VHDX-VIRTUAL-DISK-SIZE-OVERREPORTED''"
  | "code (BatSizeMetadataMismatch _ _ _ _ _) = ''VHDX-BAT-SIZE-METADATA-MISMATCH''"
  | "code (BatEntryInStructuralRegion _ _ _) = ''VHDX-BAT-ENTRY-IN-STRUCTURAL-REGION''"
  | "code (MissingSectorBitmap _ _) = ''VHDX-MISSING-SECTOR-BITMAP''"
  | "code (UndefinedBlockState _) = ''VHDX-UNDEFINED-BLOCK-STATE''"
  | "code (UnmappedBlockInNonDifferencing _) = ''VHDX-UNMAPPED-BLOCK-IN-NON-DIFFERENCING''"
  | "code (GhostDataInAbsentBlock _ _ _) = ''VHDX-GHOST-DATA-IN-ABSENT-BLOCK''"
  | "code (BatEntryBeyondContainer _ _ _) = ''VHDX-BAT-ENTRY-BEYOND-CONTAINER''"
  | "code (BatEntryUnaligned _ _) = ''VHDX-BAT-ENTRY-UNALIGNED''"
  | "code (BatEntriesOverlap _ _ _) = ''VHDX-BAT-ENTRIES-OVERLAP''"
  | "code (PartiallyPresentBlock _) = ''VHDX-PARTIALLY-PRESENT-BLOCK''"
  | "code (SectorBitmapInvalidState _ _) = ''VHDX-SECTOR-BITMAP-INVALID-STATE''"
  | "code (TrailingData _ _) = ''VHDX-TRAILING-DATA''"
  | "code (CreatorStringAnomalous _) = ''VHDX-CREATOR-STRING-ANOMALOUS''"
  | "code (FileIdentifierReservedNonZero _ _) = ''VHDX-FILE-IDENTIFIER-RESERVED-NON-ZERO''"
  | "code (InterRegionGapNonZero _ _ _ _) = ''VHDX-INTER-REGION-GAP-NON-ZERO''"
  | "code (HeaderReservedNonZero _ _ _) = ''VHDX-HEADER-RESERVED-NON-ZERO''"

definition mitre_techniques :: "anomaly \<Rightarrow> string list" where
  "mitre_techniques a =
    (case a of
       LogZeroedButDirty _ _ \<Rightarrow> [''T1070'']
       | LogEntryGuidMismatch _ _ _ \<Rightarrow> [''T1070.003'']
       | LogSequenceNumberGap _ _ _ \<Rightarrow> [''T1070'']
       | FileWriteGuidAllZeros \<Rightarrow> [''T1070'']
       | DataWriteGuidAllZeros \<Rightarrow> [''T1070'']
       | VirtualDiskSizeUnderreported _ _ \<Rightarrow> [''T1564'']
       | BatEntryInStructuralRegion _ _ _ \<Rightarrow> [''T1027'']
       | GhostDataInAbsentBlock _ _ _ \<Rightarrow> [''T1564.001'']
       | BatEntriesOverlap _ _ _ \<Rightarrow> [''T1036'']
       | TrailingData _ _ \<Rightarrow> [''T1564.001'']
       | FileIdentifierReservedNonZero _ _ \<Rightarrow> [''T1027'']
       | InterRegionGapNonZero _ _ _ _ \<Rightarrow> [''T1564.001'']
       | HeaderReservedNonZero _ _ _ \<Rightarrow> [''T1027'']
     | _ \<Rightarrow> [])"

subsection \<open>Aggregation\<close>

record analysis_summary =
  sum_total :: nat
  sum_critical :: nat
  sum_high :: nat
  sum_medium :: nat
  sum_low :: nat
  sum_info :: nat
  sum_highest :: "severity_level option"

definition empty_summary :: analysis_summary where
  "empty_summary =
     \<lparr> sum_total = 0, sum_critical = 0, sum_high = 0, sum_medium = 0, sum_low = 0, sum_info = 0,
       sum_highest = None \<rparr>"

definition tally :: "severity_level \<Rightarrow> analysis_summary \<Rightarrow> analysis_summary" where
  "tally sev s =
     (case sev of
        Critical \<Rightarrow> s\<lparr> sum_critical := sum_critical s + 1 \<rparr>
      | High \<Rightarrow> s\<lparr> sum_high := sum_high s + 1 \<rparr>
      | Medium \<Rightarrow> s\<lparr> sum_medium := sum_medium s + 1 \<rparr>
      | Low \<Rightarrow> s\<lparr> sum_low := sum_low s + 1 \<rparr>
      | Info \<Rightarrow> s\<lparr> sum_info := sum_info s + 1 \<rparr>)"

text \<open>\<open>Ord::max\<close>: the second argument unless it is smaller.\<close>

definition max_by :: "('a \<Rightarrow> 'a \<Rightarrow> bool) \<Rightarrow> 'a \<Rightarrow> 'a \<Rightarrow> 'a" where
  "max_by le x y = (if le x y then y else x)"

definition summary_step ::
  "(severity_level \<Rightarrow> severity_level \<Rightarrow> bool) \<Rightarrow> anomaly \<Rightarrow> analysis_summary \<Rightarrow> analysis_summary"
where
  "summary_step le a s =
     (let s1 = s\<lparr> sum_total := sum_total s + 1 \<rparr>;
          sev = severity a;
          s2 = tally sev s1
      in s2\<lparr> sum_highest := Some (case sum_highest s2 of None \<Rightarrow> sev | Some h \<Rightarrow> max_by le h sev) \<rparr>)"

definition summary ::
  "(severity_level \<Rightarrow> severity_level \<Rightarrow> bool) \<Rightarrow> anomaly list \<Rightarrow> analysis_summary"
where
  "summary le anomalies = fold (summary_step le) anomalies empty_summary"

definition anomalies_at_least ::
  "(severity_level \<Rightarrow> severity_level \<Rightarrow> bool) \<Rightarrow> anomaly list \<Rightarrow> severity_level \<Rightarrow> anomaly list"
where
  "anomalies_at_least le anomalies m = filter (\<lambda>a. le m (severity a)) anomalies"

subsection \<open>One code for each kind of finding\<close>

primrec variant :: "anomaly \<Rightarrow> nat" where
  "variant (BadMagic _) = 0"
  | "variant (ContainerTruncated _ _) = 1"
  | "variant (HeaderChecksumMismatch _ _ _) = 2"
  | "variant BothHeaderCopiesInvalid = 3"
  | "variant (SequenceNumbersIdentical _) = 4"
  | "variant BothSequenceNumbersZero = 5"
  | "variant (HeaderCopyMismatch _ _ _) = 6"
  | "variant (LogZeroedButDirty _ _) = 7"
  | "variant (LogEntrySignatureMissing _) = 8"
  | "variant (LogEntryCrcMismatch _ _ _) = 9"
  | "variant (LogEntryGuidMismatch _ _ _) = 10"
  | "variant (LogSequenceNumberGap _ _ _) = 11"
  | "variant FileWriteGuidAllZeros = 12"
  | "variant DataWriteGuidAllZeros = 13"
  | "variant (LogGuidWithNoLog _) = 14"
  | "variant (LogGuidAllZerosWithDirtyLog _) = 15"
  | "variant (LogVersionInvalid _) = 16"
  | "variant (VersionInvalid _) = 17"
  | "variant (LogOffsetMisaligned _) = 18"
  | "variant (LogLengthMisaligned _) = 19"
  | "variant (LogBeyondContainer _ _ _) = 20"
  | "variant (LogInReservedZone _) = 21"
  | "variant (SequenceNumberGapLarge _ _ _) = 22"
  | "variant (DirtyLog _ _) = 23"
  | "variant (RegionMisaligned _ _) = 24"
  | "variant (RegionBeyondContainer _ _ _) = 25"
  | "variant (RegionsOverlap _ _ _) = 26"
  | "variant (LogOverlapsStructuralRegion _ _) = 27"
  | "variant (UnknownRequiredRegion _) = 28"
  | "variant (RegionTableReservedNonZero _ _ _) = 29"
  | "variant (RegionEntryCountZero _) = 30"
  | "variant (RegionTableChecksumMismatch _ _ _) = 31"
  | "variant BothRegionTableCopiesInvalid = 32"
  | "variant (RegionTableCopyMismatch _ _ _ _) = 33"
  | "variant (MetadataMissing _) = 34"
  | "variant (BlockSizeInvalid _ _) = 35"
  | "variant (LogicalSectorSizeInvalid _) = 36"
  | "variant (VirtualDiskSizeInvalid _ _) = 37"
  | "variant (VirtualDiskSizeUnderreported _ _) = 38"
  | "variant DifferencingDisk = 39"
  | "variant (PhysicalSectorSizeInvalid _) = 40"
  | "variant VirtualDiskIdAllZeros = 41"
  | "variant (MetadataItemsOverlap _ _ _) = 42"
  | "variant (MetadataItemBeyondRegion _ _ _) = 43"
  | "variant LeaveBlocksAllocatedSet = 44"
  | "variant MissingParentLocator = 45"
  | "variant (VirtualDiskSizeOverreported _ _) = 46"
  | "variant (BatSizeMetadataMismatch _ _ _ _ _) = 47"
  | "variant (BatEntryInStructuralRegion _ _ _) = 48"
  | "variant (MissingSectorBitmap _ _) = 49"
  | "variant (UndefinedBlockState _) = 50"
  | "variant (UnmappedBlockInNonDifferencing _) = 51"
  | "variant (GhostDataInAbsentBlock _ _ _) = 52"
  | "variant (BatEntryBeyondContainer _ _ _) = 53"
  | "variant (BatEntryUnaligned _ _) = 54"
  | "variant (BatEntriesOverlap _ _ _) = 55"
  | "variant (PartiallyPresentBlock _) = 56"
  | "variant (SectorBitmapInvalidState _ _) = 57"
  | "variant (TrailingData _ _) = 58"
  | "variant (CreatorStringAnomalous _) = 59"
  | "variant (FileIdentifierReservedNonZero _ _) = 60"
  | "variant (InterRegionGapNonZero _ _ _ _) = 61"
  | "variant (HeaderReservedNonZero _ _ _) = 62"

definition codes :: "string list" where
  "codes =
     [''VHDX-BAD-MAGIC'',
      ''VHDX-CONTAINER-TRUNCATED'',
      ''VHDX-HEADER-CHECKSUM-MISMATCH'',
      ''VHDX-BOTH-HEADER-COPIES-INVALID'',
      ''VHDX-SEQUENCE-NUMBERS-IDENTICAL'',
      ''VHDX-BOTH-SEQUENCE-NUMBERS-ZERO'',
      ''VHDX-HEADER-COPY-MISMATCH'',
      ''VHDX-LOG-ZEROED-BUT-DIRTY'',
      ''VHDX-LOG-ENTRY-SIGNATURE-MISSING'',
      ''VHDX-LOG-ENTRY-CRC-MISMATCH'',
      ''VHDX-LOG-ENTRY-GUID-MISMATCH'',
      ''VHDX-LOG-SEQUENCE-NUMBER-GAP'',
      ''VHDX-FILE-WRITE-GUID-ALL-ZEROS'',
      ''VHDX-DATA-WRITE-GUID-ALL-ZEROS'',
      ''VHDX-LOG-GUID-WITH-NO-LOG'',
      ''VHDX-LOG-GUID-ALL-ZEROS-WITH-DIRTY-LOG'',
      ''VHDX-LOG-VERSION-INVALID'',
      ''VHDX-VERSION-INVALID'',
      ''VHDX-LOG-OFFSET-MISALIGNED'',
      ''VHDX-LOG-LENGTH-MISALIGNED'',
      ''VHDX-LOG-BEYOND-CONTAINER'',
      ''VHDX-LOG-IN-RESERVED-ZONE'',
      ''VHDX-SEQUENCE-NUMBER-GAP-LARGE'',
      ''VHDX-DIRTY-LOG'',
      ''VHDX-REGION-MISALIGNED'',
      ''VHDX-REGION-BEYOND-CONTAINER'',
      ''VHDX-REGIONS-OVERLAP'',
      ''VHDX-LOG-OVERLAPS-STRUCTURAL-REGION'',
      ''VHDX-UNKNOWN-REQUIRED-REGION'',
      ''VHDX-REGION-TABLE-RESERVED-NON-ZERO'',
      ''VHDX-REGION-ENTRY-COUNT-ZERO'',
      ''VHDX-REGION-TABLE-CHECKSUM-MISMATCH'',
      ''VHDX-BOTH-REGION-TABLE-COPIES-INVALID'',
      ''VHDX-REGION-TABLE-COPY-MISMATCH'',
      ''VHDX-METADATA-MISSING'',
      ''VHDX-BLOCK-SIZE-INVALID'',
      ''VHDX-LOGICAL-SECTOR-SIZE-INVALID'',
      ''VHDX-VIRTUAL-DISK-SIZE-INVALID'',
      ''VHDX-VIRTUAL-DISK-SIZE-UNDERREPORTED'',
      ''VHDX-DIFFERENCING-DISK'',
      ''VHDX-PHYSICAL-SECTOR-SIZE-INVALID'',
      ''VHDX-VIRTUAL-DISK-ID-ALL-ZEROS'',
      ''VHDX-METADATA-ITEMS-OVERLAP'',
      ''VHDX-METADATA-ITEM-BEYOND-REGION'',
      ''VHDX-LEAVE-BLOCKS-ALLOCATED-SET'',
      ''VHDX-MISSING-PARENT-LOCATOR'',
      ''VHDX-VIRTUAL-DISK-SIZE-OVERREPORTED'',
      ''VHDX-BAT-SIZE-METADATA-MISMATCH'',
      ''VHDX-BAT-ENTRY-IN-STRUCTURAL-REGION'',
      ''VHDX-MISSING-SECTOR-BITMAP'',
      ''VHDX-UNDEFINED-BLOCK-STATE'',
      ''VHDX-UNMAPPED-BLOCK-IN-NON-DIFFERENCING'',
      ''VHDX-GHOST-DATA-IN-ABSENT-BLOCK'',
      ''VHDX-BAT-ENTRY-BEYOND-CONTAINER'',
      ''VHDX-BAT-ENTRY-UNALIGNED'',
      ''VHDX-BAT-ENTRIES-OVERLAP'',
      ''VHDX-PARTIALLY-PRESENT-BLOCK'',
      ''VHDX-SECTOR-BITMAP-INVALID-STATE'',
      ''VHDX-TRAILING-DATA'',
      ''VHDX-CREATOR-STRING-ANOMALOUS'',
      ''VHDX-FILE-IDENTIFIER-RESERVED-NON-ZERO'',
      ''VHDX-INTER-REGION-GAP-NON-ZERO'',
      ''VHDX-HEADER-RESERVED-NON-ZERO'']"

definition severities :: "severity_level list" where
  "severities =
     [Critical, Critical, High, Critical, Medium, Medium, High, Medium,
      Medium, High, High, High, Medium, Medium, Medium, Medium,
      Medium, Medium, High, High, High, High, Medium, Info,
      High, High, High, High, Medium, Medium, Medium, High,
      Critical, High, Medium, Medium, Medium, Medium, High, Medium,
      Medium, Medium, High, High, Medium, High, High, High,
      High, Medium, Medium, Medium, Medium, High, Medium, High,
      Medium, Medium, Medium, Medium, Medium, Info, Medium]"

definition techniques :: "string list list" where
  "techniques =
     [[], [], [], [], [], [], [], [''T1070''],
      [], [], [''T1070.003''], [''T1070''], [''T1070''], [''T1070''], [], [],
      [], [], [], [], [], [], [], [],
      [], [], [], [], [], [], [], [],
      [], [], [], [], [], [], [''T1564''], [],
      [], [], [], [], [], [], [], [],
      [''T1027''], [], [], [], [''T1564.001''], [], [], [''T1036''],
      [], [], [''T1564.001''], [], [''T1027''], [''T1564.001''], [''T1027'']]"

lemma variant_tables:
  "variant a < 63" "code a = codes ! variant a" "severity a = severities ! variant a"
  "mitre_techniques a = techniques ! variant a"
  by (cases a; simp add: codes_def severities_def techniques_def mitre_techniques_def)+

lemma distinct_codes: "distinct codes"
  by (simp add: codes_def)

lemma length_codes: "length codes = 63"
  by (simp add: codes_def)

lemma code_inj: "code a = code b \<Longrightarrow> variant a = variant b"
  using distinct_codes variant_tables(1) [of a] variant_tables(1) [of b] length_codes
  by (simp add: variant_tables(2) nth_eq_iff_index_eq)

lemma code_prefix: "take 5 (code a) = ''VHDX-''"
  by (cases a) simp_all

subsection \<open>The summary counts what it is given\<close>

definition total_order :: "('a \<Rightarrow> 'a \<Rightarrow> bool) \<Rightarrow> bool" where
  "total_order le =
     ((\<forall>x. le x x) \<and> (\<forall>x y z. le x y \<longrightarrow> le y z \<longrightarrow> le x z) \<and> (\<forall>x y. le x y \<or> le y x))"

definition count_of :: "severity_level \<Rightarrow> anomaly list \<Rightarrow> nat" where
  "count_of sev as = length (filter (\<lambda>a. severity a = sev) as)"

lemma summary_counts_acc:
  "sum_total (fold (summary_step le) as s) = sum_total s + length as"
  "sum_critical (fold (summary_step le) as s) = sum_critical s + count_of Critical as"
  "sum_high (fold (summary_step le) as s) = sum_high s + count_of High as"
  "sum_medium (fold (summary_step le) as s) = sum_medium s + count_of Medium as"
  "sum_low (fold (summary_step le) as s) = sum_low s + count_of Low as"
  "sum_info (fold (summary_step le) as s) = sum_info s + count_of Info as"
  by (induction as arbitrary: s)
    (simp_all add: summary_step_def tally_def count_of_def Let_def split: severity_level.splits)

lemma tally_highest [simp]: "sum_highest (tally sev s) = sum_highest s"
  by (simp add: tally_def split: severity_level.splits)

lemma summary_highest_acc:
  assumes "total_order le"
  shows "sum_highest (fold (summary_step le) as s) = None \<longleftrightarrow> as = [] \<and> sum_highest s = None"
    and "sum_highest (fold (summary_step le) as s) = Some h \<Longrightarrow>
         (\<forall>a \<in> set as. le (severity a) h) \<and> (\<forall>g. sum_highest s = Some g \<longrightarrow> le g h)
         \<and> (h \<in> severity ` set as \<or> sum_highest s = Some h)"
proof -
  show "sum_highest (fold (summary_step le) as s) = None \<longleftrightarrow> as = [] \<and> sum_highest s = None"
  proof (induction as arbitrary: s)
    case (Cons a as)
    show ?case unfolding fold.simps o_apply Cons by (simp add: summary_step_def Let_def)
  qed simp
  have refl: "le x x" and trans: "le x y \<Longrightarrow> le y z \<Longrightarrow> le x z" and tot: "le x y \<or> le y x" for x y z
    using assms unfolding total_order_def by blast+
  show "(\<forall>a \<in> set as. le (severity a) h) \<and> (\<forall>g. sum_highest s = Some g \<longrightarrow> le g h)
      \<and> (h \<in> severity ` set as \<or> sum_highest s = Some h)"
    if "sum_highest (fold (summary_step le) as s) = Some h"
    using that
  proof (induction as arbitrary: s)
    case Nil
    then show ?case using refl by simp
  next
    case (Cons a as)
    define s' where "s' = summary_step le a s"
    have up: "(\<forall>a \<in> set as. le (severity a) h) \<and> (\<forall>g. sum_highest s' = Some g \<longrightarrow> le g h)
        \<and> (h \<in> severity ` set as \<or> sum_highest s' = Some h)"
      using Cons.IH [of s'] Cons.prems by (simp add: s'_def)
    obtain g' where g': "sum_highest s' = Some g'"
      "g' = severity a \<or> sum_highest s = Some g'" "le (severity a) g'"
      "\<And>g. sum_highest s = Some g \<Longrightarrow> le g g'"
    proof (cases "sum_highest s")
      case None
      then have "sum_highest s' = Some (severity a)" by (simp add: s'_def summary_step_def Let_def)
      with None that refl show ?thesis by simp
    next
      case (Some g)
      then have "sum_highest s' = Some (max_by le g (severity a))"
        by (simp add: s'_def summary_step_def Let_def)
      with Some that [of "max_by le g (severity a)"] refl tot [of g "severity a"] show ?thesis
        by (auto simp: max_by_def)
    qed
    show ?case using up g' trans by auto
  qed
qed

subsection \<open>Properties\<close>

text \<open>The machine code of a finding identifies its kind: two findings carry the same code
  exactly when they are of the same variant, and then they have the same severity and the same
  ATT&CK techniques. Every code has the prefix of the scheme.\<close>

theorem code_identifies_kind:
  "(code a = code b \<longleftrightarrow> variant a = variant b)
    \<and> (code a = code b \<longrightarrow> severity a = severity b \<and> mitre_techniques a = mitre_techniques b)
    \<and> take 5 (code a) = ''VHDX-''"
  using code_inj [of a b] variant_tables [of a] variant_tables [of b] code_prefix [of a] by auto

theorem code_identifies_kind_witness:
  "severity (DirtyLog 1 2) = severity (DirtyLog 3 4)"
  using code_identifies_kind [of "DirtyLog 1 2" "DirtyLog 3 4"] by simp

text \<open>The summary of a list of findings counts them by severity, the five counts adding up to
  the total, and names a severity that occurs, that no finding exceeds and at which the filter
  keeps a finding; it names none exactly for the empty list.\<close>

theorem summary_exact:
  assumes "total_order le"
  shows "sum_total (summary le as) = length as
    \<and> sum_critical (summary le as) = count_of Critical as \<and> sum_high (summary le as) = count_of High as
    \<and> sum_medium (summary le as) = count_of Medium as \<and> sum_low (summary le as) = count_of Low as
    \<and> sum_info (summary le as) = count_of Info as
    \<and> count_of Critical as + count_of High as + count_of Medium as + count_of Low as + count_of Info as
        = length as
    \<and> (sum_highest (summary le as) = None \<longleftrightarrow> as = [])
    \<and> (\<forall>h. sum_highest (summary le as) = Some h \<longrightarrow>
        h \<in> severity ` set as \<and> anomalies_at_least le as h \<noteq> []
        \<and> (\<forall>a \<in> set as. le (severity a) h))"
proof -
  have all: "count_of Critical as + count_of High as + count_of Medium as + count_of Low as
      + count_of Info as = length as"
  proof (induction as)
    case (Cons a as)
    then show ?case by (cases "severity a") (simp_all add: count_of_def)
  qed (simp add: count_of_def)
  have refl: "le x x" for x using assms by (simp add: total_order_def)
  show ?thesis
    using all summary_counts_acc [of le as empty_summary] summary_highest_acc [OF assms, of as empty_summary]
      refl
    by (auto simp: summary_def empty_summary_def anomalies_at_least_def filter_empty_conv)
qed

definition by_rank :: "severity_level \<Rightarrow> severity_level \<Rightarrow> bool" where
  "by_rank x y \<longleftrightarrow> (case x of Info \<Rightarrow> 0 | Low \<Rightarrow> 1 | Medium \<Rightarrow> 2 | High \<Rightarrow> 3 | Critical \<Rightarrow> (4 :: nat))
    \<le> (case y of Info \<Rightarrow> 0 | Low \<Rightarrow> 1 | Medium \<Rightarrow> 2 | High \<Rightarrow> 3 | Critical \<Rightarrow> 4)"

theorem summary_exact_witness:
  "sum_highest (summary by_rank [DifferencingDisk, BothHeaderCopiesInvalid, MissingParentLocator]) \<noteq> None"
proof -
  have "total_order by_rank"
    by (auto simp: total_order_def by_rank_def split: severity_level.splits)
  from summary_exact [OF this, of "[DifferencingDisk, BothHeaderCopiesInvalid, MissingParentLocator]"]
  show ?thesis by simp
qed

end
