(* ===== verification/Integrity.thy ===== *)
theory Integrity
  imports Region Anomaly
begin

text \<open>
  The container, header and region table checks of the analyser
  (\<open>forensic/src/integrity.rs\<close>). A check takes the bytes of the image and returns its
  findings in the order in which the source pushes them. A slice whose bounds are established
  by the guard before it, or by the checksum test of the caller, is a \<open>window\<close>; the
  accessors \<open>r16\<close>, \<open>r32\<close>, \<open>r64\<close> and \<open>guid_at\<close> are those of \<open>Bytes\<close>.
\<close>

abbreviation r16 :: "bytes \<Rightarrow> nat \<Rightarrow> u16" where "r16 \<equiv> le_u16"
abbreviation r32 :: "bytes \<Rightarrow> nat \<Rightarrow> u32" where "r32 \<equiv> le_u32"
abbreviation r64 :: "bytes \<Rightarrow> nat \<Rightarrow> u64" where "r64 \<equiv> le_u64"
abbreviation guid_at :: "bytes \<Rightarrow> nat \<Rightarrow> bytes" where "guid_at \<equiv> le_arr16"

definition AUDIT_MIN_SIZE :: nat where "AUDIT_MIN_SIZE = 0x00050000"
definition DATA_AREA :: nat where "DATA_AREA = 0x00100000"

text \<open>The bytes of \<open>vhdxfile\<close>.\<close>

definition AUDIT_MAGIC :: bytes where
  "AUDIT_MAGIC = [0x76, 0x68, 0x64, 0x78, 0x66, 0x69, 0x6C, 0x65]"

definition report :: "bool \<Rightarrow> anomaly \<Rightarrow> anomaly list" where
  "report c a = (if c then [a] else [])"

definition all_zero :: "bytes \<Rightarrow> bool" where
  "all_zero bs = list_all (\<lambda>b. b = 0) bs"

definition first_nonzero :: "bytes \<Rightarrow> nat" where
  "first_nonzero bs = length (takeWhile (\<lambda>b. b = 0) bs)"

definition count_nonzero :: "bytes \<Rightarrow> nat" where
  "count_nonzero bs = length (filter (\<lambda>b. b \<noteq> 0) bs)"

definition header_offset :: "nat \<Rightarrow> nat" where
  "header_offset copy = (if copy = 1 then HEADER1_OFFSET else HEADER2_OFFSET)"

definition rt_offset :: "nat \<Rightarrow> nat" where
  "rt_offset copy = (if copy = 1 then REGION_TABLE1_OFFSET else REGION_TABLE2_OFFSET)"

definition region_name_for_guid :: "bytes \<Rightarrow> string option" where
  "region_name_for_guid guid =
     (if guid = BAT_GUID then Some ''BAT''
      else if guid = METADATA_GUID then Some ''Metadata''
      else None)"

subsection \<open>Checksums of the structural blocks\<close>

definition verify_block_crc :: "bytes \<Rightarrow> nat \<Rightarrow> nat \<Rightarrow> bytes \<Rightarrow> (u32 \<times> u32, unit) outcome" where
  "verify_block_crc d offset sz sig =
     and_then (ok_or (Option.bind (checked_add offset sz) (\<lambda>e. if e \<le> length d then Some e else None))
                (0, 0)) (\<lambda>bend.
     let block = window d offset (bend - offset) in
     if take (length sig) block \<noteq> sig then Err (0, 0)
     else
       let stored = r32 block 4 in
       and_then (block_crc block) (\<lambda>computed.
       if computed = stored then Ok () else Err (computed, stored)))"

definition check_single_header_crc :: "bytes \<Rightarrow> nat \<Rightarrow> anomaly option" where
  "check_single_header_crc d copy =
     (let off = (if copy = 1 then HEADER1_OFFSET else HEADER2_OFFSET) in
      if length d < off + HEADER_SIZE then Some (HeaderChecksumMismatch copy 0 0)
      else
        let block = window d off HEADER_SIZE in
        if window block 0 4 \<noteq> HEADER_SIGNATURE then Some (HeaderChecksumMismatch copy 0 0)
        else
          let stored = r32 block 4;
              computed = crc32c (zero_crc block)
          in
          if computed \<noteq> stored
          then Some (HeaderChecksumMismatch copy (unat computed) (unat stored))
          else None)"

definition check_single_rt_crc :: "bytes \<Rightarrow> nat \<Rightarrow> anomaly option" where
  "check_single_rt_crc d copy =
     (let off = (if copy = 1 then REGION_TABLE1_OFFSET else REGION_TABLE2_OFFSET) in
      if length d < off + REGION_TABLE_CRC_COVERAGE
      then Some (RegionTableChecksumMismatch copy 0 0)
      else
        let block = window d off REGION_TABLE_CRC_COVERAGE in
        if window block 0 4 \<noteq> REGION_TABLE_SIGNATURE
        then Some (RegionTableChecksumMismatch copy 0 0)
        else
          let stored = r32 block 4;
              computed = crc32c (zero_crc block)
          in
          if computed \<noteq> stored
          then Some (RegionTableChecksumMismatch copy (unat computed) (unat stored))
          else None)"

definition active_header_block :: "bytes \<Rightarrow> bytes option" where
  "active_header_block d =
     (let h1_ok = check_single_header_crc d 1 = None;
          h2_ok = check_single_header_crc d 2 = None
      in
      if h1_ok \<and> h2_ok then
        (if r64 d (HEADER1_OFFSET + 8) \<ge> r64 d (HEADER2_OFFSET + 8)
         then Some (window d HEADER1_OFFSET HEADER_SIZE)
         else Some (window d HEADER2_OFFSET HEADER_SIZE))
      else if h1_ok then Some (window d HEADER1_OFFSET HEADER_SIZE)
      else if h2_ok then Some (window d HEADER2_OFFSET HEADER_SIZE)
      else None)"

subsection \<open>Layer 1: the container\<close>

definition check_file_magic :: "bytes \<Rightarrow> anomaly list" where
  "check_file_magic d =
     (if length d < AUDIT_MIN_SIZE then [ContainerTruncated (length d) AUDIT_MIN_SIZE]
      else report (window d 0 8 \<noteq> AUDIT_MAGIC) (anomaly.BadMagic (window d 0 8)))"

definition check_file_identifier_reserved :: "bytes \<Rightarrow> anomaly list" where
  "check_file_identifier_reserved d =
     (if length d < 65536 then []
      else
        let reserved = window d 512 (65536 - 512) in
        if all_zero reserved then []
        else
          let pos = first_nonzero reserved in
          [FileIdentifierReservedNonZero (512 + pos) (count_nonzero (drop pos reserved))])"

definition fixed_gaps :: "(string \<times> string \<times> nat \<times> nat) list" where
  "fixed_gaps =
     [(''Header1'', ''Header2'', HEADER1_OFFSET + HEADER_SIZE, HEADER2_OFFSET),
      (''Header2'', ''RegionTable1'', HEADER2_OFFSET + HEADER_SIZE, REGION_TABLE1_OFFSET),
      (''RegionTable2'', ''DataArea'', REGION_TABLE2_OFFSET + REGION_TABLE_CRC_COVERAGE, DATA_AREA)]"

primrec gap_loop :: "bytes \<Rightarrow> (string \<times> string \<times> nat \<times> nat) list \<Rightarrow> anomaly list" where
  "gap_loop d [] = []"
| "gap_loop d (g # gs) =
     (case g of (from_region, to_region, gap_start, gap_end) \<Rightarrow>
        if length d < gap_end then []
        else
          report (\<not> all_zero (window d gap_start (gap_end - gap_start)))
            (InterRegionGapNonZero from_region to_region gap_start (gap_end - gap_start))
          @ gap_loop d gs)"

definition check_inter_region_gaps :: "bytes \<Rightarrow> anomaly list" where
  "check_inter_region_gaps d = (if length d < DATA_AREA then [] else gap_loop d fixed_gaps)"

subsection \<open>Layer 2: the headers\<close>

definition abs_diff :: "u64 \<Rightarrow> u64 \<Rightarrow> nat" where
  "abs_diff a b = (if unat a \<ge> unat b then unat a - unat b else unat b - unat a)"

definition check_header_pair :: "bytes \<Rightarrow> anomaly list" where
  "check_header_pair d =
     (let h1 = window d HEADER1_OFFSET HEADER_SIZE;
          h2 = window d HEADER2_OFFSET HEADER_SIZE;
          seq1 = r64 h1 8;
          seq2 = r64 h2 8
      in
      (if seq1 = 0 \<and> seq2 = 0 then [BothSequenceNumbersZero]
       else if seq1 = seq2 then [SequenceNumbersIdentical (unat seq1)]
       else report (abs_diff seq1 seq2 > 1)
              (SequenceNumberGapLarge (unat seq1) (unat seq2) (abs_diff seq1 seq2)))
      @ report (r32 h1 68 \<noteq> r32 h2 68)
          (HeaderCopyMismatch ''LogLength'' (unat (r32 h1 68)) (unat (r32 h2 68)))
      @ report (r64 h1 72 \<noteq> r64 h2 72)
          (HeaderCopyMismatch ''LogOffset'' (unat (r64 h1 72)) (unat (r64 h2 72))))"

definition check_header_reserved :: "bytes \<Rightarrow> nat \<Rightarrow> bool \<Rightarrow> nat \<Rightarrow> anomaly list" where
  "check_header_reserved d copy ok off =
     (if ok \<and> length d \<ge> off + HEADER_SIZE then
        let header_reserved = window d (off + 80) (HEADER_SIZE - 80) in
        report (\<not> all_zero header_reserved)
          (HeaderReservedNonZero copy (80 + first_nonzero header_reserved)
             (count_nonzero header_reserved))
      else [])"

definition check_active_header :: "bytes \<Rightarrow> bytes \<Rightarrow> anomaly list" where
  "check_active_header d active =
     (let log_guid = guid_at active 48;
          log_length = unat (r32 active 68);
          log_offset = unat (r64 active 72);
          log_guid_zero = (log_guid = replicate 16 0);
          log_version = r16 active 64;
          version = r16 active 66
      in
      report (all_zero (window active 16 16)) FileWriteGuidAllZeros
      @ report (all_zero (window active 32 16)) DataWriteGuidAllZeros
      @ report (\<not> log_guid_zero \<and> log_length = 0) (LogGuidWithNoLog log_guid)
      @ report (log_guid_zero \<and> log_length > 0) (LogGuidAllZerosWithDirtyLog log_length)
      @ report (log_version \<noteq> 1) (LogVersionInvalid (unat log_version))
      @ report (version \<noteq> 1) (VersionInvalid (unat version))
      @ (if log_length > 0 then
           report (log_offset mod 0x00100000 \<noteq> 0) (LogOffsetMisaligned log_offset)
           @ report (log_length mod 0x00100000 \<noteq> 0) (LogLengthMisaligned log_length)
           @ report (saturating_add log_offset log_length > length d)
               (LogBeyondContainer log_offset log_length (length d))
           @ report (log_offset < 0x00100000) (LogInReservedZone log_offset)
           @ [DirtyLog log_length log_offset]
         else []))"

definition check_headers :: "bytes \<Rightarrow> anomaly list" where
  "check_headers d =
     (let h1_bad = check_single_header_crc d 1;
          h2_bad = check_single_header_crc d 2
      in
      if h1_bad \<noteq> None \<and> h2_bad \<noteq> None then [BothHeaderCopiesInvalid]
      else
        (case h1_bad of Some a \<Rightarrow> [a] | None \<Rightarrow> [])
        @ (case h2_bad of Some a \<Rightarrow> [a] | None \<Rightarrow> [])
        @ (if h1_bad = None \<and> h2_bad = None then check_header_pair d else [])
        @ check_header_reserved d 1 (h1_bad = None) HEADER1_OFFSET
        @ check_header_reserved d 2 (h2_bad = None) HEADER2_OFFSET
        @ (case active_header_block d of
             Some active \<Rightarrow> check_active_header d active
           | None \<Rightarrow> []))"

subsection \<open>Layer 3: the region tables\<close>

primrec rt_pair_loop :: "bytes \<Rightarrow> bytes \<Rightarrow> nat list \<Rightarrow> anomaly list" where
  "rt_pair_loop rt1 rt2 [] = []"
| "rt_pair_loop rt1 rt2 (i # is) =
     (let base = 16 + i * REGION_ENTRY_SIZE in
      if base + REGION_ENTRY_SIZE > length rt1 \<or> base + REGION_ENTRY_SIZE > length rt2 then []
      else
        let guid1 = window rt1 base 16; guid2 = window rt2 base 16 in
        if guid1 \<noteq> guid2 then rt_pair_loop rt1 rt2 is
        else
          (case region_name_for_guid guid1 of
             None \<Rightarrow> rt_pair_loop rt1 rt2 is
           | Some region_name \<Rightarrow>
               let off1 = r64 rt1 (base + 16); off2 = r64 rt2 (base + 16);
                   len1 = r32 rt1 (base + 24); len2 = r32 rt2 (base + 24)
               in
               report (off1 \<noteq> off2)
                 (RegionTableCopyMismatch region_name ''file_offset'' (unat off1) (unat off2))
               @ report (len1 \<noteq> len2)
                   (RegionTableCopyMismatch region_name ''length'' (unat len1) (unat len2))
               @ rt_pair_loop rt1 rt2 is))"

definition check_region_table_pair :: "bytes \<Rightarrow> anomaly list" where
  "check_region_table_pair d =
     (let rt1 = window d REGION_TABLE1_OFFSET REGION_TABLE_CRC_COVERAGE;
          rt2 = window d REGION_TABLE2_OFFSET REGION_TABLE_CRC_COVERAGE;
          count1 = min (unat (r32 rt1 8)) 2048;
          count2 = min (unat (r32 rt2 8)) 2048
      in rt_pair_loop rt1 rt2 [0..<min count1 count2])"

definition check_region_tables :: "bytes \<Rightarrow> anomaly list" where
  "check_region_tables d =
     (let rt1_bad = check_single_rt_crc d 1;
          rt2_bad = check_single_rt_crc d 2
      in
      if rt1_bad \<noteq> None \<and> rt2_bad \<noteq> None then [BothRegionTableCopiesInvalid]
      else
        (case rt1_bad of Some a \<Rightarrow> [a] | None \<Rightarrow> [])
        @ (case rt2_bad of Some a \<Rightarrow> [a] | None \<Rightarrow> [])
        @ (if rt1_bad = None \<and> rt2_bad = None then check_region_table_pair d else []))"

end
