(* ===== verification/Layout.thy ===== *)
theory Layout
  imports Integrity Log
begin

text \<open>
  The audit of the log and of the region layout (\<open>check_log\<close> and \<open>check_region_layout\<close>
  of \<open>forensic/src/integrity.rs\<close>).
\<close>

subsection \<open>The log\<close>

function audit_log_loop :: "bytes \<Rightarrow> nat \<Rightarrow> bytes \<Rightarrow> nat \<Rightarrow> u64 option \<Rightarrow> anomaly list" where
  "audit_log_loop log log_pos header_guid pos prev_seq =
     (if pos + 64 > length log then []
      else if window log pos 4 \<noteq> LOG_ENTRY_SIGNATURE
      then [LogEntrySignatureMissing (log_pos + pos)]
      else
        let entry_length = unat (r32 log (pos + 8)) in
        if entry_length < 64 \<or> pos + entry_length > length log then []
        else
          let stored_crc = r32 log (pos + 4);
              computed_crc = crc32c (zero_crc (window log pos entry_length))
          in
          if computed_crc \<noteq> stored_crc
          then LogEntryCrcMismatch (log_pos + pos) (unat computed_crc) (unat stored_crc)
                 # audit_log_loop log log_pos header_guid (pos + entry_length) prev_seq
          else
            let entry_guid = guid_at log (pos + 32); seq = r64 log (pos + 16) in
            report (entry_guid \<noteq> header_guid)
              (LogEntryGuidMismatch (log_pos + pos) entry_guid header_guid)
            @ (case prev_seq of
                 Some prev \<Rightarrow>
                   report (seq \<noteq> prev + 1)
                     (LogSequenceNumberGap (log_pos + pos) (unat (prev + 1)) (unat seq))
               | None \<Rightarrow> [])
            @ audit_log_loop log log_pos header_guid (pos + entry_length) (Some seq))"
  by pat_completeness auto
termination
  by (relation "measure (\<lambda>(log, o1, g, pos, prev). length log - pos)") auto

declare audit_log_loop.simps [simp del]

definition check_log :: "bytes \<Rightarrow> anomaly list" where
  "check_log d =
     (case active_header_block d of
        None \<Rightarrow> []
      | Some active \<Rightarrow>
          let log_length = unat (r32 active 68);
              log_offset = unat (r64 active 72);
              header_log_guid = guid_at active 48
          in
          if log_length = 0 then []
          else if header_log_guid = ZERO_GUID then []
          else
            let log_end = saturating_add log_offset log_length in
            if length d < log_end then []
            else
              let log_data = window d log_offset (log_end - log_offset) in
              if all_zero log_data then [LogZeroedButDirty log_offset log_length]
              else audit_log_loop log_data log_offset header_log_guid 0 None)"

subsection \<open>The region layout\<close>

definition hex_digit :: "nat \<Rightarrow> char" where
  "hex_digit n = ''0123456789abcdef'' ! (n mod 16)"

definition hex :: "bytes \<Rightarrow> string" where
  "hex bs = concat (map (\<lambda>b. [hex_digit (unat b div 16), hex_digit (unat b)]) bs)"

type_synonym known_region = "string \<times> nat \<times> nat"

primrec layout_loop ::
  "bytes \<Rightarrow> nat \<Rightarrow> nat \<Rightarrow> nat list \<Rightarrow> anomaly list \<times> known_region list"
where
  "layout_loop rt copy container_size [] = ([], [])"
| "layout_loop rt copy container_size (i # is) =
     (let base = 16 + i * REGION_ENTRY_SIZE in
      if base + REGION_ENTRY_SIZE > length rt then ([], [])
      else
        let guid = window rt base 16;
            file_offset = unat (r64 rt (base + 16));
            len = unat (r32 rt (base + 24));
            required_field = r32 rt (base + 28);
            reserved_bits = required_field AND NOT 1;
            reserved = report (reserved_bits \<noteq> 0)
              (RegionTableReservedNonZero copy ''entry'' (unat reserved_bits));
            (issues, known) = layout_loop rt copy container_size is
        in
        (case region_name_for_guid guid of
           None \<Rightarrow>
             (reserved
              @ report (required_field AND 1 \<noteq> 0) (UnknownRequiredRegion (hex guid)) @ issues, known)
         | Some region_name \<Rightarrow>
             let declared_end = saturating_add file_offset len in
             (reserved
              @ report (file_offset mod 0x00100000 \<noteq> 0) (RegionMisaligned region_name file_offset)
              @ report (declared_end > container_size)
                  (RegionBeyondContainer region_name declared_end container_size)
              @ issues,
              (region_name, file_offset, declared_end) # known)))"

fun all_pairs :: "'a list \<Rightarrow> ('a \<times> 'a) list" where
  "all_pairs [] = []"
| "all_pairs (x # xs) = map (\<lambda>y. (x, y)) xs @ all_pairs xs"

definition region_overlaps :: "known_region list \<Rightarrow> anomaly list" where
  "region_overlaps known =
     concat (map (\<lambda>((name_a, start_a, end_a), (name_b, start_b, end_b)).
         let overlap_start = max start_a start_b; overlap_end = min end_a end_b in
         report (overlap_start < overlap_end) (RegionsOverlap name_a name_b overlap_start))
       (all_pairs known))"

definition LOG_RESERVED_ZONE_END :: nat where "LOG_RESERVED_ZONE_END = 0x00050000"

definition structural_zones :: "known_region list" where
  "structural_zones =
     [(''FileIdentifier'', 0x00000000, 0x00010000),
      (''Header1'', 0x00010000, 0x00020000),
      (''Header2'', 0x00020000, 0x00030000),
      (''RegionTable1'', 0x00030000, 0x00040000),
      (''RegionTable2'', 0x00040000, LOG_RESERVED_ZONE_END)]"

definition log_overlaps :: "bytes \<Rightarrow> anomaly list" where
  "log_overlaps d =
     (case active_header_block d of
        None \<Rightarrow> []
      | Some active \<Rightarrow>
          let log_length = unat (r32 active 68); log_offset = unat (r64 active 72) in
          if log_length > 0 then
            let log_end = saturating_add log_offset log_length in
            concat (map (\<lambda>(name, s_start, s_end).
                report (max log_offset s_start < min log_end s_end)
                  (LogOverlapsStructuralRegion log_offset name)) structural_zones)
          else [])"

definition check_region_layout :: "bytes \<Rightarrow> anomaly list" where
  "check_region_layout d =
     (case find (\<lambda>(off, c). check_single_rt_crc d c = None)
             [(REGION_TABLE1_OFFSET, 1), (REGION_TABLE2_OFFSET, 2)] of
        None \<Rightarrow> []
      | Some (rt_off, copy) \<Rightarrow>
          let rt = window d rt_off REGION_TABLE_CRC_COVERAGE;
              header_reserved = r32 rt 12;
              entry_count = min (unat (r32 rt 8)) 2048;
              reserved = report (header_reserved \<noteq> 0)
                (RegionTableReservedNonZero copy ''header'' (unat header_reserved))
          in
          if entry_count = 0 then reserved @ [RegionEntryCountZero copy]
          else
            let (issues, known) = layout_loop rt copy (length d) [0..<entry_count] in
            reserved @ issues @ region_overlaps known @ log_overlaps d)"

end
