(* ===== verification/Regions.thy ===== *)
theory Regions
  imports Integrity Metadata
begin

text \<open>
  The tolerant parse of the region table and the metadata table (\<open>ParsedRegions\<close>,
  \<open>try_parse_regions\<close>, \<open>parse_regions\<close> of \<open>forensic/src/integrity.rs\<close>), and the
  validation of the metadata (\<open>check_metadata_inner\<close>).
\<close>

record parsed_regions =
  pr_bat_offset :: u64
  pr_bat_length :: u32
  pr_meta_offset :: u64
  pr_meta_length :: u32
  pr_block_size :: "u32 option"
  pr_logical_ss :: "u32 option"
  pr_vdisk_size :: "u64 option"
  pr_chunk_ratio :: "nat option"
  pr_has_parent :: bool
  pr_leave_alloc :: bool
  pr_physical_ss :: "u32 option"
  pr_vdisk_id :: "bytes option"
  pr_has_parent_locator :: bool

primrec find_regions ::
  "bytes \<Rightarrow> nat list \<Rightarrow> (u64 \<times> u32) option \<Rightarrow> (u64 \<times> u32) option \<Rightarrow>
   (u64 \<times> u32) option \<times> (u64 \<times> u32) option"
where
  "find_regions rt [] bat meta = (bat, meta)"
| "find_regions rt (i # is) bat meta =
     (let base = 16 + i * REGION_ENTRY_SIZE in
      if base + REGION_ENTRY_SIZE > length rt then (bat, meta)
      else
        let guid = window rt base 16;
            off = r64 rt (base + 16);
            len = r32 rt (base + 24)
        in
        if guid = BAT_GUID then find_regions rt is (Some (off, len)) meta
        else if guid = METADATA_GUID then find_regions rt is bat (Some (off, len))
        else find_regions rt is bat meta)"

text \<open>The fields of \<open>parsed_regions\<close> that the metadata items fill.\<close>

record audit_items =
  ai_block_size :: "u32 option"
  ai_logical_ss :: "u32 option"
  ai_vdisk_size :: "u64 option"
  ai_has_parent :: bool
  ai_leave_alloc :: bool
  ai_physical_ss :: "u32 option"
  ai_vdisk_id :: "bytes option"
  ai_has_parent_locator :: bool

definition no_audit_items :: audit_items where
  "no_audit_items =
     \<lparr> ai_block_size = None, ai_logical_ss = None, ai_vdisk_size = None, ai_has_parent = False,
       ai_leave_alloc = False, ai_physical_ss = None, ai_vdisk_id = None,
       ai_has_parent_locator = False \<rparr>"

definition audit_item :: "bytes \<Rightarrow> bytes \<Rightarrow> nat \<Rightarrow> audit_items \<Rightarrow> audit_items" where
  "audit_item d guid data_start s =
     (if guid = GUID_FILE_PARAMETERS \<and> length d \<ge> data_start + 8 then
        s\<lparr> ai_block_size := Some (r32 d data_start),
           ai_leave_alloc := (r32 d (data_start + 4) AND 1 \<noteq> 0),
           ai_has_parent := (r32 d (data_start + 4) AND 2 \<noteq> 0) \<rparr>
      else if guid = GUID_VIRTUAL_DISK_SIZE \<and> length d \<ge> data_start + 8 then
        s\<lparr> ai_vdisk_size := Some (r64 d data_start) \<rparr>
      else if guid = GUID_LOGICAL_SECTOR_SIZE \<and> length d \<ge> data_start + 4 then
        s\<lparr> ai_logical_ss := Some (r32 d data_start) \<rparr>
      else if guid = GUID_PHYSICAL_SECTOR_SIZE \<and> length d \<ge> data_start + 4 then
        s\<lparr> ai_physical_ss := Some (r32 d data_start) \<rparr>
      else if guid = GUID_VIRTUAL_DISK_ID \<and> length d \<ge> data_start + 16 then
        s\<lparr> ai_vdisk_id := Some (window d data_start 16) \<rparr>
      else if guid = GUID_PARENT_LOCATOR then s\<lparr> ai_has_parent_locator := True \<rparr>
      else s)"

primrec audit_items_loop ::
  "bytes \<Rightarrow> nat \<Rightarrow> bytes \<Rightarrow> nat list \<Rightarrow> audit_items \<Rightarrow> audit_items option"
where
  "audit_items_loop d meta_start region [] s = Some s"
| "audit_items_loop d meta_start region (i # is) s =
     (let base = 32 + i * 32 in
      if base + 32 > length region then Some s
      else
        Option.bind (checked_add meta_start (unat (r32 region (base + 16)))) (\<lambda>data_start.
        audit_items_loop d meta_start region is
          (audit_item d (window region base 16) data_start s)))"

definition read_audit_items :: "bytes \<Rightarrow> nat \<Rightarrow> nat \<Rightarrow> audit_items option" where
  "read_audit_items d meta_start meta_length =
     (let meta_table_end = saturating_add meta_start meta_length in
      if length d \<ge> meta_table_end \<and> meta_length \<ge> 8 then
        let region = window d meta_start (meta_table_end - meta_start) in
        if window region 0 8 = METADATA_TABLE_SIGNATURE then
          audit_items_loop d meta_start region [0..<min (unat (r16 region 10)) 256] no_audit_items
        else Some no_audit_items
      else Some no_audit_items)"

definition audit_chunk_ratio :: "u32 option \<Rightarrow> u32 option \<Rightarrow> nat option" where
  "audit_chunk_ratio bs ss =
     (case (bs, ss) of
        (Some b, Some s) \<Rightarrow>
          if unat b > 0 \<and> unat s > 0 then Some (2 ^ 23 * unat s div unat b) else None
      | (Some b, None) \<Rightarrow> if unat b > 0 then Some (2 ^ 23 * 512 div unat b) else None
      | _ \<Rightarrow> None)"

definition try_parse_regions :: "bytes \<Rightarrow> nat \<Rightarrow> parsed_regions option" where
  "try_parse_regions d rt_off =
     (if length d < rt_off + REGION_TABLE_CRC_COVERAGE then None
      else
        let rt = window d rt_off REGION_TABLE_CRC_COVERAGE in
        if window rt 0 4 \<noteq> REGION_TABLE_SIGNATURE then None
        else if crc32c (zero_crc rt) \<noteq> r32 rt 4 then None
        else
          let entry_count = min (unat (r32 rt 8)) 2048 in
          (case find_regions rt [0..<entry_count] None None of
             (Some (bat_offset, bat_length), Some (meta_offset, meta_length)) \<Rightarrow>
               Option.bind (read_audit_items d (unat meta_offset) (unat meta_length)) (\<lambda>s.
               Some \<lparr> pr_bat_offset = bat_offset, pr_bat_length = bat_length,
                      pr_meta_offset = meta_offset, pr_meta_length = meta_length,
                      pr_block_size = ai_block_size s, pr_logical_ss = ai_logical_ss s,
                      pr_vdisk_size = ai_vdisk_size s,
                      pr_chunk_ratio = audit_chunk_ratio (ai_block_size s) (ai_logical_ss s),
                      pr_has_parent = ai_has_parent s, pr_leave_alloc = ai_leave_alloc s,
                      pr_physical_ss = ai_physical_ss s, pr_vdisk_id = ai_vdisk_id s,
                      pr_has_parent_locator = ai_has_parent_locator s \<rparr>)
           | _ \<Rightarrow> None))"

definition parse_regions :: "bytes \<Rightarrow> parsed_regions option" where
  "parse_regions d =
     (case try_parse_regions d REGION_TABLE1_OFFSET of
        Some r \<Rightarrow> Some r
      | None \<Rightarrow> try_parse_regions d REGION_TABLE2_OFFSET)"

definition bat_region_offset :: "bytes \<Rightarrow> u64 option" where
  "bat_region_offset d = map_option pr_bat_offset (parse_regions d)"

subsection \<open>Metadata items\<close>

definition saturating_add_u32 :: "nat \<Rightarrow> nat \<Rightarrow> nat" where
  "saturating_add_u32 a b = min (a + b) (2 ^ 32 - 1)"

primrec item_ranges_loop ::
  "bytes \<Rightarrow> nat \<Rightarrow> nat list \<Rightarrow> anomaly list \<times> (nat \<times> nat) list"
where
  "item_ranges_loop region region_size [] = ([], [])"
| "item_ranges_loop region region_size (i # is) =
     (let base = 32 + i * 32 in
      if base + 32 > length region then ([], [])
      else
        let item_off = unat (r32 region (base + 16));
            item_len = unat (r32 region (base + 20));
            item_end = saturating_add_u32 item_off item_len;
            (issues, ranges) = item_ranges_loop region region_size is
        in
        (report (item_end > region_size) (MetadataItemBeyondRegion item_off item_end region_size)
           @ issues,
         (item_off, item_end) # ranges))"

text \<open>Neighbouring pairs, \<open>windows(2)\<close>.\<close>

fun neighbours :: "'a list \<Rightarrow> ('a \<times> 'a) list" where
  "neighbours (x # y # zs) = (x, y) # neighbours (y # zs)"
| "neighbours _ = []"

text \<open>
  \<open>sort_unstable_by_key\<close> promises no order among equal keys; the stable order is the one
  written here.
\<close>

definition item_overlaps :: "(nat \<times> nat) list \<Rightarrow> anomaly list" where
  "item_overlaps ranges =
     concat (map (\<lambda>((a_off, a_end), (b_off, b_end)).
         report (b_off < a_end \<and> b_end > a_off)
           (MetadataItemsOverlap a_off b_off (max a_off b_off)))
       (neighbours (sort_key fst ranges)))"

definition check_items :: "bytes \<Rightarrow> parsed_regions \<Rightarrow> anomaly list" where
  "check_items d r =
     (let meta_start = unat (pr_meta_offset r);
          meta_length = unat (pr_meta_length r);
          meta_end = saturating_add meta_start meta_length
      in
      if length d \<ge> meta_end \<and> meta_length \<ge> 8 then
        let region = window d meta_start (meta_end - meta_start) in
        if window region 0 8 = METADATA_TABLE_SIGNATURE then
          let (issues, ranges) =
                item_ranges_loop region meta_length [0..<min (unat (r16 region 10)) 2048]
          in issues @ item_overlaps ranges
        else []
      else [])"

definition check_block_size :: "u32 option \<Rightarrow> anomaly list" where
  "check_block_size b =
     (case b of
        None \<Rightarrow> [anomaly.MetadataMissing ''BlockSize'']
      | Some bs \<Rightarrow>
          if bs = 0 \<or> bs < BLOCK_SIZE_MIN \<or> bs > BLOCK_SIZE_MAX
          then [BlockSizeInvalid (unat bs) ''outside spec range [1 MB, 256 MB]'']
          else report (count_ones bs \<noteq> 1) (BlockSizeInvalid (unat bs) ''not a power of two''))"

definition check_vdisk_size :: "u64 option \<Rightarrow> u32 option \<Rightarrow> anomaly list" where
  "check_vdisk_size v ss =
     (case v of
        None \<Rightarrow> [anomaly.MetadataMissing ''VirtualDiskSize'']
      | Some vds \<Rightarrow>
          if vds = 0 then [VirtualDiskSizeInvalid 0 ''zero'']
          else
            let sector_sz = unat (case ss of Some s \<Rightarrow> s | None \<Rightarrow> 512) in
            report (vds > VIRTUAL_DISK_SIZE_MAX)
              (VirtualDiskSizeInvalid (unat vds) ''exceeds 64 TiB spec limit'')
            @ report (sector_sz > 0 \<and> unat vds mod sector_sz \<noteq> 0)
                (VirtualDiskSizeInvalid (unat vds) ''not a multiple of LogicalSectorSize''))"

definition check_metadata_inner :: "bytes \<Rightarrow> parsed_regions option \<Rightarrow> anomaly list" where
  "check_metadata_inner d regions =
     (case regions of
        None \<Rightarrow> []
      | Some r \<Rightarrow>
          (if pr_has_parent r
           then DifferencingDisk # report (\<not> pr_has_parent_locator r) MissingParentLocator
           else [])
          @ report (pr_leave_alloc r \<and> \<not> pr_has_parent r) LeaveBlocksAllocatedSet
          @ (case pr_physical_ss r of
               Some ps \<Rightarrow> report (ps \<noteq> 512 \<and> ps \<noteq> 4096) (PhysicalSectorSizeInvalid (unat ps))
             | None \<Rightarrow> [])
          @ (case pr_vdisk_id r of
               Some vid \<Rightarrow> report (vid = replicate 16 0) VirtualDiskIdAllZeros
             | None \<Rightarrow> [])
          @ check_items d r
          @ check_block_size (pr_block_size r)
          @ (case pr_logical_ss r of
               Some ss \<Rightarrow> report (ss \<noteq> 512 \<and> ss \<noteq> 4096) (LogicalSectorSizeInvalid (unat ss))
             | None \<Rightarrow> [])
          @ check_vdisk_size (pr_vdisk_size r) (pr_logical_ss r))"

definition check_metadata :: "bytes \<Rightarrow> anomaly list" where
  "check_metadata d = check_metadata_inner d (parse_regions d)"

end
