(* ===== verification/BatAudit.thy ===== *)
theory BatAudit
  imports Regions Bat
begin

text \<open>
  The audit of the block allocation table and of the data behind it (\<open>check_bat_inner\<close> with
  its three parts, \<open>check_bat_ghost_data\<close>, \<open>check_trailing_data_inner\<close> of
  \<open>forensic/src/integrity.rs\<close>). The fields these checks compute with come from metadata that
  nothing validates, so their arithmetic is written with the operators that can fail.
\<close>

type_synonym 'a checked = "(unit, 'a) outcome"

definition BAT_RESERVED_BITS_MASK :: u64 where "BAT_RESERVED_BITS_MASK = 0x000FFFF8"
definition SB_BLOCK_NOT_PRESENT :: nat where "SB_BLOCK_NOT_PRESENT = 0"
definition SB_BLOCK_PRESENT :: nat where "SB_BLOCK_PRESENT = 6"

text \<open>\<open>bat_offset as usize + index * 8\<close>; the index is below \<open>2 ^ 29\<close>.\<close>

definition bat_entry_pos :: "u64 \<Rightarrow> nat \<Rightarrow> nat checked" where
  "bat_entry_pos bat_offset index =
     and_then (mul_u index 8) (\<lambda>k. add_u (unat bat_offset) k)"

text \<open>\<open>ep + 8 > self.data.len()\<close>\<close>

definition entry_beyond :: "bytes \<Rightarrow> nat \<Rightarrow> bool checked" where
  "entry_beyond d ep = and_then (add_u ep 8) (\<lambda>e. Ok (e > length d))"

text \<open>\<open>div_ceil\<close> and \<open>next_multiple_of\<close> on unsigned integers.\<close>

definition div_ceil :: "nat \<Rightarrow> nat \<Rightarrow> nat checked" where
  "div_ceil a b = (if b = 0 then Panic else Ok ((a + b - 1) div b))"

definition next_multiple_of :: "nat \<Rightarrow> nat \<Rightarrow> nat checked" where
  "next_multiple_of a b =
     and_then (mod_u a b) (\<lambda>r. if r = 0 then Ok a else add_u a (b - r))"

definition checked_next_multiple_of :: "nat \<Rightarrow> nat \<Rightarrow> nat option" where
  "checked_next_multiple_of a b =
     (if b = 0 then None else if a mod b = 0 then Some a else checked_add a (b - a mod b))"

subsection \<open>The size of the table\<close>

definition bat_check_size_formula :: "parsed_regions \<Rightarrow> nat \<Rightarrow> anomaly list checked" where
  "bat_check_size_formula r entry_count =
     (case (pr_block_size r, pr_vdisk_size r, pr_chunk_ratio r) of
        (Some bs, Some vds, Some cr) \<Rightarrow>
          if bs = 0 then Ok []
          else
            and_then (div_ceil (unat vds) (unat bs)) (\<lambda>data_blocks.
            and_then (div_ceil data_blocks cr) (\<lambda>bitmap_blocks.
            and_then (add_u data_blocks bitmap_blocks) (\<lambda>bat_entries_expected.
            and_then (mul_u bat_entries_expected 8) (\<lambda>table_bytes.
            and_then (next_multiple_of table_bytes MB) (\<lambda>rounded.
            let expected_bat_bytes = rounded mod 2 ^ 32 in
            if expected_bat_bytes = unat (pr_bat_length r) then Ok []
            else Ok [BatSizeMetadataMismatch (unat (pr_bat_length r)) entry_count
                       bat_entries_expected (unat vds) (unat bs)])))))
      | _ \<Rightarrow> Ok [])"

subsection \<open>The entries\<close>

definition log_zone :: "bytes \<Rightarrow> (nat \<times> nat) option" where
  "log_zone d =
     Option.bind (active_header_block d) (\<lambda>h.
     let ll = unat (r32 h 68); lo = unat (r64 h 72) in
     if ll > 0 then Some (lo, saturating_add lo ll) else None)"

definition structural_zone :: "bytes \<Rightarrow> parsed_regions \<Rightarrow> nat \<Rightarrow> string option" where
  "structural_zone d r fo =
     (let meta_start = unat (pr_meta_offset r);
          meta_end = saturating_add meta_start (unat (pr_meta_length r))
      in
      if fo < 0x00010000 then Some ''FileIdentifier''
      else if fo < 0x00020000 then Some ''Header1''
      else if fo < 0x00030000 then Some ''Header2''
      else if fo < 0x00040000 then Some ''RegionTable1''
      else if fo < 0x00050000 then Some ''RegionTable2''
      else if fo \<ge> meta_start \<and> fo < meta_end then Some ''Metadata''
      else
        (case log_zone d of
           Some (lo, le) \<Rightarrow> if fo \<ge> lo \<and> fo < le then Some ''Log'' else None
         | None \<Rightarrow> None))"

definition is_bitmap_slot :: "parsed_regions \<Rightarrow> nat \<Rightarrow> bool checked" where
  "is_bitmap_slot r i =
     (case pr_chunk_ratio r of
        None \<Rightarrow> Ok False
      | Some cr \<Rightarrow>
          and_then (add_u cr 1) (\<lambda>period. and_then (mod_u i period) (\<lambda>k. Ok (k = cr))))"

definition state_findings :: "parsed_regions \<Rightarrow> nat \<Rightarrow> nat \<Rightarrow> anomaly list" where
  "state_findings r i state =
     (if state = PAYLOAD_BLOCK_PARTIALLY_PRESENT then [PartiallyPresentBlock i]
      else if state = 1 then [UndefinedBlockState i]
      else report (state = 3 \<and> \<not> pr_has_parent r) (UnmappedBlockInNonDifferencing i))"

text \<open>The bitmap entry of the chunk must be present too.\<close>

definition bitmap_finding :: "bytes \<Rightarrow> parsed_regions \<Rightarrow> nat \<Rightarrow> nat \<Rightarrow> anomaly list checked" where
  "bitmap_finding d r entry_count i =
     (case pr_chunk_ratio r of
        None \<Rightarrow> Ok []
      | Some cr \<Rightarrow>
          and_then (add_u cr 1) (\<lambda>period.
          and_then (div_u i period) (\<lambda>chunk.
          and_then (mul_u chunk period) (\<lambda>base.
          and_then (add_u base cr) (\<lambda>bitmap_idx.
          if bitmap_idx < entry_count then
            and_then (bat_entry_pos (pr_bat_offset r) bitmap_idx) (\<lambda>bep.
            and_then (entry_beyond d bep) (\<lambda>beyond.
            Ok (report (\<not> beyond \<and> entry_state (r64 d bep) = SB_BLOCK_NOT_PRESENT)
                  (MissingSectorBitmap i bitmap_idx))))
          else Ok [])))))"

text \<open>One entry: its findings, and its place in the container when it has one.\<close>

definition scan_entry ::
  "bytes \<Rightarrow> parsed_regions \<Rightarrow> nat \<Rightarrow> nat \<Rightarrow> u64 \<Rightarrow> (anomaly list \<times> (nat \<times> nat) list) checked"
where
  "scan_entry d r entry_count i raw =
     (let state = entry_state raw in
      and_then (is_bitmap_slot r i) (\<lambda>bitmap_slot.
      if bitmap_slot then
        Ok (report (state \<noteq> SB_BLOCK_NOT_PRESENT \<and> state \<noteq> SB_BLOCK_PRESENT)
              (SectorBitmapInvalidState i state), [])
      else
        let states = state_findings r i state in
        if state \<noteq> PAYLOAD_BLOCK_FULLY_PRESENT then Ok (states, [])
        else
          let offset_mb = entry_offset_mb raw in
          and_then (mul_u offset_mb MB) (\<lambda>file_offset.
          let placed =
                states
                @ report (raw AND BAT_RESERVED_BITS_MASK \<noteq> 0) (BatEntryUnaligned i file_offset)
                @ (case structural_zone d r file_offset of
                     Some zone \<Rightarrow> [BatEntryInStructuralRegion i file_offset zone]
                   | None \<Rightarrow> [])
          in
          if file_offset \<ge> length d
          then Ok (placed @ [BatEntryBeyondContainer i file_offset (length d)], [])
          else
            and_then (bitmap_finding d r entry_count i) (\<lambda>bitmap.
            Ok (placed @ bitmap, [(offset_mb, i)])))))"

primrec scan_loop ::
  "bytes \<Rightarrow> parsed_regions \<Rightarrow> nat \<Rightarrow> nat list \<Rightarrow> (anomaly list \<times> (nat \<times> nat) list) checked"
where
  "scan_loop d r entry_count [] = Ok ([], [])"
| "scan_loop d r entry_count (i # is) =
     and_then (bat_entry_pos (pr_bat_offset r) i) (\<lambda>ep.
     and_then (entry_beyond d ep) (\<lambda>beyond.
     if beyond then Ok ([], [])
     else
       and_then (scan_entry d r entry_count i (r64 d ep)) (\<lambda>(issues, present).
       and_then (scan_loop d r entry_count is) (\<lambda>(more, rest).
       Ok (issues @ more, present @ rest)))))"

text \<open>
  \<open>sort_unstable_by_key\<close> promises no order among equal keys; the stable order is the one
  written here.
\<close>

definition entry_overlaps :: "(nat \<times> nat) list \<Rightarrow> anomaly list" where
  "entry_overlaps present =
     concat (map (\<lambda>((off_a, i_a), (off_b, i_b)).
         report (off_a = off_b) (BatEntriesOverlap i_a i_b (off_a * MB)))
       (neighbours (sort_key fst present)))"

definition bat_scan_entries ::
  "bytes \<Rightarrow> parsed_regions \<Rightarrow> nat \<Rightarrow> (anomaly list \<times> (nat \<times> nat) list) checked"
where
  "bat_scan_entries d r entry_count =
     and_then (scan_loop d r entry_count [0..<entry_count]) (\<lambda>(issues, present).
     Ok (issues @ entry_overlaps present, sort_key fst present))"

subsection \<open>Coverage\<close>

definition bat_check_coverage ::
  "parsed_regions \<Rightarrow> (nat \<times> nat) list \<Rightarrow> nat \<Rightarrow> anomaly list checked"
where
  "bat_check_coverage r present entry_count =
     (case (pr_block_size r, pr_vdisk_size r) of
        (Some bs, Some declared_vds) \<Rightarrow>
          if bs = 0 then Ok []
          else
            and_then
              (if present = [] then Ok []
               else
                 and_then (add_u (Max (fst ` set present)) 1) (\<lambda>next_mb.
                 and_then (mul_u next_mb MB) (\<lambda>bat_coverage.
                 Ok (report (bat_coverage > unat declared_vds)
                      (VirtualDiskSizeUnderreported (unat declared_vds) bat_coverage))))) (\<lambda>under.
            and_then
              (case pr_chunk_ratio r of
                 None \<Rightarrow> Ok []
               | Some cr \<Rightarrow>
                   and_then (mul_u entry_count cr) (\<lambda>product.
                   and_then (add_u cr 1) (\<lambda>period.
                   and_then (div_u product period) (\<lambda>max_data_blocks.
                   and_then (mul_u max_data_blocks (unat bs)) (\<lambda>bat_coverage.
                   Ok (report (unat declared_vds > bat_coverage)
                        (VirtualDiskSizeOverreported (unat declared_vds) bat_coverage))))))) (\<lambda>over.
            Ok (under @ over)))
      | _ \<Rightarrow> Ok [])"

definition check_bat_inner :: "bytes \<Rightarrow> parsed_regions option \<Rightarrow> anomaly list checked" where
  "check_bat_inner d regions =
     (case regions of
        None \<Rightarrow> Ok []
      | Some r \<Rightarrow>
          let bat_len = unat (pr_bat_length r);
              bat_end = saturating_add (unat (pr_bat_offset r)) bat_len
          in
          if length d < bat_end \<or> bat_len < 8 then Ok []
          else
            let entry_count = bat_len div 8 in
            and_then (bat_check_size_formula r entry_count) (\<lambda>formula.
            and_then (bat_scan_entries d r entry_count) (\<lambda>(entries, present).
            and_then (bat_check_coverage r present entry_count) (\<lambda>coverage.
            Ok (formula @ entries @ coverage)))))"

definition check_bat :: "bytes \<Rightarrow> anomaly list checked" where
  "check_bat d = check_bat_inner d (parse_regions d)"

subsection \<open>Ghost data\<close>

definition ghost_entry ::
  "bytes \<Rightarrow> parsed_regions \<Rightarrow> nat \<Rightarrow> nat \<Rightarrow> u64 \<Rightarrow> anomaly list checked"
where
  "ghost_entry d r bs i raw =
     (if entry_state raw = PAYLOAD_BLOCK_FULLY_PRESENT then Ok []
      else
        and_then (is_bitmap_slot r i) (\<lambda>bitmap_slot.
        if bitmap_slot then Ok []
        else
          let offset_mb = entry_offset_mb raw in
          if offset_mb = 0 then Ok []
          else
            and_then (mul_u offset_mb MB) (\<lambda>file_offset.
            if file_offset \<ge> length d then Ok []
            else
              let block_end = min (saturating_add file_offset bs) (length d) in
              and_then (slice d file_offset block_end) (\<lambda>block.
              Ok (report (count_nonzero block > 0)
                   (GhostDataInAbsentBlock i file_offset (count_nonzero block)))))))"

primrec ghost_loop ::
  "bytes \<Rightarrow> parsed_regions \<Rightarrow> nat \<Rightarrow> nat list \<Rightarrow> anomaly list checked"
where
  "ghost_loop d r bs [] = Ok []"
| "ghost_loop d r bs (i # is) =
     and_then (bat_entry_pos (pr_bat_offset r) i) (\<lambda>ep.
     and_then (entry_beyond d ep) (\<lambda>beyond.
     if beyond then Ok []
     else
       and_then (ghost_entry d r bs i (r64 d ep)) (\<lambda>issues.
       and_then (ghost_loop d r bs is) (\<lambda>more. Ok (issues @ more)))))"

definition check_bat_ghost_data :: "bytes \<Rightarrow> anomaly list checked" where
  "check_bat_ghost_data d =
     (case parse_regions d of
        None \<Rightarrow> Ok []
      | Some r \<Rightarrow>
          (case pr_block_size r of
             None \<Rightarrow> Ok []
           | Some bs \<Rightarrow>
               if unat bs > 0
               then ghost_loop d r (unat bs) [0..<unat (pr_bat_length r) div 8]
               else Ok []))"

subsection \<open>Trailing data\<close>

primrec trailing_loop ::
  "bytes \<Rightarrow> parsed_regions \<Rightarrow> nat \<Rightarrow> nat list \<Rightarrow> nat \<Rightarrow> nat checked"
where
  "trailing_loop d r bs [] max_end = Ok max_end"
| "trailing_loop d r bs (i # is) max_end =
     and_then (bat_entry_pos (pr_bat_offset r) i) (\<lambda>ep.
     and_then (entry_beyond d ep) (\<lambda>beyond.
     if beyond then Ok max_end
     else
       let raw = r64 d ep in
       if entry_state raw \<noteq> PAYLOAD_BLOCK_FULLY_PRESENT then trailing_loop d r bs is max_end
       else
         and_then (mul_u (entry_offset_mb raw) 0x00100000) (\<lambda>file_offset.
         let block_end = saturating_add file_offset bs in
         trailing_loop d r bs is
           (if block_end \<le> length d \<and> block_end > max_end then block_end else max_end))))"

definition check_trailing_data_inner :: "bytes \<Rightarrow> parsed_regions option \<Rightarrow> anomaly list checked" where
  "check_trailing_data_inner d regions =
     (case regions of
        None \<Rightarrow> Ok []
      | Some r \<Rightarrow>
          (case pr_block_size r of
             None \<Rightarrow> Ok []
           | Some b \<Rightarrow>
               if unat b = 0 then Ok []
               else
                 and_then (trailing_loop d r (unat b) [0..<unat (pr_bat_length r) div 8] 0)
                   (\<lambda>last_end.
                 let max_end =
                       (if last_end = 0 then
                          let bat_end = saturating_add (unat (pr_bat_offset r)) (unat (pr_bat_length r))
                          in (case checked_next_multiple_of bat_end 0x00100000 of
                                Some e \<Rightarrow> e
                              | None \<Rightarrow> 2 ^ 64 - 1)
                        else last_end)
                 in
                 if length d > max_end then
                   Ok (report (\<not> all_zero (drop max_end d))
                        (TrailingData max_end (length d - max_end)))
                 else Ok [])))"

definition check_trailing_data :: "bytes \<Rightarrow> anomaly list checked" where
  "check_trailing_data d = check_trailing_data_inner d (parse_regions d)"

end
