(* ===== verification/Analyse.thy ===== *)
theory Analyse
  imports Layout BatAudit
begin

text \<open>
  The analysis as a whole (\<open>VhdxIntegrity::analyse\<close> of \<open>forensic/src/integrity.rs\<close>): the
  layers in order, with the two gates that end it early.
\<close>

definition is_dirty_log :: "anomaly \<Rightarrow> bool" where
  "is_dirty_log a = (case a of DirtyLog len off \<Rightarrow> True | _ \<Rightarrow> False)"

definition analyse :: "bytes \<Rightarrow> anomaly list checked" where
  "analyse d =
     (let container = check_file_magic d in
      if list_ex (\<lambda>a. severity a = Critical) container then Ok container
      else
        let structural =
              container @ check_file_identifier_reserved d @ check_inter_region_gaps d
              @ check_headers d @ check_region_tables d
        in
        if list_ex (\<lambda>a. a = BothRegionTableCopiesInvalid) structural then Ok structural
        else
          let laid_out = structural @ check_region_layout d;
              logged = laid_out @ (if list_ex is_dirty_log laid_out then check_log d else []);
              regions = parse_regions d
          in
          and_then (check_bat_inner d regions) (\<lambda>bat_issues.
          and_then (check_trailing_data_inner d regions) (\<lambda>trailing.
          Ok (logged @ check_metadata_inner d regions @ bat_issues @ trailing))))"

end
