(* ===== verification/Detection.thy ===== *)
theory Detection
  imports Analyse
begin

text \<open>
  What the container, header and region table checks of the analyser detect: they accept the
  same blocks as the reader, and every accepted copy that is changed is reported by the
  analysis.
\<close>

named_theorems audit_simps

subsection \<open>Reports\<close>

lemma in_report [simp, audit_simps]: "a \<in> set (report c b) \<longleftrightarrow> c \<and> a = b"
  by (auto simp: report_def)

lemma report_Nil [simp, audit_simps]: "report c b = [] \<longleftrightarrow> \<not> c"
  by (simp add: report_def)

subsection \<open>The blocks the analyser accepts\<close>

lemma window_0_4:
  "4 \<le> n \<Longrightarrow> window (window d off n) 0 4 = window d off 4"
  by (simp add: window_window)

lemma single_header_None [audit_simps]:
  "check_single_header_crc d copy = None \<longleftrightarrow> header_valid d (header_offset copy)"
  by (auto simp: check_single_header_crc_def header_offset_def block_valid_def crc_ok_def Let_def
      window_0_4 HEADER_SIZE_def)

lemma single_rt_None [audit_simps]:
  "check_single_rt_crc d copy = None \<longleftrightarrow> region_table_valid d (rt_offset copy)"
  by (auto simp: check_single_rt_crc_def rt_offset_def block_valid_def crc_ok_def Let_def
      window_0_4 REGION_TABLE_CRC_COVERAGE_def)

lemma verify_block_Ok:
  assumes "length sig = 4" and "8 \<le> sz" and "off + sz < 2 ^ 64"
  shows "verify_block_crc d off sz sig = Ok () \<longleftrightarrow> block_valid sig sz d off"
proof (cases "off + sz \<le> length d")
  case True
  have t: "take (length sig) (window d off sz) = window d off 4"
    using assms by (simp add: window_def take_drop min_def)
  have c: "block_crc (window d off sz) = Ok (crc32c (zero_crc (window d off sz)))"
    using assms True by (intro block_crc_eval) simp
  show ?thesis
    unfolding verify_block_crc_def
    using True assms(3) by (simp add: checked_add_def t c block_valid_def crc_ok_def Let_def)
next
  case False
  then show ?thesis
    using assms(3) by (auto simp: verify_block_crc_def checked_add_def block_valid_def)
qed

lemma header_offset_simps [simp]: "header_offset 1 = HEADER1_OFFSET" "header_offset 2 = HEADER2_OFFSET"
    "header_offset (Suc 0) = HEADER1_OFFSET"
  by (simp_all add: header_offset_def)

lemma rt_offset_simps [simp]: "rt_offset 1 = REGION_TABLE1_OFFSET" "rt_offset 2 = REGION_TABLE2_OFFSET"
    "rt_offset (Suc 0) = REGION_TABLE1_OFFSET"
  by (simp_all add: rt_offset_def)

lemma r64_window [slice_simps]: "k + 8 \<le> n \<Longrightarrow> off + n \<le> length d \<Longrightarrow> r64 (window d off n) k = r64 d (off + k)"
  by (simp add: le_u64_def get_or_zero_def window_window)

lemma active_header_block_cases:
  "active_header_block d =
     (if header_valid d HEADER1_OFFSET \<and> header_valid d HEADER2_OFFSET then
        (if r64 d (HEADER1_OFFSET + 8) \<ge> r64 d (HEADER2_OFFSET + 8)
         then Some (window d HEADER1_OFFSET HEADER_SIZE) else Some (window d HEADER2_OFFSET HEADER_SIZE))
      else if header_valid d HEADER1_OFFSET then Some (window d HEADER1_OFFSET HEADER_SIZE)
      else if header_valid d HEADER2_OFFSET then Some (window d HEADER2_OFFSET HEADER_SIZE)
      else None)"
  by (simp add: active_header_block_def audit_simps Let_def)

lemma header_at_0_window:
  assumes "header_valid d off"
  shows "header_at (window d off HEADER_SIZE) 0 = header_at d off"
  using header_at_window [OF hdr.valid_in_bounds [OF assms]] by (simp add: header_at_def)

lemma audited_header:
  "parse_active_header d =
     (case active_header_block d of
        Some b \<Rightarrow> Ok (header_at b 0)
      | None \<Rightarrow> Err NoValidHeader)"
  by (simp add: parse_active_header_def parse_header_copies active_header_block_cases
      header_at_0_window header_at_def [of d])

subsection \<open>What reaches the report\<close>

lemma analyse_reports:
  assumes "check_file_magic d = []" and "analyse d = Ok issues"
  shows "set (check_headers d) \<subseteq> set issues" and "set (check_region_tables d) \<subseteq> set issues"
  using assms by (auto simp: analyse_def Let_def and_then_Ok_iff split: if_splits)

lemma single_header_bad:
  "\<not> header_valid d (header_offset copy) \<Longrightarrow>
   \<exists>computed stored. check_single_header_crc d copy = Some (HeaderChecksumMismatch copy computed stored)"
  using single_header_None [of d copy] unfolding check_single_header_crc_def Let_def
  by (auto split: if_splits)

lemma single_rt_bad:
  "\<not> region_table_valid d (rt_offset copy) \<Longrightarrow>
   \<exists>computed stored. check_single_rt_crc d copy = Some (RegionTableChecksumMismatch copy computed stored)"
  using single_rt_None [of d copy] unfolding check_single_rt_crc_def Let_def
  by (auto split: if_splits)

lemma bad_header_reported:
  assumes "copy = 1 \<and> other = 2 \<or> copy = 2 \<and> other = 1"
    and "\<not> header_valid d (header_offset copy)" and "header_valid d (header_offset other)"
  shows "\<exists>computed stored. HeaderChecksumMismatch copy computed stored \<in> set (check_headers d)"
proof -
  obtain c s where "check_single_header_crc d copy = Some (HeaderChecksumMismatch copy c s)"
    using single_header_bad [OF assms(2)] by blast
  moreover have "check_single_header_crc d other = None" using assms(3) by (simp add: audit_simps)
  ultimately have "HeaderChecksumMismatch copy c s \<in> set (check_headers d)"
    using assms(1) unfolding check_headers_def Let_def by (elim disjE) (simp_all only:, simp_all)
  then show ?thesis by blast
qed

lemma bad_rt_reported:
  assumes "copy = 1 \<and> other = 2 \<or> copy = 2 \<and> other = 1"
    and "\<not> region_table_valid d (rt_offset copy)" and "region_table_valid d (rt_offset other)"
  shows "\<exists>computed stored. RegionTableChecksumMismatch copy computed stored \<in> set (check_region_tables d)"
proof -
  obtain c s where "check_single_rt_crc d copy = Some (RegionTableChecksumMismatch copy c s)"
    using single_rt_bad [OF assms(2)] by blast
  moreover have "check_single_rt_crc d other = None" using assms(3) by (simp add: audit_simps)
  ultimately have "RegionTableChecksumMismatch copy c s \<in> set (check_region_tables d)"
    using assms(1) unfolding check_region_tables_def Let_def by (elim disjE) (simp_all only:, simp_all)
  then show ?thesis by blast
qed

lemma magic_frame:
  assumes "8 \<le> p" and "p + length xs \<le> length d"
  shows "check_file_magic (overwrite d p xs) = check_file_magic d"
  using assms by (simp add: check_file_magic_def window_overwrite_disjoint)

subsection \<open>Two copies of a sealed block\<close>

text \<open>
  What the headers and the region tables share: two copies in separate slots, and a check that
  reports the bad copy when the other one is good.
\<close>

locale audited_pair = sealed_block sig sz for sig :: bytes and sz :: nat +
  fixes off :: "nat \<Rightarrow> nat" and mismatch :: "nat \<Rightarrow> nat \<Rightarrow> nat \<Rightarrow> anomaly"
    and both_bad :: anomaly and check :: "bytes \<Rightarrow> anomaly list"
  assumes apart: "off 1 + sz \<le> off 2" and behind: "8 \<le> off 1"
    and reported: "copy = 1 \<and> other = 2 \<or> copy = 2 \<and> other = 1 \<Longrightarrow>
      \<not> block_valid sig sz d (off copy) \<Longrightarrow> block_valid sig sz d (off other) \<Longrightarrow>
      \<exists>computed stored. mismatch copy computed stored \<in> set (check d)"
    and both_reported: "\<not> block_valid sig sz d (off 1) \<Longrightarrow> \<not> block_valid sig sz d (off 2) \<Longrightarrow>
      both_bad \<in> set (check d)"
    and analysed: "check_file_magic d = [] \<Longrightarrow> analyse d = Ok issues \<Longrightarrow> set (check d) \<subseteq> set issues"
begin

lemma tampering_reported:
  assumes magic: "check_file_magic d = []"
    and co: "copy = 1 \<and> other = 2 \<or> copy = 2 \<and> other = 1" and v: "block_valid sig sz d (off copy)"
    and burst: "detectable k xs" and k: "k + length xs \<le> sz"
    and changed: "window d (off copy + k) (length xs) \<noteq> xs"
    and an: "analyse (overwrite d (off copy + k) xs) = Ok issues"
  shows "if block_valid sig sz d (off other)
    then \<exists>computed stored. mismatch copy computed stored \<in> set issues else both_bad \<in> set issues"
proof -
  let ?d = "overwrite d (off copy + k) xs"
  have fits: "off copy + k + length xs \<le> length d"
    using valid_in_bounds [OF v] k by linarith
  have place: "8 \<le> off copy + k" using behind apart co by auto
  have bad: "\<not> block_valid sig sz ?d (off copy)"
    using valid_detects [OF v burst k changed] .
  have "block_valid sig sz ?d (off other) = block_valid sig sz d (off other)"
    using valid_frame [OF fits, of "off other"] co k apart by auto
  then have "if block_valid sig sz d (off other)
      then \<exists>computed stored. mismatch copy computed stored \<in> set (check ?d) else both_bad \<in> set (check ?d)"
    using reported [OF co bad] both_reported [of ?d] bad co by auto
  moreover have "check_file_magic ?d = []"
    using magic_frame [OF place fits] magic by simp
  ultimately show ?thesis using analysed [OF _ an] by (auto split: if_splits)
qed

end

lemma both_bad_reported:
  "\<not> header_valid d HEADER1_OFFSET \<Longrightarrow> \<not> header_valid d HEADER2_OFFSET \<Longrightarrow>
     BothHeaderCopiesInvalid \<in> set (check_headers d)"
  "\<not> region_table_valid d REGION_TABLE1_OFFSET \<Longrightarrow> \<not> region_table_valid d REGION_TABLE2_OFFSET \<Longrightarrow>
     BothRegionTableCopiesInvalid \<in> set (check_region_tables d)"
  using single_header_None [of d 1] single_header_None [of d 2] single_rt_None [of d 1] single_rt_None [of d 2]
  by (auto simp: check_headers_def check_region_tables_def)

interpretation hdrs: audited_pair HEADER_SIGNATURE HEADER_SIZE header_offset HeaderChecksumMismatch
    BothHeaderCopiesInvalid check_headers
  by unfold_locales
    (use bad_header_reported both_bad_reported analyse_reports(1) in \<open>auto simp: header_layout HEADER_SIZE_def\<close>)

interpretation tables: audited_pair REGION_TABLE_SIGNATURE REGION_TABLE_CRC_COVERAGE rt_offset
    RegionTableChecksumMismatch BothRegionTableCopiesInvalid check_region_tables
  by unfold_locales
    (use bad_rt_reported both_bad_reported analyse_reports(2) in \<open>auto simp: header_layout REGION_TABLE_CRC_COVERAGE_def\<close>)

subsection \<open>Properties\<close>

text \<open>C21: The analyser and the reader choose the same header. The block the analyser calls
  active holds the fields of the header the reader opens with, and it finds none exactly when the
  reader refuses the image for want of a valid header.\<close>

theorem audited_header_is_reader_header:
  "parse_active_header d =
     (case active_header_block d of
        Some b \<Rightarrow> Ok (header_at b 0)
      | None \<Rightarrow> Err NoValidHeader)"
  by (rule audited_header)

text \<open>C13: A change to a valid copy of the header is reported by the analysis when it lies within
  the signature and the checksum field, or covers at most four consecutive bytes behind them: as a
  checksum mismatch of that very copy when the other copy is valid, and else as the loss of both
  copies. (A change that straddles the end of the checksum field is not covered.)\<close>

theorem header_tampering_reported:
  assumes "check_file_magic d = []" and "copy = 1 \<and> other = 2 \<or> copy = 2 \<and> other = 1"
    and "header_valid d (header_offset copy)"
    and "k + length xs \<le> 8 \<or> 8 \<le> k \<and> length xs \<le> 4" and "k + length xs \<le> HEADER_SIZE"
    and "window d (header_offset copy + k) (length xs) \<noteq> xs"
    and "analyse (overwrite d (header_offset copy + k) xs) = Ok issues"
  shows "if header_valid d (header_offset other)
    then \<exists>computed stored. HeaderChecksumMismatch copy computed stored \<in> set issues
    else BothHeaderCopiesInvalid \<in> set issues"
  using assms by (intro hdrs.tampering_reported) (simp_all add: detectable_def)

text \<open>C14: A change to a valid copy of the region table, anywhere in its 64 KiB, is reported in the
  same way and on the same condition: it lies within the signature and the checksum field, or covers
  at most four consecutive bytes behind them. With a valid other copy it is reported as a checksum
  mismatch of the changed copy, and else as the loss of both.\<close>

theorem region_table_tampering_reported:
  assumes "check_file_magic d = []" and "copy = 1 \<and> other = 2 \<or> copy = 2 \<and> other = 1"
    and "region_table_valid d (rt_offset copy)"
    and "k + length xs \<le> 8 \<or> 8 \<le> k \<and> length xs \<le> 4" and "k + length xs \<le> REGION_TABLE_CRC_COVERAGE"
    and "window d (rt_offset copy + k) (length xs) \<noteq> xs"
    and "analyse (overwrite d (rt_offset copy + k) xs) = Ok issues"
  shows "if region_table_valid d (rt_offset other)
    then \<exists>computed stored. RegionTableChecksumMismatch copy computed stored \<in> set issues
    else BothRegionTableCopiesInvalid \<in> set issues"
  using assms by (intro tables.tampering_reported) (simp_all add: detectable_def)

end
