(* ===== verification/Repair.thy ===== *)
theory Repair
  imports Analyse Error
begin

text \<open>
  The in-memory repair (\<open>forensic/src/repair.rs\<close>). The state of \<open>VhdxRepair\<close> is the
  bytes of the image, passed through every action; \<open>attempt_repair\<close> returns its report and
  the bytes it leaves. Texts are UTF-8; the dash of the source is \<open>em_dash\<close>.
\<close>

record repair_action =
  ra_description :: string
  ra_byte_offset :: nat
  ra_bytes_changed :: nat
  ra_disclaimer :: string

record cannot_repair =
  cr_anomaly :: anomaly
  cr_reason :: string

record repair_report =
  rr_repaired :: "repair_action list"
  rr_cannot_repair :: "cannot_repair list"

definition any_repaired :: "repair_report \<Rightarrow> bool" where
  "any_repaired rep = (rr_repaired rep \<noteq> [])"

definition any_unresolved :: "repair_report \<Rightarrow> bool" where
  "any_unresolved rep = (rr_cannot_repair rep \<noteq> [])"

definition DISCLAIMER :: string where
  "DISCLAIMER =
     ''FORENSIC REPAIR DISCLAIMER: ''
     @ ''This image has been modified by an automated repair process. ''
     @ ''Repaired bytes no longer reflect the original evidence state. ''
     @ ''The original unmodified image MUST be preserved and should be ''
     @ ''used as the primary evidence artefact. This repaired copy is ''
     @ ''provided solely to enable further analysis of recoverable content. ''
     @ ''All repair actions are documented in RepairReport::repaired. ''
     @ ''Do NOT submit a repaired image as unmodified forensic evidence.''"

subsection \<open>The actions\<close>

definition copy_block_with_crc :: "bytes \<Rightarrow> nat \<Rightarrow> nat \<Rightarrow> nat \<Rightarrow> bytes checked" where
  "copy_block_with_crc d src_off dst_off sz =
     and_then (slice d src_off (src_off + sz)) (\<lambda>block.
     and_then (put_slice d dst_off block) (\<lambda>d1.
     and_then (put_slice d1 (dst_off + 4) (replicate 4 0)) (\<lambda>d2.
     and_then (slice d2 dst_off (dst_off + sz)) (\<lambda>zeroed.
     put_slice d2 (dst_off + 4) (u32_to_le (crc32c zeroed))))))"

definition copy_header :: "bytes \<Rightarrow> nat \<Rightarrow> nat \<Rightarrow> (repair_action \<times> bytes) checked" where
  "copy_header d src_copy dst_copy =
     (let src_off = header_offset src_copy; dst_off = header_offset dst_copy in
      and_then (copy_block_with_crc d src_off dst_off HEADER_SIZE) (\<lambda>d'.
      Ok (\<lparr> ra_description = ''Replaced corrupt header copy '' @ decimal dst_copy @ '' with copy ''
              @ decimal src_copy @ '' and recomputed CRC32C'',
            ra_byte_offset = dst_off,
            ra_bytes_changed = HEADER_SIZE,
            ra_disclaimer = ''Header copy was replaced with the other valid copy. The original corrupt copy may have contained forensically significant modifications.'' \<rparr>,
          d')))"

definition copy_region_table :: "bytes \<Rightarrow> nat \<Rightarrow> nat \<Rightarrow> (repair_action \<times> bytes) checked" where
  "copy_region_table d src_copy dst_copy =
     (let src_off = rt_offset src_copy; dst_off = rt_offset dst_copy in
      and_then (copy_block_with_crc d src_off dst_off REGION_TABLE_CRC_COVERAGE) (\<lambda>d'.
      Ok (\<lparr> ra_description = ''Replaced corrupt region table copy '' @ decimal dst_copy
              @ '' with copy '' @ decimal src_copy @ '' and recomputed CRC32C'',
            ra_byte_offset = dst_off,
            ra_bytes_changed = REGION_TABLE_CRC_COVERAGE,
            ra_disclaimer = ''Region table copy was replaced with the other valid copy. The original corrupt copy may have contained forensically significant modifications.'' \<rparr>,
          d')))"

definition clear_bat_reserved_bits ::
  "bytes \<Rightarrow> u64 \<Rightarrow> nat \<Rightarrow> (repair_action \<times> bytes) checked"
where
  "clear_bat_reserved_bits d bat_offset bat_index =
     and_then (bat_entry_pos bat_offset bat_index) (\<lambda>byte_pos.
     let raw = le_u64 d byte_pos;
         cleaned = raw AND NOT 0x000FFFF8
     in
     and_then (put_slice d byte_pos (u64_to_le cleaned)) (\<lambda>d'.
     Ok (\<lparr> ra_description = ''BAT entry '' @ decimal bat_index @ '' had non-zero reserved bits ''
              @ em_dash @ '' bits [3..19] cleared, offset and state preserved'',
           ra_byte_offset = byte_pos,
           ra_bytes_changed = 8,
           ra_disclaimer = ''Reserved bits cleared; payload offset preserved. The original reserved-bit pattern may have been forensically significant.'' \<rparr>,
         d')))"

definition zero_bat_entry :: "bytes \<Rightarrow> u64 \<Rightarrow> nat \<Rightarrow> (repair_action \<times> bytes) checked" where
  "zero_bat_entry d bat_offset bat_index =
     and_then (bat_entry_pos bat_offset bat_index) (\<lambda>byte_pos.
     and_then (put_slice d byte_pos (replicate 8 0)) (\<lambda>d'.
     Ok (\<lparr> ra_description = ''BAT entry '' @ decimal bat_index @ '' pointed outside container ''
              @ em_dash @ '' zeroed to NOT_PRESENT'',
           ra_byte_offset = byte_pos,
           ra_bytes_changed = 8,
           ra_disclaimer = ''BAT entry replaced with NOT_PRESENT (0). Data the entry supposedly referenced cannot be recovered from this image.'' \<rparr>,
         d')))"

subsection \<open>The attempt\<close>

text \<open>What is done about one finding: the action applied, if any, and the bytes after it.\<close>

definition on_entry ::
  "(bytes \<Rightarrow> u64 \<Rightarrow> nat \<Rightarrow> (repair_action \<times> bytes) checked) \<Rightarrow> u64 option \<Rightarrow> nat \<Rightarrow> bytes \<Rightarrow>
   (repair_action option \<times> bytes) checked"
where
  "on_entry act bat_offset idx d =
     (case bat_offset of
        Some off \<Rightarrow> and_then (act d off idx) (\<lambda>(a, d'). Ok (Some a, d'))
      | None \<Rightarrow> Ok (None, d))"

definition repair_one ::
  "u64 option \<Rightarrow> anomaly \<Rightarrow> bytes \<Rightarrow> (repair_action option \<times> bytes) checked"
where
  "repair_one bat_offset issue d =
     (let apply_action = (\<lambda>m. and_then m (\<lambda>(a, d'). Ok (Some a, d'))) in
      case issue of
        HeaderChecksumMismatch copy computed stored \<Rightarrow>
          if copy = 1 then apply_action (copy_header d 2 1)
          else if copy = 2 then apply_action (copy_header d 1 2)
          else Ok (None, d)
      | RegionTableChecksumMismatch copy computed stored \<Rightarrow>
          if copy = 1 then apply_action (copy_region_table d 2 1)
          else if copy = 2 then apply_action (copy_region_table d 1 2)
          else Ok (None, d)
      | BatEntryBeyondContainer bat_index fo sz \<Rightarrow> on_entry zero_bat_entry bat_offset bat_index d
      | BatEntryInStructuralRegion bat_index fo zone \<Rightarrow> on_entry zero_bat_entry bat_offset bat_index d
      | UndefinedBlockState bat_index \<Rightarrow> on_entry zero_bat_entry bat_offset bat_index d
      | BatEntryUnaligned bat_index fo \<Rightarrow> on_entry clear_bat_reserved_bits bat_offset bat_index d
      | _ \<Rightarrow> Ok (None, d))"

definition cannot_repair_reason :: "anomaly \<Rightarrow> string" where
  "cannot_repair_reason issue =
     (case issue of
        BothHeaderCopiesInvalid \<Rightarrow>
          ''Both header copies are invalid; no valid reference copy exists to restore from''
      | BothRegionTableCopiesInvalid \<Rightarrow>
          ''Both region table copies are invalid; region layout cannot be determined''
      | DirtyLog _ _ \<Rightarrow>
          ''Log replay is required to reach a consistent image state; log replay is out of scope for offline forensic analysis '' @ em_dash
            @ '' mount the image on a running Hyper-V host for automatic replay''
      | BatSizeMetadataMismatch _ _ _ _ _ \<Rightarrow>
          ''Cannot determine which field (VirtualDiskSize or BlockSize) was altered without an external reference; altering either would destroy evidence''
      | LogEntryGuidMismatch _ _ _ \<Rightarrow>
          ''Log was transplanted from a different image; replay would overwrite this image'' @ [CHR 0x27]
            @ ''s metadata with data from the source image''
      | GhostDataInAbsentBlock _ _ _ \<Rightarrow>
          ''Absent-block data cannot be zeroed without destroying evidence; use a carver to extract the content before repair''
      | MetadataItemsOverlap _ _ _ \<Rightarrow>
          ''Overlapping metadata items are ambiguous; cannot determine which item'' @ [CHR 0x27]
            @ ''s data is authoritative without external reference''
      | LogGuidAllZerosWithDirtyLog _ \<Rightarrow>
          ''Log structure is internally contradictory; replay is unsafe and clearing the log would destroy evidence of the anomaly''
      | BatEntriesOverlap _ _ _ \<Rightarrow>
          ''Overlapping BAT entries are ambiguous; cannot determine which logical block mapping is authoritative without external reference data''
      | HeaderCopyMismatch _ _ _ \<Rightarrow>
          ''Header field mismatch between copies requires manual forensic analysis to determine which copy reflects the intended state''
      | RegionTableCopyMismatch _ _ _ _ \<Rightarrow>
          ''Region table field mismatch between copies requires manual forensic analysis to determine which copy reflects the intended state''
      | DifferencingDisk \<Rightarrow>
          ''Differencing disk repair requires access to the full parent chain''
      | BatEntryBeyondContainer _ _ _ \<Rightarrow>
          ''BAT region offset cannot be determined from region tables''
      | _ \<Rightarrow> ''No automated repair strategy is available for this anomaly type'')"

primrec repair_loop ::
  "u64 option \<Rightarrow> anomaly list \<Rightarrow> bytes \<Rightarrow> (repair_report \<times> bytes) checked"
where
  "repair_loop bat_offset [] d = Ok (\<lparr> rr_repaired = [], rr_cannot_repair = [] \<rparr>, d)"
| "repair_loop bat_offset (issue # issues) d =
     and_then (repair_one bat_offset issue d) (\<lambda>(done_action, d1).
     and_then (repair_loop bat_offset issues d1) (\<lambda>(rep, d2).
     Ok (case done_action of
           Some a \<Rightarrow> (rep\<lparr> rr_repaired := a # rr_repaired rep \<rparr>, d2)
         | None \<Rightarrow>
             (rep\<lparr> rr_cannot_repair :=
                    \<lparr> cr_anomaly = issue, cr_reason = cannot_repair_reason issue \<rparr>
                      # rr_cannot_repair rep \<rparr>, d2))))"

definition attempt_repair :: "bytes \<Rightarrow> (repair_report \<times> bytes) checked" where
  "attempt_repair d =
     and_then (analyse d) (\<lambda>issues.
     and_then (check_bat_ghost_data d) (\<lambda>ghosts.
     let bat_offset = bat_region_offset d in
     repair_loop bat_offset (issues @ ghosts) d))"

end
