(* ===== verification/Mending.thy ===== *)
theory Mending
  imports Detection Repair
begin

text \<open>
  What a repair does to the image (\<open>VhdxRepair::attempt_repair\<close> of
  \<open>forensic/src/repair.rs\<close>): which bytes it changes, what it restores, what it reports.
\<close>

subsection \<open>The effect of one action\<close>

lemma overwrite_inside:
  "off + length b \<le> length d \<Longrightarrow> k + length xs \<le> length b \<Longrightarrow>
   overwrite (overwrite d off b) (off + k) xs = overwrite d off (overwrite b k xs)"
  by (rule nth_equalityI) (auto simp: nth_overwrite)

lemma copy_block_eval:
  assumes "src + sz \<le> length d" and "dst + sz \<le> length d" and "8 \<le> sz"
  shows "copy_block_with_crc d src dst sz = Ok (overwrite d dst (seal (window d src sz)))"
proof -
  let ?b = "window d src sz"
  have len: "length ?b = sz" using assms by simp
  have z: "overwrite (overwrite d dst ?b) (dst + 4) (replicate 4 0) = overwrite d dst (zero_crc ?b)"
    using assms len by (simp add: overwrite_inside zero_crc_def)
  have lz: "length (zero_crc ?b) = sz" using assms(3) len by simp
  have w: "window (overwrite d dst (zero_crc ?b)) dst sz = zero_crc ?b"
    using assms(2) lz by (simp add: window_overwrite_same)
  have s: "overwrite (zero_crc ?b) 4 (u32_to_le (crc32c (zero_crc ?b))) = seal ?b"
    using assms(3) len by (simp add: seal_def zero_crc_def overwrite_twice)
  have "overwrite (overwrite d dst (zero_crc ?b)) (dst + 4) (u32_to_le (crc32c (zero_crc ?b)))
      = overwrite d dst (seal ?b)"
    using assms lz by (subst overwrite_inside) (simp_all add: s)
  then show ?thesis
    using assms len lz w unfolding copy_block_with_crc_def
    by (simp add: slice_def put_slice_def z)
qed

lemma copy_block_Ok_iff:
  assumes "8 \<le> sz"
  shows "copy_block_with_crc d src dst sz = Ok d' \<longleftrightarrow>
    src + sz \<le> length d \<and> dst + sz \<le> length d \<and> d' = overwrite d dst (seal (window d src sz))"
proof (cases "src + sz \<le> length d \<and> dst + sz \<le> length d")
  case True
  then show ?thesis using copy_block_eval assms by auto
next
  case False
  have "copy_block_with_crc d src dst sz \<noteq> Ok d'"
  proof
    assume ok: "copy_block_with_crc d src dst sz = Ok d'"
    then have "src + sz \<le> length d" by (auto simp: copy_block_with_crc_def and_then_Ok_iff)
    with ok False show False by (auto simp: copy_block_with_crc_def and_then_Ok_iff)
  qed
  with False show ?thesis by blast
qed

text \<open>The bytes an action of the report claims to have changed.\<close>

definition covers :: "repair_action \<Rightarrow> nat \<Rightarrow> bool" where
  "covers a p \<longleftrightarrow> ra_byte_offset a \<le> p \<and> p < ra_byte_offset a + ra_bytes_changed a"

text \<open>The two kinds of write a repair makes.\<close>

definition block_write :: "nat \<Rightarrow> nat \<Rightarrow> nat \<Rightarrow> bytes \<Rightarrow> repair_action \<Rightarrow> bytes \<Rightarrow> bool" where
  "block_write src dst sz d a d' \<longleftrightarrow>
     src + sz \<le> length d \<and> dst + sz \<le> length d \<and> d' = overwrite d dst (seal (window d src sz))
     \<and> ra_byte_offset a = dst \<and> ra_bytes_changed a = sz"

definition entry_write :: "u64 \<Rightarrow> nat \<Rightarrow> (u64 \<Rightarrow> u64) \<Rightarrow> bytes \<Rightarrow> repair_action \<Rightarrow> bytes \<Rightarrow> bool" where
  "entry_write off idx f d a d' \<longleftrightarrow>
     unat off + idx * 8 + 8 \<le> length d
     \<and> d' = overwrite d (unat off + idx * 8) (u64_to_le (f (r64 d (unat off + idx * 8))))
     \<and> ra_byte_offset a = unat off + idx * 8 \<and> ra_bytes_changed a = 8"

lemma copy_header_Ok:
  "copy_header d src dst = Ok (a, d') \<Longrightarrow>
   block_write (header_offset src) (header_offset dst) HEADER_SIZE d a d'"
  by (auto simp: copy_header_def and_then_Ok_iff Let_def copy_block_Ok_iff HEADER_SIZE_def block_write_def)

lemma copy_region_table_Ok:
  "copy_region_table d src dst = Ok (a, d') \<Longrightarrow>
   block_write (rt_offset src) (rt_offset dst) REGION_TABLE_CRC_COVERAGE d a d'"
  by (auto simp: copy_region_table_def and_then_Ok_iff Let_def copy_block_Ok_iff
      REGION_TABLE_CRC_COVERAGE_def block_write_def)

lemma clear_bat_Ok:
  "clear_bat_reserved_bits d off idx = Ok (a, d') \<Longrightarrow>
   entry_write off idx (\<lambda>v. v AND NOT BAT_RESERVED_BITS_MASK) d a d'"
  unfolding clear_bat_reserved_bits_def entry_write_def BAT_RESERVED_BITS_MASK_def Let_def
  by (elim and_then_OkE) (auto simp: bat_entry_pos_def and_then_Ok_iff)

lemma u64_to_le_0: "u64_to_le 0 = replicate 8 0"
  using to_le_le_nat [of "replicate 8 0"] by (simp add: u64_to_le_def)

lemma zero_bat_Ok:
  "zero_bat_entry d off idx = Ok (a, d') \<Longrightarrow> entry_write off idx (\<lambda>v. 0) d a d'"
  by (auto simp: zero_bat_entry_def and_then_Ok_iff bat_entry_pos_def entry_write_def u64_to_le_0)

subsection \<open>The writes a repair is allowed\<close>

text \<open>
  The abstract steps: the bad copy of a structural block is rewritten from the other copy, and an
  entry of the block allocation table is zeroed or loses its reserved bits. \<open>mends\<close> relates an
  image, the finding, the action recorded and the image after it.
\<close>

definition other_copy :: "nat \<Rightarrow> nat \<Rightarrow> bool" where
  "other_copy copy other \<longleftrightarrow> copy = 1 \<and> other = 2 \<or> copy = 2 \<and> other = 1"

definition zeroed_entry :: "anomaly \<Rightarrow> nat option" where
  "zeroed_entry issue =
     (case issue of
        BatEntryBeyondContainer idx fo sz \<Rightarrow> Some idx
      | BatEntryInStructuralRegion idx fo zone \<Rightarrow> Some idx
      | UndefinedBlockState idx \<Rightarrow> Some idx
      | _ \<Rightarrow> None)"

inductive mends :: "u64 option \<Rightarrow> anomaly \<Rightarrow> bytes \<Rightarrow> repair_action \<Rightarrow> bytes \<Rightarrow> bool" where
  mend_header:
    "other_copy copy other \<Longrightarrow>
     block_write (header_offset other) (header_offset copy) HEADER_SIZE d a d' \<Longrightarrow>
     mends bat (HeaderChecksumMismatch copy computed stored) d a d'"
| mend_table:
    "other_copy copy other \<Longrightarrow>
     block_write (rt_offset other) (rt_offset copy) REGION_TABLE_CRC_COVERAGE d a d' \<Longrightarrow>
     mends bat (RegionTableChecksumMismatch copy computed stored) d a d'"
| mend_zero:
    "zeroed_entry issue = Some idx \<Longrightarrow> entry_write off idx (\<lambda>v. 0) d a d' \<Longrightarrow>
     mends (Some off) issue d a d'"
| mend_clear:
    "entry_write off idx (\<lambda>v. v AND NOT BAT_RESERVED_BITS_MASK) d a d' \<Longrightarrow>
     mends (Some off) (BatEntryUnaligned idx fo) d a d'"

lemma on_entry_Ok:
  "on_entry act bat idx d = Ok (done_action, d') \<Longrightarrow>
   done_action = None \<and> d' = d \<or>
   (\<exists>off a. bat = Some off \<and> done_action = Some a \<and> act d off idx = Ok (a, d'))"
  by (auto simp: on_entry_def and_then_Ok_iff split: option.splits)

lemma repair_one_mends:
  assumes "repair_one bat issue d = Ok (done_action, d')"
  shows "done_action = None \<and> d' = d \<or> (\<exists>a. done_action = Some a \<and> mends bat issue d a d')"
proof (cases issue)
  case (HeaderChecksumMismatch copy c s)
  then show ?thesis
    using assms
    by (auto simp: repair_one_def and_then_Ok_iff Let_def other_copy_def split: if_splits
        dest!: copy_header_Ok intro!: mends.intros)
next
  case (RegionTableChecksumMismatch copy c s)
  then show ?thesis
    using assms
    by (auto simp: repair_one_def and_then_Ok_iff Let_def other_copy_def split: if_splits
        dest!: copy_region_table_Ok intro!: mends.intros)
next
  case (BatEntryUnaligned idx fo)
  then show ?thesis
    using assms
    by (auto simp: repair_one_def dest!: on_entry_Ok clear_bat_Ok intro!: mend_clear)
qed (use assms in \<open>auto simp: repair_one_def zeroed_entry_def dest!: on_entry_Ok zero_bat_Ok
  intro!: mend_zero\<close>)

end
