(* ===== verification/Findings.thy ===== *)
theory Findings
  imports Mending
begin

text \<open>
  Which findings the checks can produce. A repair acts on six variants only; all others are
  \<open>plain\<close>. Every finding of an analysis is plain or names a block or an entry that is there.
\<close>

definition plain :: "anomaly \<Rightarrow> bool" where
  "plain a \<longleftrightarrow>
     variant a \<notin> variant ` {HeaderChecksumMismatch 0 0 0, RegionTableChecksumMismatch 0 0 0,
       BatEntryBeyondContainer 0 0 0, BatEntryInStructuralRegion 0 0 [], UndefinedBlockState 0,
       BatEntryUnaligned 0 0}"

definition entry_target :: "anomaly \<Rightarrow> nat option" where
  "entry_target issue =
     (case issue of BatEntryUnaligned idx fo \<Rightarrow> Some idx | _ \<Rightarrow> zeroed_entry issue)"

text \<open>The variants a check can report and a repair leaves alone.\<close>

lemma plain_simps [simp]:
  "plain (anomaly.BadMagic a1)" "plain (ContainerTruncated a2 b2)" "plain BothHeaderCopiesInvalid"
  "plain (SequenceNumbersIdentical a3)" "plain BothSequenceNumbersZero"
  "plain (HeaderCopyMismatch a4 b4 c4)" "plain (LogZeroedButDirty a5 b5)"
  "plain (LogEntrySignatureMissing a6)" "plain (LogEntryCrcMismatch a7 b7 c7)"
  "plain (LogEntryGuidMismatch a8 b8 c8)" "plain (LogSequenceNumberGap a9 b9 c9)"
  "plain FileWriteGuidAllZeros" "plain DataWriteGuidAllZeros" "plain (LogGuidWithNoLog a10)"
  "plain (LogGuidAllZerosWithDirtyLog a11)" "plain (LogVersionInvalid a12)" "plain (VersionInvalid a13)"
  "plain (LogOffsetMisaligned a14)" "plain (LogLengthMisaligned a15)"
  "plain (LogBeyondContainer a16 b16 c16)" "plain (LogInReservedZone a17)"
  "plain (SequenceNumberGapLarge a18 b18 c18)" "plain (DirtyLog a19 b19)" "plain (RegionMisaligned a20 b20)"
  "plain (RegionBeyondContainer a21 b21 c21)" "plain (RegionsOverlap a22 b22 c22)"
  "plain (LogOverlapsStructuralRegion a23 b23)" "plain (UnknownRequiredRegion a24)"
  "plain (RegionTableReservedNonZero a25 b25 c25)" "plain (RegionEntryCountZero a26)"
  "plain BothRegionTableCopiesInvalid" "plain (RegionTableCopyMismatch a27 b27 c27 d27)"
  "plain (anomaly.MetadataMissing a28)" "plain (BlockSizeInvalid a29 b29)"
  "plain (LogicalSectorSizeInvalid a30)" "plain (VirtualDiskSizeInvalid a31 b31)"
  "plain (VirtualDiskSizeUnderreported a32 b32)" "plain DifferencingDisk"
  "plain (PhysicalSectorSizeInvalid a33)" "plain VirtualDiskIdAllZeros"
  "plain (MetadataItemsOverlap a34 b34 c34)" "plain (MetadataItemBeyondRegion a35 b35 c35)"
  "plain LeaveBlocksAllocatedSet" "plain MissingParentLocator"
  "plain (VirtualDiskSizeOverreported a36 b36)" "plain (BatSizeMetadataMismatch a37 b37 c37 d37 e37)"
  "plain (MissingSectorBitmap a38 b38)" "plain (UnmappedBlockInNonDifferencing a39)"
  "plain (GhostDataInAbsentBlock a40 b40 c40)" "plain (BatEntriesOverlap a41 b41 c41)"
  "plain (PartiallyPresentBlock a42)" "plain (SectorBitmapInvalidState a43 b43)"
  "plain (TrailingData a44 b44)" "plain (FileIdentifierReservedNonZero a45 b45)"
  "plain (InterRegionGapNonZero a46 b46 c46 d46)" "plain (HeaderReservedNonZero a47 b47 c47)"
  by (simp_all add: plain_def)

named_theorems plain_checks

lemma plain_report [simp]: "list_all plain (report c a) \<longleftrightarrow> (c \<longrightarrow> plain a)"
  by (simp add: report_def)

lemma plain_magic [plain_checks]: "list_all plain (check_file_magic d)"
  by (simp add: check_file_magic_def)

lemma plain_reserved [plain_checks]: "list_all plain (check_file_identifier_reserved d)"
  by (simp add: check_file_identifier_reserved_def Let_def)

lemma plain_gaps [plain_checks]: "list_all plain (check_inter_region_gaps d)"
proof -
  have "list_all plain (gap_loop d gs)" for gs
    by (induction gs) (auto split: prod.splits)
  then show ?thesis by (simp add: check_inter_region_gaps_def)
qed

lemma plain_pair [plain_checks]: "list_all plain (check_header_pair d)"
  by (simp add: check_header_pair_def Let_def)

lemma plain_header_reserved [plain_checks]: "list_all plain (check_header_reserved d copy ok off)"
  by (simp add: check_header_reserved_def Let_def)

lemma plain_active [plain_checks]: "list_all plain (check_active_header d b)"
  by (simp add: check_active_header_def Let_def)

lemma plain_rt_pair [plain_checks]: "list_all plain (check_region_table_pair d)"
proof -
  have "list_all plain (rt_pair_loop a b is)" for a b "is"
    by (induction "is") (auto simp: Let_def split: option.splits)
  then show ?thesis by (simp add: check_region_table_pair_def Let_def)
qed

lemma plain_layout_loop: "list_all plain (fst (layout_loop rt copy n is))"
  by (induction "is") (auto simp: Let_def split: option.splits prod.splits)

lemma plain_layout [plain_checks]: "list_all plain (check_region_layout d)"
proof -
  have "list_all plain (region_overlaps known)" for known
    by (auto simp: region_overlaps_def list_all_iff Let_def split: prod.splits)
  moreover have "list_all plain (log_overlaps d)"
    by (auto simp: log_overlaps_def list_all_iff Let_def split: option.splits prod.splits)
  moreover have "list_all plain x" if "layout_loop rt copy n is = (x, y)" for rt copy n "is" x y
    using plain_layout_loop [of rt copy n "is"] that by simp
  ultimately show ?thesis
    unfolding check_region_layout_def Let_def
    by (auto split: option.splits prod.splits)
qed

lemma plain_log [plain_checks]: "list_all plain (check_log d)"
proof -
  have "list_all plain (audit_log_loop log p g pos prev)" for log p g pos prev
    by (induction log p g pos prev rule: audit_log_loop.induct)
      (subst audit_log_loop.simps, auto simp: Let_def split: option.splits)
  then show ?thesis by (auto simp: check_log_def Let_def split: option.splits)
qed

lemma plain_metadata [plain_checks]: "list_all plain (check_metadata_inner d r)"
proof -
  have "list_all plain (fst (item_ranges_loop rg n is))" for rg n "is"
    by (induction "is") (auto simp: Let_def split: prod.splits)
  then have "list_all plain x" if "item_ranges_loop rg n is = (x, y)" for rg n "is" x y
    using that by (metis fst_conv)
  moreover have "list_all plain (item_overlaps ranges)" for ranges
    by (auto simp: item_overlaps_def list_all_iff split: prod.splits)
  ultimately have "list_all plain (check_items d q)" for q
    unfolding check_items_def Let_def by (auto split: prod.splits)
  moreover have "list_all plain (check_block_size b)" for b
    by (auto simp: check_block_size_def split: option.splits)
  moreover have "list_all plain (check_vdisk_size v s)" for v s
    by (auto simp: check_vdisk_size_def Let_def split: option.splits)
  ultimately show ?thesis
    by (auto simp: check_metadata_inner_def split: option.splits)
qed

subsection \<open>The table and the rest\<close>

lemma plain_size_formula: "bat_check_size_formula r n = Ok issues \<Longrightarrow> list_all plain issues"
  by (auto simp: bat_check_size_formula_def and_then_Ok_iff Let_def split: option.splits if_splits)

lemma plain_coverage: "bat_check_coverage r present n = Ok issues \<Longrightarrow> list_all plain issues"
  by (auto simp: bat_check_coverage_def and_then_Ok_iff Let_def split: option.splits if_splits)

lemma plain_entry_overlaps: "list_all plain (entry_overlaps present)"
  by (auto simp: entry_overlaps_def list_all_iff split: prod.splits)

lemma plain_trailing [plain_checks]:
  "check_trailing_data_inner d r = Ok issues \<Longrightarrow> list_all plain issues"
  by (auto simp: check_trailing_data_inner_def and_then_Ok_iff Let_def split: option.splits if_splits)

lemma plain_ghost_entry: "ghost_entry d r bs i raw = Ok issues \<Longrightarrow> list_all plain issues"
  by (auto simp: ghost_entry_def and_then_Ok_iff Let_def split: if_splits)

lemma plain_ghosts [plain_checks]: "check_bat_ghost_data d = Ok issues \<Longrightarrow> list_all plain issues"
proof -
  have "list_all plain issues" if "ghost_loop d r bs is = Ok issues" for r bs "is" issues
    using that
    by (induction "is" arbitrary: issues)
      (auto simp: and_then_Ok_iff plain_ghost_entry split: if_splits)
  then show "check_bat_ghost_data d = Ok issues \<Longrightarrow> list_all plain issues"
    by (auto simp: check_bat_ghost_data_def split: option.splits if_splits)
qed

lemma entry_target_simps [simp]:
  "entry_target (BatEntryUnaligned i fo) = Some i"
  "entry_target (BatEntryInStructuralRegion j fo2 z) = Some j"
  "entry_target (BatEntryBeyondContainer k fo3 sz) = Some k"
  "entry_target (UndefinedBlockState l) = Some l"
  by (simp_all add: entry_target_def zeroed_entry_def)

lemma scan_entry_targets:
  "scan_entry d r n i raw = Ok (issues, present) \<Longrightarrow> a \<in> set issues \<Longrightarrow>
   plain a \<or> entry_target a = Some i"
  by (auto simp: scan_entry_def and_then_Ok_iff Let_def state_findings_def bitmap_finding_def
      split: if_splits option.splits)

lemma bat_entry_pos_Ok [simp]:
  "bat_entry_pos off i = Ok ep \<longleftrightarrow> ep = unat off + i * 8 \<and> unat off + i * 8 < 2 ^ 64"
  by (auto simp: bat_entry_pos_def and_then_Ok_iff)

lemma entry_beyond_Ok [simp]:
  "entry_beyond d ep = Ok b \<longleftrightarrow> ep + 8 < 2 ^ 64 \<and> b = (ep + 8 > length d)"
  by (auto simp: entry_beyond_def and_then_Ok_iff)

lemma scan_loop_targets:
  assumes "scan_loop d r n is = Ok (issues, present)" and "a \<in> set issues" and "\<not> plain a"
  shows "\<exists>i \<in> set is. entry_target a = Some i \<and> unat (pr_bat_offset r) + i * 8 + 8 \<le> length d"
  using assms(1,2)
proof (induction "is" arbitrary: issues present)
  case (Cons i "is")
  from Cons.prems(1) show ?case
  proof (cases "unat (pr_bat_offset r) + i * 8 + 8 > length d")
    case False
    with Cons.prems(1) obtain one p1 more p2 where
      one: "scan_entry d r n i (r64 d (unat (pr_bat_offset r) + i * 8)) = Ok (one, p1)"
      and more: "scan_loop d r n is = Ok (more, p2)" and issues: "issues = one @ more"
      by (auto simp: and_then_Ok_iff)
    show ?thesis
    proof (cases "a \<in> set one")
      case True
      then show ?thesis
        using scan_entry_targets [OF one] assms(3) False by auto
    next
      case False
      then show ?thesis using Cons.IH [OF more] Cons.prems(2) issues by auto
    qed
  qed (use Cons.prems in \<open>auto simp: and_then_Ok_iff\<close>)
qed auto

lemma check_bat_targets:
  assumes "check_bat_inner d (Some r) = Ok issues" and "a \<in> set issues" and "\<not> plain a"
  shows "\<exists>i < unat (pr_bat_length r) div 8.
    entry_target a = Some i \<and> unat (pr_bat_offset r) + i * 8 + 8 \<le> length d"
proof -
  obtain formula entries present coverage scanned p where
    f: "bat_check_size_formula r (unat (pr_bat_length r) div 8) = Ok formula"
    and c: "bat_check_coverage r present (unat (pr_bat_length r) div 8) = Ok coverage"
    and s: "scan_loop d r (unat (pr_bat_length r) div 8) [0..<unat (pr_bat_length r) div 8] = Ok (scanned, p)"
    and issues: "issues = formula @ (scanned @ entry_overlaps p) @ coverage"
    using assms(1,2)
    by (auto simp: check_bat_inner_def bat_scan_entries_def and_then_Ok_iff Let_def split: if_splits)
  have "a \<in> set scanned"
    using assms(2,3) issues plain_size_formula [OF f] plain_coverage [OF c]
      plain_entry_overlaps [of p]
    by (auto simp: list_all_iff)
  from scan_loop_targets [OF s this assms(3)] show ?thesis by auto
qed

subsection \<open>Every finding names something that is there\<close>

inductive sound_issue :: "bytes \<Rightarrow> anomaly \<Rightarrow> bool" for d :: bytes where
  sound_plain: "plain a \<Longrightarrow> sound_issue d a"
| sound_header:
    "other_copy copy other \<Longrightarrow> \<not> header_valid d (header_offset copy) \<Longrightarrow>
     header_valid d (header_offset other) \<Longrightarrow> AUDIT_MIN_SIZE \<le> length d \<Longrightarrow>
     sound_issue d (HeaderChecksumMismatch copy c s)"
| sound_table:
    "other_copy copy other \<Longrightarrow> \<not> region_table_valid d (rt_offset copy) \<Longrightarrow>
     region_table_valid d (rt_offset other) \<Longrightarrow> AUDIT_MIN_SIZE \<le> length d \<Longrightarrow>
     sound_issue d (RegionTableChecksumMismatch copy c s)"
| sound_entry:
    "entry_target a = Some idx \<Longrightarrow> parse_regions d = Some r \<Longrightarrow>
     idx < unat (pr_bat_length r) div 8 \<Longrightarrow> unat (pr_bat_offset r) + idx * 8 + 8 \<le> length d \<Longrightarrow>
     sound_issue d a"

lemma plain_sound: "list_all plain issues \<Longrightarrow> a \<in> set issues \<Longrightarrow> sound_issue d a"
  by (simp add: list_all_iff sound_plain)

lemma single_header_Some:
  "check_single_header_crc d copy = Some a \<Longrightarrow>
   \<exists>c s. a = HeaderChecksumMismatch copy c s"
  by (auto simp: check_single_header_crc_def Let_def split: if_splits)

lemma single_rt_Some:
  "check_single_rt_crc d copy = Some a \<Longrightarrow>
   \<exists>c s. a = RegionTableChecksumMismatch copy c s"
  by (auto simp: check_single_rt_crc_def Let_def split: if_splits)

lemma check_headers_sound:
  assumes "AUDIT_MIN_SIZE \<le> length d" and "a \<in> set (check_headers d)"
  shows "sound_issue d a"
proof -
  have mismatch: "sound_issue d b"
    if "check_single_header_crc d copy = Some b" "check_single_header_crc d other = None"
      "other_copy copy other" for copy other b
    using that assms(1) single_header_None [of d copy] single_header_None [of d other]
    by (auto dest!: single_header_Some intro: sound_header)
  have "plain a \<or> (\<exists>copy other. check_single_header_crc d copy = Some a
      \<and> check_single_header_crc d other = None \<and> other_copy copy other)"
  proof (cases "plain a")
    case False
    have "a \<notin> set (check_header_pair d)" "a \<notin> set (check_active_header d b)"
      "a \<notin> set (check_header_reserved d copy ok off)" for b copy ok off
      using False plain_checks by (auto simp: list_all_iff)
    moreover have "a \<noteq> BothHeaderCopiesInvalid" using False by auto
    ultimately show ?thesis
      using assms(2) unfolding check_headers_def Let_def other_copy_def
      by (auto split: option.splits if_splits)
  qed simp
  then show ?thesis using mismatch sound_plain by blast
qed

lemma check_region_tables_sound:
  assumes "AUDIT_MIN_SIZE \<le> length d" and "a \<in> set (check_region_tables d)"
  shows "sound_issue d a"
proof -
  have mismatch: "sound_issue d b"
    if "check_single_rt_crc d copy = Some b" "check_single_rt_crc d other = None"
      "other_copy copy other" for copy other b
    using that assms(1) single_rt_None [of d copy] single_rt_None [of d other]
    by (auto dest!: single_rt_Some intro: sound_table)
  have "plain a \<or> (\<exists>copy other. check_single_rt_crc d copy = Some a
      \<and> check_single_rt_crc d other = None \<and> other_copy copy other)"
  proof (cases "plain a")
    case False
    have "a \<notin> set (check_region_table_pair d)"
      using False plain_checks by (auto simp: list_all_iff)
    moreover have "a \<noteq> BothRegionTableCopiesInvalid" using False by auto
    ultimately show ?thesis
      using assms(2) unfolding check_region_tables_def Let_def other_copy_def
      by (auto split: option.splits if_splits)
  qed simp
  then show ?thesis using mismatch sound_plain by blast
qed

lemma check_bat_sound:
  assumes "check_bat_inner d (parse_regions d) = Ok issues" and "a \<in> set issues"
  shows "sound_issue d a"
proof (cases "parse_regions d")
  case None
  then show ?thesis using assms by (simp add: check_bat_inner_def)
next
  case (Some r)
  then show ?thesis
    using assms check_bat_targets [of d r issues a] sound_plain sound_entry [OF _ Some] by metis
qed

lemma magic_size: "\<not> list_ex (\<lambda>a. severity a = Critical) (check_file_magic d) \<Longrightarrow> AUDIT_MIN_SIZE \<le> length d"
  by (auto simp: check_file_magic_def split: if_splits)

lemma analyse_sound:
  assumes "analyse d = Ok issues" and "a \<in> set issues"
  shows "sound_issue d a"
proof (cases "list_ex (\<lambda>a. severity a = Critical) (check_file_magic d)")
  case True
  then have "issues = check_file_magic d" using assms(1) by (simp add: analyse_def Let_def)
  then show ?thesis using assms(2) plain_sound [OF plain_magic] by simp
next
  case False
  note size = magic_size [OF False]
  let ?early = "set (check_file_magic d) \<union> set (check_file_identifier_reserved d)
    \<union> set (check_inter_region_gaps d) \<union> set (check_headers d) \<union> set (check_region_tables d)
    \<union> set (check_region_layout d) \<union> set (check_log d) \<union> set (check_metadata_inner d (parse_regions d))"
  have early: "sound_issue d b" if "b \<in> ?early" for b
    using that
    by (elim UnE)
      (erule check_headers_sound [OF size] check_region_tables_sound [OF size]
        plain_sound [OF plain_magic] plain_sound [OF plain_reserved] plain_sound [OF plain_gaps]
        plain_sound [OF plain_layout] plain_sound [OF plain_log] plain_sound [OF plain_metadata])+
  show ?thesis
  proof (cases "list_ex (\<lambda>a. a = BothRegionTableCopiesInvalid)
      (check_file_magic d @ check_file_identifier_reserved d @ check_inter_region_gaps d
        @ check_headers d @ check_region_tables d)")
    case True
    then have "set issues \<subseteq> ?early" using assms(1) False by (auto simp: analyse_def Let_def)
    then show ?thesis using early assms(2) by blast
  next
    case nb: False
    obtain bats trailing where
      b: "check_bat_inner d (parse_regions d) = Ok bats"
      and t: "check_trailing_data_inner d (parse_regions d) = Ok trailing"
      using assms(1) False nb by (auto simp: analyse_def Let_def and_then_Ok_iff)
    have "set issues \<subseteq> ?early \<union> set bats \<union> set trailing"
      using assms(1) False nb b t by (auto simp: analyse_def Let_def split: if_splits)
    then show ?thesis
      using early assms(2) check_bat_sound [OF b] plain_sound [OF plain_trailing [OF t]] by blast
  qed
qed

end
