(* ===== verification/Healing.thy ===== *)
theory Healing
  imports Findings
begin

text \<open>
  The correctness of a repair as a whole: it never panics, its report accounts for every changed
  byte and every finding, it writes only to the structures it repairs, and it leaves both copies
  of the headers, and of the region table, valid whenever one of them was.
\<close>

subsection \<open>A repair does not panic\<close>

lemma repair_one_plain: "plain issue \<Longrightarrow> repair_one bat issue d = Ok (None, d)"
  by (cases issue) (simp_all add: repair_one_def plain_def)

lemma bat_region_offset_Some: "parse_regions d = Some r \<Longrightarrow> bat_region_offset d = Some (pr_bat_offset r)"
  by (simp add: bat_region_offset_def)

lemma header_fits: "AUDIT_MIN_SIZE \<le> n \<Longrightarrow> header_offset copy + HEADER_SIZE \<le> n"
  by (simp add: AUDIT_MIN_SIZE_def header_offset_def header_layout HEADER_SIZE_def)

lemma rt_fits: "AUDIT_MIN_SIZE \<le> n \<Longrightarrow> rt_offset copy + REGION_TABLE_CRC_COVERAGE \<le> n"
  by (simp add: AUDIT_MIN_SIZE_def rt_offset_def header_layout REGION_TABLE_CRC_COVERAGE_def)

lemma copy_header_total: "AUDIT_MIN_SIZE \<le> length d \<Longrightarrow> copy_header d src dst \<noteq> Panic"
  using copy_block_eval [OF header_fits [of _ src] header_fits [of _ dst], of d]
  by (simp add: copy_header_def Let_def HEADER_SIZE_def)

lemma copy_region_table_total: "AUDIT_MIN_SIZE \<le> length d \<Longrightarrow> copy_region_table d src dst \<noteq> Panic"
  using copy_block_eval [OF rt_fits [of _ src] rt_fits [of _ dst], of d]
  by (simp add: copy_region_table_def Let_def REGION_TABLE_CRC_COVERAGE_def)

lemma entry_actions_total:
  assumes "unat off + idx * 8 + 8 \<le> length d" and "length d < 2 ^ 64"
  shows "zero_bat_entry d off idx \<noteq> Panic" and "clear_bat_reserved_bits d off idx \<noteq> Panic"
  using assms
  by (auto simp: zero_bat_entry_def clear_bat_reserved_bits_def bat_entry_pos_def Let_def
      and_then_Panic_iff and_then_Ok_iff)

lemma on_entry_total: "act d off idx \<noteq> Panic \<Longrightarrow> on_entry act (Some off) idx d \<noteq> Panic"
  by (auto simp: on_entry_def and_then_Panic_iff)

lemma repair_one_total:
  assumes "sound_issue d issue" and "length d' = length d" and "length d < 2 ^ 64"
  shows "repair_one (bat_region_offset d) issue d' \<noteq> Panic"
  using assms(1)
proof cases
  case sound_plain
  then show ?thesis by (simp add: repair_one_plain)
next
  case (sound_header copy other c s)
  then show ?thesis
    using copy_header_total [of d'] assms(2)
    by (auto simp: repair_one_def and_then_Panic_iff other_copy_def)
next
  case (sound_table copy other c s)
  then show ?thesis
    using copy_region_table_total [of d'] assms(2)
    by (auto simp: repair_one_def and_then_Panic_iff other_copy_def)
next
  case (sound_entry idx r)
  then have fits: "unat (pr_bat_offset r) + idx * 8 + 8 \<le> length d'" "length d' < 2 ^ 64"
    using assms(2,3) by simp_all
  have "on_entry zero_bat_entry (bat_region_offset d) idx d' \<noteq> Panic"
    and "on_entry clear_bat_reserved_bits (bat_region_offset d) idx d' \<noteq> Panic"
    unfolding bat_region_offset_Some [OF sound_entry(2)]
    by (rule on_entry_total, rule entry_actions_total [OF fits])+
  with sound_entry(1) show ?thesis
    by (cases issue) (simp_all add: repair_one_def entry_target_def zeroed_entry_def)
qed

subsection \<open>Invariants of the loop\<close>

text \<open>
  A property of the image that every permitted write keeps holds of the image a repair leaves.
\<close>

locale repair_invariant =
  fixes bat :: "u64 option" and findings :: "anomaly set" and inv :: "bytes \<Rightarrow> bool"
  assumes kept: "issue \<in> findings \<Longrightarrow> inv d \<Longrightarrow> mends bat issue d a d' \<Longrightarrow> inv d'"
begin

lemma one: "issue \<in> findings \<Longrightarrow> inv d \<Longrightarrow> repair_one bat issue d = Ok (act, d') \<Longrightarrow> inv d'"
  using kept repair_one_mends by blast

lemma loop:
  "set issues \<subseteq> findings \<Longrightarrow> inv d \<Longrightarrow> repair_loop bat issues d = Ok (rep, d') \<Longrightarrow> inv d'"
proof (induction issues arbitrary: d rep)
  case (Cons issue issues)
  from Cons.prems(3) obtain act d1 rep1 d2 where
    "repair_one bat issue d = Ok (act, d1)" "repair_loop bat issues d1 = Ok (rep1, d2)"
    "d' = d2"
    by (auto simp: and_then_Ok_iff split: option.splits)
  then show ?case using Cons.IH [of d1 rep1] Cons.prems(1,2) one [of issue d act d1] by auto
qed simp

end

lemma mends_frame:
  assumes "mends bat issue d a d'"
  shows "length d' = length d" and "p < length d \<Longrightarrow> \<not> covers a p \<Longrightarrow> d' ! p = d ! p"
  using assms
  by (induction rule: mends.induct)
    (auto simp: block_write_def entry_write_def covers_def nth_overwrite HEADER_SIZE_def
      REGION_TABLE_CRC_COVERAGE_def)

interpretation keep_length: repair_invariant bat UNIV "\<lambda>d. length d = n" for bat n
  by unfold_locales (simp add: mends_frame(1))

subsection \<open>Totality\<close>

lemma and_then_Err_iff: "(and_then m f = Err e) = (m = Err e \<or> (\<exists>x. m = Ok x \<and> f x = Err e))"
  by (cases m) auto

lemma actions_no_Err:
  "copy_header d src dst \<noteq> Err e" "copy_region_table d src dst \<noteq> Err e"
  "zero_bat_entry d off idx \<noteq> Err e" "clear_bat_reserved_bits d off idx \<noteq> Err e"
  by (auto simp: copy_header_def copy_region_table_def copy_block_with_crc_def zero_bat_entry_def
      clear_bat_reserved_bits_def bat_entry_pos_def Let_def and_then_Err_iff)

lemma repair_one_no_Err: "repair_one bat issue d \<noteq> Err e"
  by (cases issue) (auto simp: repair_one_def on_entry_def and_then_Err_iff actions_no_Err
      split: option.splits)

lemma repair_loop_total:
  assumes "\<forall>issue \<in> set issues. sound_issue d issue" and "length d' = length d" and "length d < 2 ^ 64"
  shows "\<exists>rep d2. repair_loop (bat_region_offset d) issues d' = Ok (rep, d2)"
  using assms(1,2)
proof (induction issues arbitrary: d')
  case (Cons issue issues)
  obtain act d1 where one: "repair_one (bat_region_offset d) issue d' = Ok (act, d1)"
    using repair_one_total [of d issue d'] repair_one_no_Err Cons.prems assms(3)
    by (cases "repair_one (bat_region_offset d) issue d'") auto
  moreover have "length d1 = length d"
    using keep_length.one [OF _ _ one] Cons.prems(2) by simp
  then obtain rep d2 where "repair_loop (bat_region_offset d) issues d1 = Ok (rep, d2)"
    using Cons.IH [of d1] Cons.prems(1) by auto
  ultimately show ?case by (cases act) auto
qed simp

lemma attempt_repair_Ok:
  assumes "attempt_repair d = Ok (rep, d')"
  obtains issues ghosts where "analyse d = Ok issues" "check_bat_ghost_data d = Ok ghosts"
    "repair_loop (bat_region_offset d) (issues @ ghosts) d = Ok (rep, d')"
    "\<forall>issue \<in> set (issues @ ghosts). sound_issue d issue"
proof -
  from assms obtain issues ghosts where f: "analyse d = Ok issues" "check_bat_ghost_data d = Ok ghosts"
    "repair_loop (bat_region_offset d) (issues @ ghosts) d = Ok (rep, d')"
    by (auto simp: attempt_repair_def and_then_Ok_iff Let_def)
  moreover have "\<forall>issue \<in> set (issues @ ghosts). sound_issue d issue"
    using analyse_sound [OF f(1)] plain_sound [OF plain_ghosts [OF f(2)]] by auto
  ultimately show thesis by (rule that)
qed

lemma attempt_repair_returns:
  assumes "analyse d = Ok issues" and "check_bat_ghost_data d = Ok ghosts" and "length d < 2 ^ 64"
  shows "\<exists>rep d'. attempt_repair d = Ok (rep, d')"
proof -
  have "\<forall>issue \<in> set (issues @ ghosts). sound_issue d issue"
    using analyse_sound [OF assms(1)] plain_sound [OF plain_ghosts [OF assms(2)]] by auto
  from repair_loop_total [OF this refl assms(3)] show ?thesis
    using assms(1,2) by (simp add: attempt_repair_def)
qed

subsection \<open>The report accounts for every change and every finding\<close>

lemma repair_loop_ConsE:
  assumes "repair_loop bat (issue # issues) d = Ok (rep, d')"
  obtains act d1 rep1 where "repair_one bat issue d = Ok (act, d1)"
    "repair_loop bat issues d1 = Ok (rep1, d')"
    "rr_repaired rep = (case act of Some a \<Rightarrow> [a] | None \<Rightarrow> []) @ rr_repaired rep1"
    "map cr_anomaly (rr_cannot_repair rep)
      = (if act = None then [issue] else []) @ map cr_anomaly (rr_cannot_repair rep1)"
proof -
  from assms obtain act d1 rep1 d2 where
    "repair_one bat issue d = Ok (act, d1)" "repair_loop bat issues d1 = Ok (rep1, d2)"
    and r: "(rep, d') = (case act of Some a \<Rightarrow> (rep1\<lparr> rr_repaired := a # rr_repaired rep1 \<rparr>, d2)
      | None \<Rightarrow> (rep1\<lparr> rr_cannot_repair := \<lparr> cr_anomaly = issue, cr_reason = cannot_repair_reason issue \<rparr>
          # rr_cannot_repair rep1 \<rparr>, d2))"
    by (fastforce simp: and_then_Ok_iff)
  with that [of act d1 rep1] show thesis by (cases act) auto
qed

lemma repair_loop_frame:
  assumes "repair_loop bat issues d = Ok (rep, d')" and "p < length d"
    and "\<forall>a \<in> set (rr_repaired rep). \<not> covers a p"
  shows "d' ! p = d ! p"
  using assms
proof (induction issues arbitrary: d rep)
  case (Cons issue issues)
  from Cons.prems(1) obtain act d1 rep1 where
    one: "repair_one bat issue d = Ok (act, d1)" and more: "repair_loop bat issues d1 = Ok (rep1, d')"
    and rep: "rr_repaired rep = (case act of Some a \<Rightarrow> [a] | None \<Rightarrow> []) @ rr_repaired rep1"
    by (rule repair_loop_ConsE)
  have len: "length d1 = length d" using keep_length.one [OF _ _ one] by simp
  have "d1 ! p = d ! p"
    using repair_one_mends [OF one] mends_frame(2) Cons.prems(2,3) rep by auto
  moreover have "d' ! p = d1 ! p"
    using Cons.IH [OF more] Cons.prems(2,3) rep len by auto
  ultimately show ?case by simp
qed simp

lemma repair_loop_findings:
  "repair_loop bat issues d = Ok (rep, d') \<Longrightarrow>
   length (rr_repaired rep) + length (rr_cannot_repair rep) = length issues
   \<and> filter plain issues = filter plain (map cr_anomaly (rr_cannot_repair rep))
   \<and> set (map cr_anomaly (rr_cannot_repair rep)) \<subseteq> set issues"
proof (induction issues arbitrary: d rep)
  case (Cons issue issues)
  from Cons.prems obtain act d1 rep1 where
    one: "repair_one bat issue d = Ok (act, d1)" and more: "repair_loop bat issues d1 = Ok (rep1, d')"
    and rep: "rr_repaired rep = (case act of Some a \<Rightarrow> [a] | None \<Rightarrow> []) @ rr_repaired rep1"
    and cannot: "map cr_anomaly (rr_cannot_repair rep)
      = (if act = None then [issue] else []) @ map cr_anomaly (rr_cannot_repair rep1)"
    by (rule repair_loop_ConsE)
  have act: "plain issue \<Longrightarrow> act = None" using one by (simp add: repair_one_plain)
  have "length (rr_cannot_repair rep) = (if act = None then 1 else 0) + length (rr_cannot_repair rep1)"
    using arg_cong [OF cannot, of length] by simp
  moreover have "length (rr_repaired rep) = (if act = None then 0 else 1) + length (rr_repaired rep1)"
    using rep by (cases act) auto
  moreover note Cons.IH [OF more]
  ultimately show ?case unfolding cannot using act by (cases act) auto
qed simp

subsection \<open>Properties\<close>

text \<open>C19: Whatever the image, a repair whose analysis returns does return: no write falls outside
  the image, because every finding it acts on names a copy or an entry that is there.\<close>

theorem repair_total:
  assumes "analyse d = Ok issues" and "check_bat_ghost_data d = Ok ghosts" and "length d < 2 ^ 64"
  shows "\<exists>rep d'. attempt_repair d = Ok (rep, d')"
  using assms by (rule attempt_repair_returns)

text \<open>C8: A repair keeps the size of the image, and its report accounts for everything: every byte
  that differs afterwards lies in the range of an action of the report, and every finding of the
  analysis is either repaired or listed as unresolved.\<close>

theorem repair_report_complete:
  assumes "attempt_repair d = Ok (rep, d')"
  shows "length d' = length d
    \<and> (\<forall>p < length d. d' ! p \<noteq> d ! p \<longrightarrow> (\<exists>a \<in> set (rr_repaired rep). covers a p))
    \<and> (\<exists>issues ghosts. analyse d = Ok issues \<and> check_bat_ghost_data d = Ok ghosts
        \<and> length (rr_repaired rep) + length (rr_cannot_repair rep) = length issues + length ghosts
        \<and> set (map cr_anomaly (rr_cannot_repair rep)) \<subseteq> set (issues @ ghosts)
        \<and> filter plain (issues @ ghosts) = filter plain (map cr_anomaly (rr_cannot_repair rep)))"
  using assms
proof (rule attempt_repair_Ok)
  fix issues ghosts
  assume an: "analyse d = Ok issues" "check_bat_ghost_data d = Ok ghosts"
    and loop: "repair_loop (bat_region_offset d) (issues @ ghosts) d = Ok (rep, d')"
  have "length d' = length d" using keep_length.loop [OF _ refl loop] by simp
  moreover have "\<forall>p < length d. d' ! p \<noteq> d ! p \<longrightarrow> (\<exists>a \<in> set (rr_repaired rep). covers a p)"
    using repair_loop_frame [OF loop] by blast
  ultimately show ?thesis
    using an repair_loop_findings [OF loop] by (intro conjI exI [of _ issues] exI [of _ ghosts]) simp_all
qed

subsection \<open>Where a repair writes\<close>

definition in_block :: "nat \<Rightarrow> nat \<Rightarrow> nat \<Rightarrow> bool" where
  "in_block off sz p \<longleftrightarrow> off \<le> p \<and> p < off + sz"

text \<open>The four structural blocks, and the region of the block allocation table.\<close>

definition in_structure :: "bytes \<Rightarrow> nat \<Rightarrow> bool" where
  "in_structure d p \<longleftrightarrow>
     (\<exists>copy \<in> {1, 2}. in_block (header_offset copy) HEADER_SIZE p
        \<or> in_block (rt_offset copy) REGION_TABLE_CRC_COVERAGE p)
     \<or> (\<exists>r. parse_regions d = Some r
          \<and> in_block (unat (pr_bat_offset r)) (unat (pr_bat_length r)) p)"

lemma mends_entry:
  assumes "mends bat issue d a d'" and "entry_target issue = Some idx"
  shows "\<exists>off. bat = Some off \<and> ra_byte_offset a = unat off + idx * 8 \<and> ra_bytes_changed a = 8"
  using assms by (cases rule: mends.cases)
    (auto simp: entry_write_def entry_target_def zeroed_entry_def split: anomaly.splits)

lemma mends_not_plain: "mends bat issue d a d' \<Longrightarrow> \<not> plain issue"
proof (induction rule: mends.induct)
  case (mend_zero issue idx off d a d')
  then show ?case by (cases issue) (simp_all add: zeroed_entry_def plain_def)
qed (simp_all add: plain_def)

lemma mends_location:
  assumes "sound_issue d0 issue" and "mends (bat_region_offset d0) issue d a d'" and "covers a p"
  shows "in_structure d0 p"
  using assms(1)
proof cases
  case sound_plain
  then show ?thesis using mends_not_plain [OF assms(2)] by simp
next
  case (sound_header copy other c s)
  then have "ra_byte_offset a = header_offset copy" "ra_bytes_changed a = HEADER_SIZE"
    using assms(2) by (auto elim!: mends.cases simp: block_write_def zeroed_entry_def)
  then show ?thesis
    using sound_header assms(3) by (auto simp: in_structure_def in_block_def covers_def other_copy_def)
next
  case (sound_table copy other c s)
  then have "ra_byte_offset a = rt_offset copy" "ra_bytes_changed a = REGION_TABLE_CRC_COVERAGE"
    using assms(2) by (auto elim!: mends.cases simp: block_write_def zeroed_entry_def)
  then show ?thesis
    using sound_table assms(3) by (auto simp: in_structure_def in_block_def covers_def other_copy_def)
next
  case (sound_entry idx r)
  then obtain off where "bat_region_offset d0 = Some off"
    "ra_byte_offset a = unat off + idx * 8" "ra_bytes_changed a = 8"
    using mends_entry [OF assms(2)] by auto
  then have "in_block (unat (pr_bat_offset r)) (unat (pr_bat_length r)) p"
    using sound_entry assms(3) by (auto simp: bat_region_offset_def in_block_def covers_def)
  then show ?thesis using sound_entry(2) by (auto simp: in_structure_def)
qed

interpretation confined: repair_invariant "bat_region_offset d0" "{issue. sound_issue d0 issue}"
  "\<lambda>d. length d = length d0 \<and> (\<forall>p < length d0. \<not> in_structure d0 p \<longrightarrow> d ! p = d0 ! p)" for d0
  by unfold_locales (use mends_frame mends_location in \<open>metis mem_Collect_eq\<close>)

subsection \<open>Restoring the copies\<close>

definition bat_clear :: "u64 option \<Rightarrow> bool" where
  "bat_clear bat \<longleftrightarrow> (\<forall>off. bat = Some off \<longrightarrow> AUDIT_MIN_SIZE \<le> unat off)"

text \<open>
  What the headers and the region tables share: the finding that names a copy makes the repair
  rewrite it from the other copy, and no other finding touches either copy.
\<close>

locale mirrored_copies = sealed_block sig sz for sig :: bytes and sz :: nat +
  fixes off :: "nat \<Rightarrow> nat" and mismatch :: "nat \<Rightarrow> anomaly \<Rightarrow> bool"
  assumes apart: "other_copy copy other \<Longrightarrow> off copy + sz \<le> off other \<or> off other + sz \<le> off copy"
    and mend: "mismatch copy issue \<Longrightarrow> other_copy copy other \<Longrightarrow>
      repair_one bat issue d = Ok (act, d') \<Longrightarrow>
      off copy + sz \<le> length d \<and> off other + sz \<le> length d
      \<and> d' = overwrite d (off copy) (seal (window d (off other) sz))"
    and leave: "bat_clear bat \<Longrightarrow> \<not> mismatch 1 issue \<Longrightarrow> \<not> mismatch 2 issue \<Longrightarrow>
      repair_one bat issue d = Ok (act, d') \<Longrightarrow> copy = 1 \<or> copy = 2 \<Longrightarrow>
      window d' (off copy) sz = window d (off copy) sz"
begin

lemma mend_one:
  assumes "mismatch copy issue" and "other_copy copy other"
    and "repair_one bat issue d = Ok (act, d')" and "block_valid sig sz d (off other)"
  shows "window d' (off other) sz = window d (off other) sz"
    and "window d' (off copy) sz = window d (off other) sz"
proof -
  let ?b = "window d (off other) sz"
  have m: "off copy + sz \<le> length d" "off other + sz \<le> length d"
    "d' = overwrite d (off copy) (seal ?b)"
    using mend [OF assms(1-3)] by auto
  have "length ?b = sz" "seal ?b = ?b"
    using m(2) sz_min assms(4) by (auto simp: block_valid_def intro!: seal_crc_ok)
  then show "window d' (off other) sz = ?b" "window d' (off copy) sz = ?b"
    using m apart [OF assms(2)] by (auto simp: window_overwrite_disjoint window_overwrite_same)
qed

lemma restored:
  assumes "bat_clear bat" and "other_copy copy other"
    and "repair_loop bat issues d = Ok (rep, d')" and "block_valid sig sz d (off other)"
    and "\<forall>issue \<in> set issues. \<not> mismatch other issue"
  shows "window d' (off other) sz = window d (off other) sz \<and>
    window d' (off copy) sz =
      (if \<exists>issue \<in> set issues. mismatch copy issue then window d (off other) sz
       else window d (off copy) sz)"
  using assms(3-5)
proof (induction issues arbitrary: d rep)
  case (Cons issue issues)
  from Cons.prems(1) obtain act d1 rep1 where
    one: "repair_one bat issue d = Ok (act, d1)" and more: "repair_loop bat issues d1 = Ok (rep1, d')"
    by (rule repair_loop_ConsE)
  have co: "copy = 1 \<or> copy = 2" "other = 1 \<or> other = 2" "copy = 1 \<longleftrightarrow> other = 2"
    using assms(2) by (auto simp: other_copy_def)
  have len: "length d1 = length d" using keep_length.one [OF _ _ one] by simp
  have step: "window d1 (off other) sz = window d (off other) sz \<and>
      window d1 (off copy) sz = (if mismatch copy issue then window d (off other) sz
        else window d (off copy) sz)"
  proof (cases "mismatch copy issue")
    case True
    then show ?thesis using mend_one [OF True assms(2) one Cons.prems(2)] by simp
  next
    case False
    then have "\<not> mismatch 1 issue" "\<not> mismatch 2 issue" using Cons.prems(3) co by auto
    from leave [OF assms(1) this one] co False show ?thesis by auto
  qed
  then have "block_valid sig sz d1 (off other)"
    using Cons.prems(2) len valid_cong [of d1 d "off other"] by simp
  from Cons.IH [OF more this] Cons.prems(3) step show ?case by auto
qed simp

lemma untouched:
  assumes "bat_clear bat" and "repair_loop bat issues d = Ok (rep, d')" and "copy = 1 \<or> copy = 2"
    and "\<forall>issue \<in> set issues. \<not> mismatch 1 issue \<and> \<not> mismatch 2 issue"
  shows "window d' (off copy) sz = window d (off copy) sz"
  using assms(2,4)
proof (induction issues arbitrary: d rep)
  case (Cons issue issues)
  from Cons.prems(1) obtain act d1 rep1 where
    one: "repair_one bat issue d = Ok (act, d1)" and more: "repair_loop bat issues d1 = Ok (rep1, d')"
    by (rule repair_loop_ConsE)
  then show ?case using leave [OF assms(1) _ _ one assms(3)] Cons.IH [OF more] Cons.prems(2) by simp
qed simp

text \<open>Both cases together, when the findings report what is wrong with the two copies.\<close>

lemma settled:
  assumes "bat_clear bat" and "other_copy copy other" and "repair_loop bat issues d = Ok (rep, d')"
    and complete: "\<And>c o'. other_copy c o' \<Longrightarrow> block_valid sig sz d (off o') \<Longrightarrow>
      \<not> block_valid sig sz d (off c) \<Longrightarrow> \<exists>issue \<in> set issues. mismatch c issue"
    and sound: "\<And>c issue. issue \<in> set issues \<Longrightarrow> mismatch c issue \<Longrightarrow>
      \<exists>o'. other_copy c o' \<and> \<not> block_valid sig sz d (off c) \<and> block_valid sig sz d (off o')"
  shows "window d' (off copy) sz =
    (if block_valid sig sz d (off copy) \<or> \<not> block_valid sig sz d (off other)
     then window d (off copy) sz else window d (off other) sz)"
proof -
  have swap: "other_copy other copy" and co: "copy = 1 \<or> copy = 2"
    and uniq: "other_copy copy o' \<longleftrightarrow> o' = other" "other_copy other o' \<longleftrightarrow> o' = copy" for o'
    using assms(2) by (auto simp: other_copy_def)
  consider (other) "block_valid sig sz d (off other)" | (copy) "block_valid sig sz d (off copy)"
    | (neither) "\<not> block_valid sig sz d (off other)" "\<not> block_valid sig sz d (off copy)"
    by blast
  then show ?thesis
  proof cases
    case other
    then have "\<forall>issue \<in> set issues. \<not> mismatch other issue" using sound by blast
    note w = restored [OF assms(1-3) other this]
    have "(\<exists>issue \<in> set issues. mismatch copy issue) \<longleftrightarrow> \<not> block_valid sig sz d (off copy)"
      using complete [OF assms(2) other] sound by blast
    with w other show ?thesis by simp
  next
    case copy
    then have "\<forall>issue \<in> set issues. \<not> mismatch copy issue" using sound by blast
    from restored [OF assms(1) swap assms(3) copy this] copy show ?thesis by simp
  next
    case neither
    have "\<not> mismatch c issue" if "issue \<in> set issues" for c issue
      using sound [OF that, of c] neither assms(2) by (auto simp: other_copy_def)
    then show ?thesis using untouched [OF assms(1,3) co] neither by simp
  qed
qed

lemma settled_valid:
  assumes "other_copy copy other" and "length d' = length d"
    and "off copy + sz \<le> length d" and "off other + sz \<le> length d"
    and "window d' (off copy) sz =
      (if block_valid sig sz d (off copy) \<or> \<not> block_valid sig sz d (off other)
       then window d (off copy) sz else window d (off other) sz)"
  shows "block_valid sig sz d' (off copy) \<longleftrightarrow> block_valid sig sz d (off copy) \<or> block_valid sig sz d (off other)"
proof (cases "block_valid sig sz d (off copy) \<or> \<not> block_valid sig sz d (off other)")
  case True
  then show ?thesis using valid_cong [of d' d "off copy"] assms(2,5) by auto
next
  case False
  then show ?thesis using valid_moved [of d "off other" d' "off copy"] assms by auto
qed

end

lemma mends_window:
  assumes "mends bat issue d a d'" and "\<And>p. covers a p \<Longrightarrow> \<not> in_block off n p"
  shows "window d' off n = window d off n"
  using mends_frame [OF assms(1)] assms(2)
  by (intro window_eqI) (auto simp: in_block_def)

lemma mends_place:
  assumes "mends bat issue d a d'" and "covers a p"
  shows "(\<exists>copy c s. issue = HeaderChecksumMismatch copy c s \<and> (copy = 1 \<or> copy = 2)
      \<and> in_block (header_offset copy) HEADER_SIZE p)
    \<or> (\<exists>copy c s. issue = RegionTableChecksumMismatch copy c s \<and> (copy = 1 \<or> copy = 2)
      \<and> in_block (rt_offset copy) REGION_TABLE_CRC_COVERAGE p)
    \<or> (\<exists>off. bat = Some off \<and> unat off \<le> p)"
  using assms
  by (induction rule: mends.induct)
    (auto simp: block_write_def entry_write_def other_copy_def covers_def in_block_def)

lemma block_places:
  "in_block (header_offset c) HEADER_SIZE p \<Longrightarrow> \<not> in_block (rt_offset c') REGION_TABLE_CRC_COVERAGE p"
  "in_block (header_offset c) HEADER_SIZE p \<Longrightarrow> p < AUDIT_MIN_SIZE"
  "in_block (rt_offset c) REGION_TABLE_CRC_COVERAGE p \<Longrightarrow> p < AUDIT_MIN_SIZE"
  by (auto simp: in_block_def header_offset_def rt_offset_def header_layout HEADER_SIZE_def
      REGION_TABLE_CRC_COVERAGE_def AUDIT_MIN_SIZE_def split: if_splits)

lemma leave_window:
  assumes "bat_clear bat" and "repair_one bat issue d = Ok (act, d')"
    and "off = header_offset copy \<and> n = HEADER_SIZE \<and> (\<forall>c s. \<forall>k \<in> {1, 2}. issue \<noteq> HeaderChecksumMismatch k c s)
      \<or> off = rt_offset copy \<and> n = REGION_TABLE_CRC_COVERAGE
        \<and> (\<forall>c s. \<forall>k \<in> {1, 2}. issue \<noteq> RegionTableChecksumMismatch k c s)"
  shows "window d' off n = window d off n"
proof -
  from repair_one_mends [OF assms(2)] show ?thesis
  proof
    assume "\<exists>a. act = Some a \<and> mends bat issue d a d'"
    then obtain a where m: "mends bat issue d a d'" by blast
    show ?thesis
    proof (rule mends_window [OF m])
      fix p assume "covers a p"
      from mends_place [OF m this] show "\<not> in_block off n p"
        using assms(1,3) unfolding bat_clear_def
        by (auto dest: block_places(1)) (fastforce dest: block_places(2,3))+
    qed
  qed simp
qed

interpretation header_copies: mirrored_copies HEADER_SIGNATURE HEADER_SIZE header_offset
  "\<lambda>copy a. \<exists>c s. a = HeaderChecksumMismatch copy c s"
proof unfold_locales
  fix copy other issue bat d act d'
  assume "\<exists>c s. issue = HeaderChecksumMismatch copy c s" "other_copy copy other"
    "repair_one bat issue d = Ok (act, d')"
  then show "header_offset copy + HEADER_SIZE \<le> length d \<and> header_offset other + HEADER_SIZE \<le> length d
    \<and> d' = overwrite d (header_offset copy) (seal (window d (header_offset other) HEADER_SIZE))"
    by (auto simp: repair_one_def other_copy_def and_then_Ok_iff block_write_def dest!: copy_header_Ok)
next
  fix bat issue d act d' copy
  assume a: "bat_clear bat" "\<nexists>c s. issue = HeaderChecksumMismatch 1 c s"
    "\<nexists>c s. issue = HeaderChecksumMismatch 2 c s" "repair_one bat issue d = Ok (act, d')"
  show "window d' (header_offset copy) HEADER_SIZE = window d (header_offset copy) HEADER_SIZE"
    by (rule leave_window [OF a(1,4)]) (use a(2,3) in blast)
qed (auto simp: other_copy_def header_layout HEADER_SIZE_def)

interpretation table_copies: mirrored_copies REGION_TABLE_SIGNATURE REGION_TABLE_CRC_COVERAGE rt_offset
  "\<lambda>copy a. \<exists>c s. a = RegionTableChecksumMismatch copy c s"
proof unfold_locales
  fix copy other issue bat d act d'
  assume "\<exists>c s. issue = RegionTableChecksumMismatch copy c s" "other_copy copy other"
    "repair_one bat issue d = Ok (act, d')"
  then show "rt_offset copy + REGION_TABLE_CRC_COVERAGE \<le> length d
    \<and> rt_offset other + REGION_TABLE_CRC_COVERAGE \<le> length d
    \<and> d' = overwrite d (rt_offset copy) (seal (window d (rt_offset other) REGION_TABLE_CRC_COVERAGE))"
    by (auto simp: repair_one_def other_copy_def and_then_Ok_iff block_write_def
        dest!: copy_region_table_Ok)
next
  fix bat issue d act d' copy
  assume a: "bat_clear bat" "\<nexists>c s. issue = RegionTableChecksumMismatch 1 c s"
    "\<nexists>c s. issue = RegionTableChecksumMismatch 2 c s" "repair_one bat issue d = Ok (act, d')"
  show "window d' (rt_offset copy) REGION_TABLE_CRC_COVERAGE = window d (rt_offset copy) REGION_TABLE_CRC_COVERAGE"
    by (rule leave_window [OF a(1,4)]) (use a(2,3) in blast)
qed (auto simp: other_copy_def header_layout REGION_TABLE_CRC_COVERAGE_def)

lemma mismatch_sound:
  assumes "sound_issue d issue"
  shows "issue = HeaderChecksumMismatch copy c s \<Longrightarrow>
      \<exists>other. other_copy copy other \<and> \<not> header_valid d (header_offset copy) \<and> header_valid d (header_offset other)"
    and "issue = RegionTableChecksumMismatch copy c s \<Longrightarrow>
      \<exists>other. other_copy copy other \<and> \<not> region_table_valid d (rt_offset copy) \<and> region_table_valid d (rt_offset other)"
  using assms
  by (auto elim!: sound_issue.cases simp: plain_def entry_target_def zeroed_entry_def)

lemma repaired_copy:
  assumes "attempt_repair d = Ok (rep, d')" and "check_file_magic d = []"
    and "bat_clear (bat_region_offset d)" and "other_copy copy other"
  shows "window d' (header_offset copy) HEADER_SIZE =
      (if header_valid d (header_offset copy) \<or> \<not> header_valid d (header_offset other)
       then window d (header_offset copy) HEADER_SIZE else window d (header_offset other) HEADER_SIZE)"
    and "window d' (rt_offset copy) REGION_TABLE_CRC_COVERAGE =
      (if region_table_valid d (rt_offset copy) \<or> \<not> region_table_valid d (rt_offset other)
       then window d (rt_offset copy) REGION_TABLE_CRC_COVERAGE
       else window d (rt_offset other) REGION_TABLE_CRC_COVERAGE)"
proof -
  obtain issues ghosts where an: "analyse d = Ok issues"
    and loop: "repair_loop (bat_region_offset d) (issues @ ghosts) d = Ok (rep, d')"
    and sound: "\<forall>issue \<in> set (issues @ ghosts). sound_issue d issue"
    using assms(1) by (rule attempt_repair_Ok)
  show "window d' (header_offset copy) HEADER_SIZE =
      (if header_valid d (header_offset copy) \<or> \<not> header_valid d (header_offset other)
       then window d (header_offset copy) HEADER_SIZE else window d (header_offset other) HEADER_SIZE)"
  proof (rule header_copies.settled [OF assms(3,4) loop])
    show "\<exists>issue \<in> set (issues @ ghosts). \<exists>x y. issue = HeaderChecksumMismatch c x y"
      if "other_copy c o'" "header_valid d (header_offset o')" "\<not> header_valid d (header_offset c)" for c o'
      using bad_header_reported [OF that(1) [unfolded other_copy_def] that(3,2)]
        analyse_reports(1) [OF assms(2) an] by auto
  qed (use sound mismatch_sound(1) in blast)
  show "window d' (rt_offset copy) REGION_TABLE_CRC_COVERAGE =
      (if region_table_valid d (rt_offset copy) \<or> \<not> region_table_valid d (rt_offset other)
       then window d (rt_offset copy) REGION_TABLE_CRC_COVERAGE
       else window d (rt_offset other) REGION_TABLE_CRC_COVERAGE)"
  proof (rule table_copies.settled [OF assms(3,4) loop])
    show "\<exists>issue \<in> set (issues @ ghosts). \<exists>x y. issue = RegionTableChecksumMismatch c x y"
      if "other_copy c o'" "region_table_valid d (rt_offset o')" "\<not> region_table_valid d (rt_offset c)" for c o'
      using bad_rt_reported [OF that(1) [unfolded other_copy_def] that(3,2)]
        analyse_reports(2) [OF assms(2) an] by auto
  qed (use sound mismatch_sound(2) in blast)
qed

lemma header_at_moved:
  assumes "window d' o2 HEADER_SIZE = window d o1 HEADER_SIZE"
    and "o1 + HEADER_SIZE \<le> length d" and "o2 + HEADER_SIZE \<le> length d'"
  shows "header_at d' o2 = header_at d o1"
  using header_at_window [OF assms(2)] header_at_window [OF assms(3)] assms(1) by simp

lemma attempt_repair_length:
  assumes "attempt_repair d = Ok (rep, d')"
  shows "length d' = length d"
  using assms
proof (rule attempt_repair_Ok)
  fix issues ghosts
  assume loop: "repair_loop (bat_region_offset d) (issues @ ghosts) d = Ok (rep, d')"
  show ?thesis using keep_length.loop [OF _ refl loop] by simp
qed

lemma magic_nil_size: "check_file_magic d = [] \<Longrightarrow> AUDIT_MIN_SIZE \<le> length d"
  by (simp add: magic_size)

lemma offset_unmasked:
  fixes v :: u64
  shows "drop_bit 20 (v AND NOT BAT_RESERVED_BITS_MASK) = drop_bit 20 v"
proof -
  have "drop_bit 20 v AND mask 44 = drop_bit 20 v"
    by (simp add: take_bit_eq_mask [symmetric] take_bit_drop_bit take_bit_word_eq_self)
  moreover have "drop_bit 20 (NOT BAT_RESERVED_BITS_MASK) = mask 44"
    by (simp add: BAT_RESERVED_BITS_MASK_def mask_eq_exp_minus_1)
  ultimately show ?thesis by (simp only: drop_bit_and)
qed

text \<open>C4: When the table of blocks does not lie in the structural area (\<open>bat_clear\<close>), both copies
  of the header are valid after a repair exactly when one of them was before. A valid copy is left
  as it is, an invalid one becomes the other copy, byte for byte, if that one is valid, and when
  neither is valid neither is touched. The reader chooses the same header as before, or still finds
  none.\<close>

theorem repair_restores_headers:
  assumes "attempt_repair d = Ok (rep, d')" and "check_file_magic d = []"
    and "bat_clear (bat_region_offset d)"
  shows "(header_valid d' HEADER1_OFFSET \<and> header_valid d' HEADER2_OFFSET
      \<longleftrightarrow> header_valid d HEADER1_OFFSET \<or> header_valid d HEADER2_OFFSET)
    \<and> (\<forall>copy other. other_copy copy other \<longrightarrow>
        window d' (header_offset copy) HEADER_SIZE =
          (if header_valid d (header_offset copy) \<or> \<not> header_valid d (header_offset other)
           then window d (header_offset copy) HEADER_SIZE
           else window d (header_offset other) HEADER_SIZE))
    \<and> parse_active_header d' = parse_active_header d"
proof -
  have len: "length d' = length d" using assms(1) by (rule attempt_repair_length)
  have fits: "header_offset c + HEADER_SIZE \<le> length d" for c
    using header_fits magic_nil_size [OF assms(2)] .
  have pair: "other_copy 1 2" "other_copy 2 1" by (simp_all add: other_copy_def)
  note w = repaired_copy(1) [OF assms]
  have v: "header_valid d' HEADER1_OFFSET \<longleftrightarrow> header_valid d HEADER1_OFFSET \<or> header_valid d HEADER2_OFFSET"
    "header_valid d' HEADER2_OFFSET \<longleftrightarrow> header_valid d HEADER1_OFFSET \<or> header_valid d HEADER2_OFFSET"
    using header_copies.settled_valid [OF pair(1) len fits fits w [OF pair(1)]]
      header_copies.settled_valid [OF pair(2) len fits fits w [OF pair(2)]] by auto
  have at: "header_at d' HEADER1_OFFSET =
      (if header_valid d HEADER1_OFFSET \<or> \<not> header_valid d HEADER2_OFFSET then header_at d HEADER1_OFFSET
       else header_at d HEADER2_OFFSET)"
    "header_at d' HEADER2_OFFSET =
      (if header_valid d HEADER2_OFFSET \<or> \<not> header_valid d HEADER1_OFFSET then header_at d HEADER2_OFFSET
       else header_at d HEADER1_OFFSET)"
    using w [OF pair(1)] w [OF pair(2)] fits [of 1] fits [of 2] len
    by (auto intro!: header_at_moved split: if_splits)
  have "parse_active_header d' = parse_active_header d"
    by (simp add: parse_active_header_def parse_header_copies v at)
  then show ?thesis using w v by auto
qed

text \<open>C23: When the table of blocks does not lie in the structural area (\<open>bat_clear\<close>), both copies
  of the region table are valid after a repair exactly when one of them was before: a valid copy is
  left as it is, an invalid one becomes the other copy if that one is valid, and when neither is
  valid neither is touched.\<close>

theorem repair_restores_region_tables:
  assumes "attempt_repair d = Ok (rep, d')" and "check_file_magic d = []"
    and "bat_clear (bat_region_offset d)"
  shows "(region_table_valid d' REGION_TABLE1_OFFSET \<and> region_table_valid d' REGION_TABLE2_OFFSET
      \<longleftrightarrow> region_table_valid d REGION_TABLE1_OFFSET \<or> region_table_valid d REGION_TABLE2_OFFSET)
    \<and> (\<forall>copy other. other_copy copy other \<longrightarrow>
        window d' (rt_offset copy) REGION_TABLE_CRC_COVERAGE =
          (if region_table_valid d (rt_offset copy) \<or> \<not> region_table_valid d (rt_offset other)
           then window d (rt_offset copy) REGION_TABLE_CRC_COVERAGE
           else window d (rt_offset other) REGION_TABLE_CRC_COVERAGE))"
proof -
  have len: "length d' = length d" using assms(1) by (rule attempt_repair_length)
  have fits: "rt_offset c + REGION_TABLE_CRC_COVERAGE \<le> length d" for c
    using rt_fits magic_nil_size [OF assms(2)] .
  have pair: "other_copy 1 2" "other_copy 2 1" by (simp_all add: other_copy_def)
  note w = repaired_copy(2) [OF assms]
  have "region_table_valid d' REGION_TABLE1_OFFSET \<and> region_table_valid d' REGION_TABLE2_OFFSET
      \<longleftrightarrow> region_table_valid d REGION_TABLE1_OFFSET \<or> region_table_valid d REGION_TABLE2_OFFSET"
    using table_copies.settled_valid [OF pair(1) len fits fits w [OF pair(1)]]
      table_copies.settled_valid [OF pair(2) len fits fits w [OF pair(2)]] by auto
  then show ?thesis using w by blast
qed

text \<open>C9: A repair writes to the four structural blocks and to the region of the block allocation
  table, and nowhere else: payload, metadata and log are left as they were.\<close>

theorem repair_confined:
  assumes "attempt_repair d = Ok (rep, d')" and "p < length d" and "\<not> in_structure d p"
  shows "d' ! p = d ! p"
  using assms(1)
proof (rule attempt_repair_Ok)
  fix issues ghosts
  assume "repair_loop (bat_region_offset d) (issues @ ghosts) d = Ok (rep, d')"
    and "\<forall>issue \<in> set (issues @ ghosts). sound_issue d issue"
  then show ?thesis using confined.loop [of "issues @ ghosts" d d rep d'] assms(2,3) by auto
qed

text \<open>Clearing the reserved bits of an entry keeps its state and its place, so a block is read
  from where it was; afterwards no reserved bit is set, and no byte outside the entry differs.\<close>

theorem cleared_entry_maps_the_same:
  assumes "clear_bat_reserved_bits d off idx = Ok (a, d')"
  shows "entry_state (r64 d' (ra_byte_offset a)) = entry_state (r64 d (ra_byte_offset a))
    \<and> entry_offset_mb (r64 d' (ra_byte_offset a)) = entry_offset_mb (r64 d (ra_byte_offset a))
    \<and> r64 d' (ra_byte_offset a) AND BAT_RESERVED_BITS_MASK = 0
    \<and> (\<forall>p < length d. \<not> covers a p \<longrightarrow> d' ! p = d ! p)"
proof -
  let ?v = "r64 d (ra_byte_offset a)"
  have e: "entry_write off idx (\<lambda>v. v AND NOT BAT_RESERVED_BITS_MASK) d a d'"
    using assms by (rule clear_bat_Ok)
  then have v: "r64 d' (ra_byte_offset a) = ?v AND NOT BAT_RESERVED_BITS_MASK"
    by (auto simp: entry_write_def le_u64_put)
  have "(?v AND NOT BAT_RESERVED_BITS_MASK) AND 7 = ?v AND 7"
    by (simp add: BAT_RESERVED_BITS_MASK_def and.assoc)
  moreover have "drop_bit 20 (?v AND NOT BAT_RESERVED_BITS_MASK) = drop_bit 20 ?v"
    by (rule offset_unmasked)
  moreover have "(?v AND NOT BAT_RESERVED_BITS_MASK) AND BAT_RESERVED_BITS_MASK = 0"
    by (simp add: and.assoc)
  moreover have "\<forall>p < length d. \<not> covers a p \<longrightarrow> d' ! p = d ! p"
    using mends_frame(2) [OF mend_clear [OF e]] by blast
  ultimately show ?thesis unfolding v by (simp add: entry_state_def entry_offset_mb_def)
qed

end
