(* ===== verification/Sample.thy ===== *)
theory Sample
  imports Healing
begin

text \<open>
  Small images on which the theorems on the analyser and the repair are instantiated. They end
  with the structural area, so the regions their table names lie beyond them.
\<close>

definition small_image :: "bytes \<Rightarrow> bytes \<Rightarrow> bytes" where
  "small_image h1 h2 =
     AUDIT_MAGIC @ replicate 65528 0 @ h1 @ replicate 61440 0 @ h2 @ replicate 61440 0
     @ sample_table @ sample_table"

lemma length_small [simp]:
  "length h1 = 4096 \<Longrightarrow> length h2 = 4096 \<Longrightarrow> length (small_image h1 h2) = AUDIT_MIN_SIZE"
  by (simp add: small_image_def AUDIT_MAGIC_def length_sample_table AUDIT_MIN_SIZE_def)

lemma small_windows:
  assumes "length h1 = 4096" and "length h2 = 4096"
  shows "window (small_image h1 h2) 0 8 = AUDIT_MAGIC"
    and "window (small_image h1 h2) HEADER1_OFFSET HEADER_SIZE = h1"
    and "window (small_image h1 h2) HEADER2_OFFSET HEADER_SIZE = h2"
    and "window (small_image h1 h2) REGION_TABLE1_OFFSET REGION_TABLE_CRC_COVERAGE = sample_table"
    and "window (small_image h1 h2) REGION_TABLE2_OFFSET REGION_TABLE_CRC_COVERAGE = sample_table"
proof -
  have m: "length AUDIT_MAGIC = 8" by (simp add: AUDIT_MAGIC_def)
  show "window (small_image h1 h2) 0 8 = AUDIT_MAGIC"
    by (simp add: small_image_def window_def m)
  show "window (small_image h1 h2) HEADER1_OFFSET HEADER_SIZE = h1"
    using assms by (simp add: small_image_def window_def m header_layout HEADER_SIZE_def)
  show "window (small_image h1 h2) HEADER2_OFFSET HEADER_SIZE = h2"
    using assms by (simp add: small_image_def window_def m header_layout HEADER_SIZE_def)
  show "window (small_image h1 h2) REGION_TABLE1_OFFSET REGION_TABLE_CRC_COVERAGE = sample_table"
    using assms by (simp add: small_image_def window_def m header_layout REGION_TABLE_CRC_COVERAGE_def
        length_sample_table)
  show "window (small_image h1 h2) REGION_TABLE2_OFFSET REGION_TABLE_CRC_COVERAGE = sample_table"
    using assms by (simp add: small_image_def window_def m header_layout REGION_TABLE_CRC_COVERAGE_def
        length_sample_table)
qed

lemma small_magic: "length h1 = 4096 \<Longrightarrow> length h2 = 4096 \<Longrightarrow> check_file_magic (small_image h1 h2) = []"
  by (simp add: check_file_magic_def small_windows)

lemma sample_table_valid: "region_table_valid sample_table 0"
  by (simp add: block_valid_def length_sample_table sample_fields sample_table_crc
      REGION_TABLE_CRC_COVERAGE_def)

lemma valid_at:
  assumes "window d off REGION_TABLE_CRC_COVERAGE = sample_table" and "off + REGION_TABLE_CRC_COVERAGE \<le> length d"
  shows "region_table_valid d off"
proof (rule rgn.valid_moved [OF sample_table_valid _ assms(2)])
  have "window sample_table 0 REGION_TABLE_CRC_COVERAGE = sample_table"
    by (simp add: REGION_TABLE_CRC_COVERAGE_def length_sample_table)
  then show "window d off REGION_TABLE_CRC_COVERAGE = window sample_table 0 REGION_TABLE_CRC_COVERAGE"
    using assms(1) by simp
qed

lemma blank_at:
  assumes "window d off HEADER_SIZE = blank_header" and "off + HEADER_SIZE \<le> length d"
  shows "header_valid d off"
  by (rule hdr.valid_moved [OF blank_header_valid(2) _ assms(2)])
    (simp add: assms(1) blank_header_valid(1))

subsection \<open>The regions of the sample table\<close>

lemma sample_find_regions:
  "find_regions sample_table [0..<2] None None
    = (Some (0x100000, 0x100000), Some (0x200000, 0x100000))"
  by (simp add: upt_rec Let_def REGION_ENTRY_SIZE_def length_sample_table sample_fields guids_differ)

lemma invalid_table_unparsed: "\<not> region_table_valid d off \<Longrightarrow> try_parse_regions d off = None"
  by (auto simp: try_parse_regions_def Let_def block_valid_def crc_ok_def window_0_4
      REGION_TABLE_CRC_COVERAGE_def)

lemma sample_parsed:
  assumes w: "window d off REGION_TABLE_CRC_COVERAGE = sample_table"
    and len: "off + REGION_TABLE_CRC_COVERAGE \<le> length d" and small: "length d < 0x300000"
  shows "\<exists>r. try_parse_regions d off = Some r \<and> pr_block_size r = None
    \<and> pr_bat_offset r = 0x100000 \<and> pr_bat_length r = 0x100000"
proof -
  have count: "min (unat (r32 sample_table 8)) 2048 = 2" by (simp add: sample_fields)
  have items: "read_audit_items d 0x200000 0x100000 = Some no_audit_items"
    using small by (simp add: read_audit_items_def saturating_add_def)
  show ?thesis
    using len sample_table_crc
    unfolding try_parse_regions_def w Let_def count sample_find_regions
    by (simp add: sample_fields crc_ok_def items no_audit_items_def)
qed

lemma analyse_bare:
  assumes "parse_regions d = Some r" and "pr_block_size r = None"
    and "length d < saturating_add (unat (pr_bat_offset r)) (unat (pr_bat_length r))"
  shows "\<exists>issues. analyse d = Ok issues" and "check_bat_ghost_data d = Ok []"
  using assms
  by (auto simp: analyse_def Let_def check_bat_inner_def check_trailing_data_inner_def
      check_bat_ghost_data_def)

text \<open>An image that ends with the structural area and has a good table is analysed to the end.\<close>

lemma small_analysed:
  assumes "length d = AUDIT_MIN_SIZE"
    and "window d REGION_TABLE1_OFFSET REGION_TABLE_CRC_COVERAGE = sample_table
      \<or> \<not> region_table_valid d REGION_TABLE1_OFFSET"
    and "window d REGION_TABLE2_OFFSET REGION_TABLE_CRC_COVERAGE = sample_table"
  shows "\<exists>issues. analyse d = Ok issues" and "check_bat_ghost_data d = Ok []"
    and "bat_clear (bat_region_offset d)"
proof -
  have fits: "REGION_TABLE1_OFFSET + REGION_TABLE_CRC_COVERAGE \<le> length d"
    "REGION_TABLE2_OFFSET + REGION_TABLE_CRC_COVERAGE \<le> length d" "length d < 0x300000"
    using assms(1) by (simp_all add: header_layout REGION_TABLE_CRC_COVERAGE_def AUDIT_MIN_SIZE_def)
  obtain r where r: "parse_regions d = Some r" "pr_block_size r = None"
    "pr_bat_offset r = 0x100000" "pr_bat_length r = 0x100000"
    using assms(2) sample_parsed [OF _ fits(1,3)] sample_parsed [OF assms(3) fits(2,3)]
      invalid_table_unparsed [of d REGION_TABLE1_OFFSET]
    unfolding parse_regions_def by (auto split: option.splits)
  have "length d < saturating_add (unat (pr_bat_offset r)) (unat (pr_bat_length r))"
    using r assms(1) by (simp add: saturating_add_def AUDIT_MIN_SIZE_def)
  from analyse_bare [OF r(1,2) this]
  show "\<exists>issues. analyse d = Ok issues" "check_bat_ghost_data d = Ok []" .
  show "bat_clear (bat_region_offset d)"
    using r by (simp add: bat_clear_def bat_region_offset_def AUDIT_MIN_SIZE_def)
qed

subsection \<open>Witnesses\<close>

text \<open>A sound image, one with a damaged second header, and two with a tampered byte.\<close>

definition sound_image :: bytes where "sound_image = small_image blank_header blank_header"
definition torn_image :: bytes where "torn_image = small_image blank_header (replicate 4096 0)"
definition edited_header :: bytes where
  "edited_header = overwrite sound_image (header_offset 1 + 72) [1]"
definition edited_table :: bytes where
  "edited_table = overwrite sound_image (rt_offset 1 + 100) [1]"

lemma length_images [simp]:
  "length sound_image = AUDIT_MIN_SIZE" "length torn_image = AUDIT_MIN_SIZE"
  by (simp_all add: sound_image_def torn_image_def blank_header_valid HEADER_SIZE_def)

lemma sound_image_parts:
  "check_file_magic sound_image = []"
  "header_valid sound_image HEADER1_OFFSET" "header_valid sound_image HEADER2_OFFSET"
  "window sound_image HEADER1_OFFSET HEADER_SIZE = blank_header"
  "window sound_image REGION_TABLE1_OFFSET REGION_TABLE_CRC_COVERAGE = sample_table"
  "window sound_image REGION_TABLE2_OFFSET REGION_TABLE_CRC_COVERAGE = sample_table"
  "region_table_valid sound_image REGION_TABLE1_OFFSET" "region_table_valid sound_image REGION_TABLE2_OFFSET"
proof -
  have b: "length blank_header = 4096" by (simp add: blank_header_valid HEADER_SIZE_def)
  note w = small_windows [OF b b, folded sound_image_def]
  show "check_file_magic sound_image = []" unfolding sound_image_def using small_magic [OF b b] .
  show "window sound_image HEADER1_OFFSET HEADER_SIZE = blank_header"
    "window sound_image REGION_TABLE1_OFFSET REGION_TABLE_CRC_COVERAGE = sample_table"
    "window sound_image REGION_TABLE2_OFFSET REGION_TABLE_CRC_COVERAGE = sample_table"
    using w by simp_all
  show "header_valid sound_image HEADER1_OFFSET" "header_valid sound_image HEADER2_OFFSET"
    using blank_at [OF w(2)] blank_at [OF w(3)] header_fits [of AUDIT_MIN_SIZE 1]
      header_fits [of AUDIT_MIN_SIZE 2] by simp_all
  show "region_table_valid sound_image REGION_TABLE1_OFFSET"
    "region_table_valid sound_image REGION_TABLE2_OFFSET"
    using valid_at [OF w(4)] valid_at [OF w(5)] rt_fits [of AUDIT_MIN_SIZE 1]
      rt_fits [of AUDIT_MIN_SIZE 2] by simp_all
qed

lemma torn_image_parts:
  "check_file_magic torn_image = []"
  "header_valid torn_image HEADER1_OFFSET" "\<not> header_valid torn_image HEADER2_OFFSET"
  "window torn_image REGION_TABLE1_OFFSET REGION_TABLE_CRC_COVERAGE = sample_table"
  "window torn_image REGION_TABLE2_OFFSET REGION_TABLE_CRC_COVERAGE = sample_table"
proof -
  have b: "length blank_header = 4096" "length (replicate 4096 (0 :: u8)) = 4096"
    by (simp_all add: blank_header_valid HEADER_SIZE_def)
  note w = small_windows [OF b, folded torn_image_def]
  show "check_file_magic torn_image = []" unfolding torn_image_def using small_magic [OF b] .
  show "header_valid torn_image HEADER1_OFFSET"
    using blank_at [OF w(2)] header_fits [of AUDIT_MIN_SIZE 1] by simp
  have "hd (window (replicate 4096 (0 :: u8)) 0 4) \<noteq> hd HEADER_SIGNATURE"
    by (simp add: window_def HEADER_SIGNATURE_def)
  then have "window (window torn_image HEADER2_OFFSET HEADER_SIZE) 0 4 \<noteq> HEADER_SIGNATURE"
    unfolding w(3) by metis
  then show "\<not> header_valid torn_image HEADER2_OFFSET"
    by (simp add: block_valid_def window_0_4 HEADER_SIZE_def)
  show "window torn_image REGION_TABLE1_OFFSET REGION_TABLE_CRC_COVERAGE = sample_table"
    "window torn_image REGION_TABLE2_OFFSET REGION_TABLE_CRC_COVERAGE = sample_table"
    using w by simp_all
qed

lemma blank_header_zero: "window blank_header 72 1 = [0]"
proof -
  have "window blank_header 72 1 = window (HEADER_SIGNATURE @ replicate 4092 0) 72 1"
    unfolding blank_header_def by (intro window_seal) (simp_all add: HEADER_SIGNATURE_def)
  then show ?thesis by (simp add: HEADER_SIGNATURE_def window_def)
qed

lemma sample_table_zero: "window sample_table 100 1 = [0]"
proof -
  have "window sample_table 100 1 = window (sample_entries @ replicate 65456 0) 100 1"
    unfolding sample_table_def by (intro window_seal) (simp_all add: length_sample_entries)
  then show ?thesis by (simp add: window_def length_sample_entries)
qed

lemma edited_changes:
  "window sound_image (header_offset 1 + 72) (length [1 :: u8]) \<noteq> [1]"
  "window sound_image (rt_offset 1 + 100) (length [1 :: u8]) \<noteq> [1]"
proof -
  have "window sound_image (HEADER1_OFFSET + 72) 1 = window (window sound_image HEADER1_OFFSET HEADER_SIZE) 72 1"
    by (rule window_window [symmetric]) (simp add: HEADER_SIZE_def)
  then show "window sound_image (header_offset 1 + 72) (length [1 :: u8]) \<noteq> [1]"
    by (simp add: sound_image_parts blank_header_zero [simplified])
  have "window sound_image (REGION_TABLE1_OFFSET + 100) 1
      = window (window sound_image REGION_TABLE1_OFFSET REGION_TABLE_CRC_COVERAGE) 100 1"
    by (rule window_window [symmetric]) (simp add: REGION_TABLE_CRC_COVERAGE_def)
  then show "window sound_image (rt_offset 1 + 100) (length [1 :: u8]) \<noteq> [1]"
    by (simp add: sound_image_parts sample_table_zero [simplified])
qed


lemma edited_analysed:
  "\<exists>issues. analyse edited_header = Ok issues" "\<exists>issues. analyse edited_table = Ok issues"
    "check_bat_ghost_data edited_table = Ok []" "bat_clear (bat_region_offset edited_table)"
  and edited_table_parts: "\<not> region_table_valid edited_table REGION_TABLE1_OFFSET"
    "region_table_valid edited_table REGION_TABLE2_OFFSET" "check_file_magic edited_table = []"
    "length edited_table = AUDIT_MIN_SIZE"
proof -
  have fits: "header_offset 1 + 72 + length [1 :: u8] \<le> length sound_image"
    "rt_offset 1 + 100 + length [1 :: u8] \<le> length sound_image"
    by (simp_all add: header_layout AUDIT_MIN_SIZE_def)
  have lh: "length edited_header = AUDIT_MIN_SIZE"
    unfolding edited_header_def using length_overwrite [OF fits(1)] by simp
  show lt: "length edited_table = AUDIT_MIN_SIZE"
    unfolding edited_table_def using length_overwrite [OF fits(2)] by simp
  have "window edited_header REGION_TABLE1_OFFSET REGION_TABLE_CRC_COVERAGE = sample_table"
    "window edited_header REGION_TABLE2_OFFSET REGION_TABLE_CRC_COVERAGE = sample_table"
    unfolding edited_header_def using sound_image_parts(5,6) fits(1)
    by (simp_all add: window_overwrite_disjoint header_layout)
  then show "\<exists>issues. analyse edited_header = Ok issues"
    using small_analysed(1) [OF lh] by blast
  show bad: "\<not> region_table_valid edited_table REGION_TABLE1_OFFSET"
    using rgn.valid_detects [OF sound_image_parts(7), of 100 "[1]"] edited_changes(2)
    by (simp add: detectable_def edited_table_def REGION_TABLE_CRC_COVERAGE_def)
  have w2: "window edited_table REGION_TABLE2_OFFSET REGION_TABLE_CRC_COVERAGE = sample_table"
    unfolding edited_table_def using sound_image_parts(6) fits(2)
    by (simp add: window_overwrite_disjoint header_layout)
  then show "region_table_valid edited_table REGION_TABLE2_OFFSET"
    using valid_at [OF w2] rt_fits [of AUDIT_MIN_SIZE 2] lt by simp
  show "\<exists>issues. analyse edited_table = Ok issues" "check_bat_ghost_data edited_table = Ok []"
    "bat_clear (bat_region_offset edited_table)"
    using small_analysed [OF lt _ w2] bad by blast+
  show "check_file_magic edited_table = []"
    unfolding edited_table_def using magic_frame [OF _ fits(2)] sound_image_parts(1) by simp
qed

lemma torn_analysed:
  "\<exists>issues. analyse torn_image = Ok issues" "check_bat_ghost_data torn_image = Ok []"
  "bat_clear (bat_region_offset torn_image)"
  using small_analysed [of torn_image] torn_image_parts by auto

lemma repaired_images:
  "\<exists>rep d'. attempt_repair torn_image = Ok (rep, d')"
  "\<exists>rep d'. attempt_repair edited_table = Ok (rep, d')"
proof -
  have "length torn_image < 2 ^ 64" "length edited_table < 2 ^ 64"
    using edited_table_parts(4) by (simp_all add: AUDIT_MIN_SIZE_def)
  then show "\<exists>rep d'. attempt_repair torn_image = Ok (rep, d')"
    "\<exists>rep d'. attempt_repair edited_table = Ok (rep, d')"
    using attempt_repair_returns torn_analysed edited_analysed by blast+
qed

theorem header_tampering_reported_witness:
  "\<exists>issues computed stored. analyse edited_header = Ok issues
    \<and> HeaderChecksumMismatch 1 computed stored \<in> set issues"
proof -
  obtain issues where an: "analyse edited_header = Ok issues" using edited_analysed(1) by blast
  have "if header_valid sound_image (header_offset 2)
      then \<exists>computed stored. HeaderChecksumMismatch 1 computed stored \<in> set issues
      else BothHeaderCopiesInvalid \<in> set issues"
    by (rule header_tampering_reported [where d = sound_image and k = 72 and xs = "[1]" and copy = 1])
      (use sound_image_parts edited_changes an in \<open>simp_all add: HEADER_SIZE_def edited_header_def\<close>)
  then have "\<exists>computed stored. HeaderChecksumMismatch 1 computed stored \<in> set issues"
    using sound_image_parts by simp
  with an show ?thesis by blast
qed

theorem region_table_tampering_reported_witness:
  "\<exists>issues computed stored. analyse edited_table = Ok issues
    \<and> RegionTableChecksumMismatch 1 computed stored \<in> set issues"
proof -
  obtain issues where an: "analyse edited_table = Ok issues" using edited_analysed(2) by blast
  have "if region_table_valid sound_image (rt_offset 2)
      then \<exists>computed stored. RegionTableChecksumMismatch 1 computed stored \<in> set issues
      else BothRegionTableCopiesInvalid \<in> set issues"
    by (rule region_table_tampering_reported [where d = sound_image and k = 100 and xs = "[1]" and copy = 1])
      (use sound_image_parts edited_changes an in
        \<open>simp_all add: REGION_TABLE_CRC_COVERAGE_def edited_table_def\<close>)
  then have "\<exists>computed stored. RegionTableChecksumMismatch 1 computed stored \<in> set issues"
    using sound_image_parts by simp
  with an show ?thesis by blast
qed

theorem repair_total_witness: "\<exists>rep d'. attempt_repair torn_image = Ok (rep, d')"
proof -
  obtain issues where "analyse torn_image = Ok issues" using torn_analysed(1) by blast
  from repair_total [OF this torn_analysed(2)] show ?thesis by (simp add: AUDIT_MIN_SIZE_def)
qed

theorem repair_report_complete_witness:
  "\<exists>rep d'. attempt_repair torn_image = Ok (rep, d') \<and> length d' = AUDIT_MIN_SIZE
    \<and> (\<forall>p < AUDIT_MIN_SIZE. d' ! p \<noteq> torn_image ! p \<longrightarrow> (\<exists>a \<in> set (rr_repaired rep). covers a p))"
proof -
  obtain rep d' where "attempt_repair torn_image = Ok (rep, d')" using repaired_images by blast
  with repair_report_complete [OF this] show ?thesis by auto
qed

theorem repair_restores_headers_witness:
  "\<exists>rep d'. attempt_repair torn_image = Ok (rep, d')
    \<and> window d' HEADER2_OFFSET HEADER_SIZE = window torn_image HEADER1_OFFSET HEADER_SIZE
    \<and> header_valid d' HEADER2_OFFSET"
proof -
  obtain rep d' where r: "attempt_repair torn_image = Ok (rep, d')" using repaired_images by blast
  note restored = repair_restores_headers [OF this torn_image_parts(1) torn_analysed(3)]
  have "other_copy 2 1" by (simp add: other_copy_def)
  with restored have "window d' (header_offset 2) HEADER_SIZE =
      (if header_valid torn_image (header_offset 2) \<or> \<not> header_valid torn_image (header_offset 1)
       then window torn_image (header_offset 2) HEADER_SIZE else window torn_image (header_offset 1) HEADER_SIZE)"
    by blast
  with restored show ?thesis using r torn_image_parts by auto
qed

theorem repair_restores_region_tables_witness:
  "\<exists>rep d'. attempt_repair edited_table = Ok (rep, d')
    \<and> window d' REGION_TABLE1_OFFSET REGION_TABLE_CRC_COVERAGE
        = window edited_table REGION_TABLE2_OFFSET REGION_TABLE_CRC_COVERAGE
    \<and> region_table_valid d' REGION_TABLE1_OFFSET"
proof -
  obtain rep d' where r: "attempt_repair edited_table = Ok (rep, d')" using repaired_images by blast
  note restored = repair_restores_region_tables [OF this edited_table_parts(3) edited_analysed(4)]
  have "other_copy 1 2" by (simp add: other_copy_def)
  with restored have "window d' (rt_offset 1) REGION_TABLE_CRC_COVERAGE =
      (if region_table_valid edited_table (rt_offset 1) \<or> \<not> region_table_valid edited_table (rt_offset 2)
       then window edited_table (rt_offset 1) REGION_TABLE_CRC_COVERAGE
       else window edited_table (rt_offset 2) REGION_TABLE_CRC_COVERAGE)"
    by blast
  with restored show ?thesis using r edited_table_parts by auto
qed

theorem repair_confined_witness:
  "\<exists>rep d'. attempt_repair torn_image = Ok (rep, d') \<and> d' ! 0 = torn_image ! 0"
proof -
  obtain rep d' where r: "attempt_repair torn_image = Ok (rep, d')" using repaired_images by blast
  have "\<not> in_structure torn_image 0"
    using torn_analysed(3)
    by (auto simp: in_structure_def in_block_def header_layout bat_clear_def bat_region_offset_def
        AUDIT_MIN_SIZE_def)
  from repair_confined [OF r _ this] r show ?thesis by (auto simp: AUDIT_MIN_SIZE_def)
qed

theorem cleared_entry_maps_the_same_witness:
  "\<exists>a d'. clear_bat_reserved_bits [0xFE, 0, 0x30, 0, 0, 0, 0, 0] 0 0 = Ok (a, d')
    \<and> entry_offset_mb (r64 d' (ra_byte_offset a)) = entry_offset_mb 0x3000FE"
proof -
  let ?d = "[0xFE, 0, 0x30, 0, 0, 0, 0, 0] :: bytes"
  obtain a d' where c: "clear_bat_reserved_bits ?d 0 0 = Ok (a, d')"
    using entry_actions_total(2) [of 0 0 ?d] actions_no_Err(4) [of ?d 0 0]
    by (cases "clear_bat_reserved_bits ?d 0 0") auto
  have "ra_byte_offset a = 0" using clear_bat_Ok [OF c] by (simp add: entry_write_def)
  moreover have "r64 ?d 0 = 0x3000FE" by (simp add: le_u64_def window_def)
  ultimately show ?thesis using c cleared_entry_maps_the_same [OF c] by auto
qed

end
