(* ===== verification/Coverage.thy ===== *)
theory Coverage
  imports Findings
begin

text \<open>
  What a clean audit of the block allocation table and of the metadata guarantees, where the
  audit panics, and what it misses (\<open>bat_scan_entries\<close>, \<open>bat_check_size_formula\<close>,
  \<open>check_metadata_inner\<close> of \<open>forensic/src/integrity.rs\<close>).
\<close>

subsection \<open>Neighbours of a sorted list\<close>

lemma neighbours_strict:
  fixes f :: "'a \<Rightarrow> 'b :: linorder"
  assumes "sorted (map f xs)" and "\<forall>(a, b) \<in> set (neighbours xs). f a \<noteq> f b"
  shows "sorted_wrt (\<lambda>a b. f a < f b) xs"
  using assms
proof (induction xs rule: neighbours.induct)
  case (1 x y zs)
  then have "sorted_wrt (\<lambda>a b. f a < f b) (y # zs)" "f x < f y" by auto
  then show ?case by auto
qed simp_all

lemma entry_overlaps_Nil:
  assumes "entry_overlaps present = []"
  shows "distinct (map fst present)"
proof -
  have "\<forall>(a, b) \<in> set (neighbours (sort_key fst present)). fst a \<noteq> fst b"
    using assms by (fastforce simp: entry_overlaps_def)
  then have "sorted_wrt (\<lambda>a b. fst a < fst b) (sort_key fst present)"
    by (intro neighbours_strict) simp_all
  then have "sorted_wrt (<) (map fst (sort_key fst present))"
    by (simp add: sorted_wrt_map)
  then have "distinct (map fst (sort_key fst present))"
    by (simp add: strict_sorted_iff)
  then have "distinct (map fst (sort_key fst present)) \<and>
      mset (map fst (sort_key fst present)) = mset (map fst present)"
    by simp
  then show ?thesis by (metis mset_eq_imp_distinct_iff)
qed

subsection \<open>The payload entries of a table\<close>

text \<open>Where the table places the block of entry \<open>i\<close>, when the entry is a present payload block.\<close>

definition entry_at :: "bytes \<Rightarrow> parsed_regions \<Rightarrow> nat \<Rightarrow> u64" where
  "entry_at d r i = r64 d (unat (pr_bat_offset r) + i * 8)"

definition placed :: "bytes \<Rightarrow> parsed_regions \<Rightarrow> nat \<Rightarrow> nat option" where
  "placed d r i =
     (if is_bitmap_slot r i = Ok False \<and> entry_state (entry_at d r i) = PAYLOAD_BLOCK_FULLY_PRESENT
      then Some (entry_offset_mb (entry_at d r i) * MB) else None)"

lemma MB_inj: "a * MB = b * MB \<longleftrightarrow> a = b"
  by (simp add: MB_def)

lemma scan_entry_clean:
  assumes "scan_entry d r n i (entry_at d r i) = Ok ([], p)"
  shows "case placed d r i of
      Some fo \<Rightarrow> fo < length d \<and> structural_zone d r fo = None
        \<and> entry_at d r i AND BAT_RESERVED_BITS_MASK = 0 \<and> p = [(entry_offset_mb (entry_at d r i), i)]
    | None \<Rightarrow> True"
  using assms
  by (auto simp: scan_entry_def placed_def and_then_Ok_iff Let_def split: if_splits option.splits)

lemma scan_loop_clean:
  assumes "scan_loop d r n is = Ok ([], present)"
    and "\<forall>i \<in> set is. unat (pr_bat_offset r) + i * 8 + 8 \<le> length d"
  shows "\<forall>i \<in> set is. \<exists>p. scan_entry d r n i (entry_at d r i) = Ok ([], p) \<and> set p \<subseteq> set present"
  using assms
proof (induction "is" arbitrary: present)
  case (Cons i "is")
  from Cons.prems obtain p rest where
    one: "scan_entry d r n i (entry_at d r i) = Ok ([], p)"
    and more: "scan_loop d r n is = Ok ([], rest)" and present: "present = p @ rest"
    by (auto simp: and_then_Ok_iff entry_at_def)
  have "\<forall>j \<in> set is. \<exists>q. scan_entry d r n j (entry_at d r j) = Ok ([], q) \<and> set q \<subseteq> set rest"
    using Cons.IH [OF more] Cons.prems(2) by simp
  then show ?case using one present by fastforce
qed simp

lemma placed_clean:
  assumes "scan_entry d r n i (entry_at d r i) = Ok ([], p)" and "placed d r i = Some fo"
  shows "fo < length d \<and> structural_zone d r fo = None
    \<and> entry_at d r i AND BAT_RESERVED_BITS_MASK = 0 \<and> (entry_offset_mb (entry_at d r i), i) \<in> set p
    \<and> fo = entry_offset_mb (entry_at d r i) * MB"
  using scan_entry_clean [OF assms(1)] assms(2) by (auto simp: placed_def split: if_splits)

text \<open>
  What the format reserves: the first 320 KiB, the metadata region, and the log that the active
  header names.
\<close>

definition reserved_place :: "bytes \<Rightarrow> parsed_regions \<Rightarrow> nat \<Rightarrow> bool" where
  "reserved_place d r p \<longleftrightarrow>
     p < 0x50000
     \<or> unat (pr_meta_offset r) \<le> p \<and> p < unat (pr_meta_offset r) + unat (pr_meta_length r)
     \<or> (\<exists>h. parse_active_header d = Ok h
          \<and> unat (log_offset h) \<le> p \<and> p < unat (log_offset h) + unat (log_length h))"

lemma structural_zone_reserved:
  assumes "fo < 2 ^ 63"
  shows "structural_zone d r fo = None \<longleftrightarrow> \<not> reserved_place d r fo"
proof -
  have "(\<exists>h. parse_active_header d = Ok h
        \<and> unat (log_offset h) \<le> fo \<and> fo < unat (log_offset h) + unat (log_length h))
      \<longleftrightarrow> (\<exists>lo le. log_zone d = Some (lo, le) \<and> lo \<le> fo \<and> fo < le)"
    using assms
    by (auto simp: audited_header log_zone_def header_at_def log_end_le Let_def split: option.splits)
  then show ?thesis
    using log_end_le [OF assms]
    by (auto simp: structural_zone_def reserved_place_def Let_def split: option.splits prod.splits if_splits)
qed

subsection \<open>Properties\<close>

text \<open>C5: When the audit of a block allocation table that lies in the image finds nothing, every
  present payload block starts inside the image, behind the first 320 KiB with the file identifier,
  the headers and the region tables, and neither in the metadata region nor in the log that the
  header the reader chooses names; its entry has no reserved bit set, and no two entries place a
  block at the same offset.\<close>

theorem clean_table_places_blocks_apart:
  assumes "check_bat_inner d (Some r) = Ok []"
    and "unat (pr_bat_offset r) + unat (pr_bat_length r) \<le> length d" and "length d < 2 ^ 63"
    and "i < unat (pr_bat_length r) div 8" and "placed d r i = Some fo"
  shows "fo < length d \<and> 0x50000 \<le> fo
    \<and> \<not> (unat (pr_meta_offset r) \<le> fo \<and> fo < unat (pr_meta_offset r) + unat (pr_meta_length r))
    \<and> (\<forall>h. parse_active_header d = Ok h \<longrightarrow>
         \<not> (unat (log_offset h) \<le> fo \<and> fo < unat (log_offset h) + unat (log_length h)))
    \<and> entry_at d r i AND BAT_RESERVED_BITS_MASK = 0
    \<and> (\<forall>j < unat (pr_bat_length r) div 8. placed d r j = Some fo \<longrightarrow> j = i)"
proof -
  let ?n = "unat (pr_bat_length r) div 8"
  have bounds: "\<forall>j \<in> set [0..<?n]. unat (pr_bat_offset r) + j * 8 + 8 \<le> length d"
  proof
    fix j assume "j \<in> set [0..<?n]"
    then have "j * 8 + 8 \<le> unat (pr_bat_length r)" by auto
    then show "unat (pr_bat_offset r) + j * 8 + 8 \<le> length d" using assms(2) by linarith
  qed
  have "saturating_add (unat (pr_bat_offset r)) (unat (pr_bat_length r)) \<le> length d"
    using assms(2,3) by (subst saturating_add_exact) simp_all
  moreover have "8 \<le> unat (pr_bat_length r)" using assms(4) by linarith
  ultimately obtain present where scan: "scan_loop d r ?n [0..<?n] = Ok ([], present)"
    and overlaps: "entry_overlaps present = []"
    using assms(1)
    by (auto simp: check_bat_inner_def bat_scan_entries_def and_then_Ok_iff Let_def)
  have key: "fo' < length d \<and> structural_zone d r fo' = None
      \<and> entry_at d r j AND BAT_RESERVED_BITS_MASK = 0
      \<and> (entry_offset_mb (entry_at d r j), j) \<in> set present \<and> fo' = entry_offset_mb (entry_at d r j) * MB"
    if "j < ?n" "placed d r j = Some fo'" for j fo'
  proof -
    have "j \<in> set [0..<?n]" using that(1) by simp
    then obtain p where "scan_entry d r ?n j (entry_at d r j) = Ok ([], p)" "set p \<subseteq> set present"
      using scan_loop_clean [OF scan bounds] by blast
    then show ?thesis using placed_clean [OF _ that(2)] by blast
  qed
  note i = key [OF assms(4,5)]
  have "j = i" if "j < ?n" "placed d r j = Some fo" for j
  proof (rule eq_key_imp_eq_value [OF entry_overlaps_Nil [OF overlaps]])
    show "(entry_offset_mb (entry_at d r i), i) \<in> set present" using i by blast
    show "(entry_offset_mb (entry_at d r i), j) \<in> set present"
      using key [OF that] i MB_inj by metis
  qed
  moreover have "\<not> reserved_place d r fo"
    using i structural_zone_reserved [of fo d r] assms(3) by auto
  ultimately show ?thesis using i unfolding reserved_place_def by auto
qed

text \<open>One entry, present at 1 MiB.\<close>

definition one_entry_image :: bytes where
  "one_entry_image = overwrite (replicate 0x200000 0) 0x60000 (u64_to_le 0x100006)"

definition one_entry_regions :: parsed_regions where
  "one_entry_regions =
     \<lparr> pr_bat_offset = 0x60000, pr_bat_length = 8, pr_meta_offset = 0x70000, pr_meta_length = 8,
       pr_block_size = None, pr_logical_ss = None, pr_vdisk_size = None, pr_chunk_ratio = None,
       pr_has_parent = False, pr_leave_alloc = False, pr_physical_ss = None, pr_vdisk_id = None,
       pr_has_parent_locator = False \<rparr>"

lemma one_entry_sel [simp]:
  "pr_bat_offset one_entry_regions = 0x60000" "pr_bat_length one_entry_regions = 8"
  "pr_meta_offset one_entry_regions = 0x70000" "pr_meta_length one_entry_regions = 8"
  "pr_block_size one_entry_regions = None" "pr_vdisk_size one_entry_regions = None"
  "pr_chunk_ratio one_entry_regions = None"
  by (simp_all add: one_entry_regions_def)

lemma one_entry:
  "length one_entry_image = 0x200000" "entry_at one_entry_image one_entry_regions 0 = 0x100006"
  "placed one_entry_image one_entry_regions 0 = Some 0x100000"
  "active_header_block one_entry_image = None"
proof -
  show len: "length one_entry_image = 0x200000" by (simp add: one_entry_image_def)
  have get: "r64 one_entry_image 0x60000 = 0x100006"
    unfolding one_entry_image_def by (rule le_u64_put) simp
  then show e: "entry_at one_entry_image one_entry_regions 0 = 0x100006"
    by (simp add: entry_at_def)
  then show "placed one_entry_image one_entry_regions 0 = Some 0x100000"
    by (simp add: placed_def is_bitmap_slot_def entry_state_def
        entry_offset_mb_def PAYLOAD_BLOCK_FULLY_PRESENT_def MB_def)
  have "hd (window (replicate 0x200000 (0 :: u8)) off 4) \<noteq> hd HEADER_SIGNATURE" if "off < 0x30000" for off
    using that by (simp add: window_def HEADER_SIGNATURE_def)
  moreover have "window one_entry_image off 4 = window (replicate 0x200000 0) off 4" if "off < 0x30000" for off
    unfolding one_entry_image_def using that by (intro window_overwrite_disjoint) simp_all
  ultimately have "\<not> header_valid one_entry_image off" if "off < 0x30000" for off
    using that unfolding block_valid_def by metis
  then show "active_header_block one_entry_image = None"
    by (simp add: active_header_block_cases header_layout)
qed

theorem clean_table_places_blocks_apart_witness:
  "check_bat_inner one_entry_image (Some one_entry_regions) = Ok []
   \<and> placed one_entry_image one_entry_regions 0 = Some 0x100000
   \<and> \<not> (unat (pr_meta_offset one_entry_regions) \<le> 0x100000
        \<and> 0x100000 < unat (pr_meta_offset one_entry_regions) + unat (pr_meta_length one_entry_regions))"
proof -
  have scan: "scan_entry one_entry_image one_entry_regions 1 0 0x100006 = Ok ([], [(1, 0)])"
    by (simp add: scan_entry_def is_bitmap_slot_def state_findings_def bitmap_finding_def
        structural_zone_def log_zone_def one_entry report_def entry_state_def entry_offset_mb_def
        PAYLOAD_BLOCK_FULLY_PRESENT_def PAYLOAD_BLOCK_PARTIALLY_PRESENT_def MB_def Let_def mul_u_def
        BAT_RESERVED_BITS_MASK_def saturating_add_def)
  have clean: "check_bat_inner one_entry_image (Some one_entry_regions) = Ok []"
    using scan one_entry
    by (simp add: check_bat_inner_def bat_scan_entries_def bat_check_size_formula_def
        bat_check_coverage_def entry_overlaps_def saturating_add_def
        bat_entry_pos_def entry_beyond_def mul_u_def add_u_def entry_at_def)
  have "unat (pr_bat_offset one_entry_regions) + unat (pr_bat_length one_entry_regions) \<le> length one_entry_image"
    "length one_entry_image < 2 ^ 63" "0 < unat (pr_bat_length one_entry_regions) div 8"
    by (simp_all add: one_entry)
  from clean_table_places_blocks_apart [OF clean this one_entry(3)] show ?thesis
    using clean one_entry(3) by blast
qed

subsection \<open>Overlapping metadata items\<close>

definition items_apart :: "nat \<times> nat \<Rightarrow> nat \<times> nat \<Rightarrow> bool" where
  "items_apart a b \<longleftrightarrow> snd a \<le> fst b \<or> snd b \<le> fst a"

lemma item_overlaps_Nil_iff:
  "item_overlaps ranges = [] \<longleftrightarrow>
   (\<forall>(a, b) \<in> set (neighbours (sort_key fst ranges)). \<not> (fst b < snd a \<and> fst a < snd b))"
  by (auto simp: item_overlaps_def split: prod.splits)

lemma neighbours_set: "(a, b) \<in> set (neighbours xs) \<Longrightarrow> a \<in> set xs \<and> b \<in> set xs"
  by (induction xs rule: neighbours.induct) auto

lemma neighbours_sorted: "sorted (map f xs) \<Longrightarrow> (a, b) \<in> set (neighbours xs) \<Longrightarrow> f a \<le> f b"
  by (induction xs rule: neighbours.induct) auto

lemma neighbours_distinct: "distinct xs \<Longrightarrow> (a, b) \<in> set (neighbours xs) \<Longrightarrow> a \<noteq> b"
  by (induction xs rule: neighbours.induct) auto

lemma neighbours_chain:
  assumes "\<forall>a \<in> set xs. fst a < snd a" and "\<forall>(a, b) \<in> set (neighbours xs). snd a \<le> fst b"
  shows "sorted_wrt (\<lambda>a b. snd a \<le> fst b) (xs :: (nat \<times> nat) list)"
  using assms
proof (induction xs rule: neighbours.induct)
  case (1 x y zs)
  then have ih: "sorted_wrt (\<lambda>a b. snd a \<le> fst b) (y # zs)" and xy: "snd x \<le> fst y" by auto
  have "snd x \<le> fst z" if "z \<in> set zs" for z
    using ih xy that 1 by (auto intro: order_trans dest!: bspec)
  with ih xy show ?case by auto
qed simp_all

lemma chain_apart:
  assumes "sorted_wrt (\<lambda>a b. snd a \<le> fst b) (xs :: (nat \<times> nat) list)" and "\<forall>a \<in> set xs. fst a < snd a"
  shows "distinct xs \<and> (\<forall>a \<in> set xs. \<forall>b \<in> set xs. a \<noteq> b \<longrightarrow> items_apart a b)"
  using assms by (induction xs) (fastforce simp: items_apart_def)+

text \<open>C35: Among metadata items that are not empty, the check of neighbours in offset order finds an
  overlap whenever there is one anywhere: it is silent exactly when the items are pairwise apart.\<close>

theorem item_overlap_check_exact:
  assumes "\<forall>a \<in> set ranges. fst a < snd a"
  shows "item_overlaps ranges = [] \<longleftrightarrow>
    distinct ranges \<and> (\<forall>a \<in> set ranges. \<forall>b \<in> set ranges. a \<noteq> b \<longrightarrow> items_apart a b)"
    (is "_ \<longleftrightarrow> ?apart ranges")
proof -
  let ?s = "sort_key fst ranges"
  have proper: "\<forall>a \<in> set ?s. fst a < snd a" using assms by simp
  have same: "?apart ranges \<longleftrightarrow> ?apart ?s"
    using mset_eq_imp_distinct_iff [of ?s ranges] by simp
  have "item_overlaps ranges = [] \<longleftrightarrow> (\<forall>(a, b) \<in> set (neighbours ?s). snd a \<le> fst b)"
  proof -
    have step: "\<not> (fst b < snd a \<and> fst a < snd b) \<longleftrightarrow> snd a \<le> fst b" if "(a, b) \<in> set (neighbours ?s)" for a b
      using neighbours_set [OF that] neighbours_sorted [OF _ that, of fst] proper by fastforce
    show ?thesis
      unfolding item_overlaps_Nil_iff case_prod_beta
      by (intro ball_cong refl step) simp
  qed
  also have "\<dots> \<longleftrightarrow> ?apart ?s"
  proof
    assume "\<forall>(a, b) \<in> set (neighbours ?s). snd a \<le> fst b"
    then show "?apart ?s" using chain_apart [OF neighbours_chain [OF proper] proper] by blast
  next
    assume ap: "?apart ?s"
    have "snd a \<le> fst b" if n: "(a, b) \<in> set (neighbours ?s)" for a b
    proof -
      have "items_apart a b"
        using ap neighbours_set [OF n] neighbours_distinct [OF _ n] by blast
      moreover have "fst a \<le> fst b" by (rule neighbours_sorted [OF _ n]) simp
      moreover have "fst b < snd b" using neighbours_set [OF n] proper by blast
      ultimately show ?thesis unfolding items_apart_def by linarith
    qed
    then show "\<forall>(a, b) \<in> set (neighbours ?s). snd a \<le> fst b" by blast
  qed
  finally show ?thesis using same by blast
qed

theorem item_overlap_check_exact_witness:
  "item_overlaps [(8, 12), (0, 10)] \<noteq> []"
proof -
  have "\<not> items_apart (8, 12) (0, 10)" by (simp add: items_apart_def)
  then show ?thesis using item_overlap_check_exact [of "[(8, 12), (0, 10)]"] by auto
qed

text \<open>Every item followed by an empty one at its offset.\<close>

definition shadowed :: "(nat \<times> nat) list \<Rightarrow> (nat \<times> nat) list" where
  "shadowed ranges = concat (map (\<lambda>a. [a, (fst a, fst a)]) ranges)"

lemma shadowed_simps [simp]:
  "shadowed [] = []" "shadowed (a # ranges) = a # (fst a, fst a) # shadowed ranges"
  by (simp_all add: shadowed_def)





subsection \<open>A chunk ratio of zero\<close>

lemma size_formula_panics:
  assumes "pr_block_size r = Some bs" and "bs \<noteq> 0" and "pr_vdisk_size r = Some vds"
    and "pr_chunk_ratio r = Some 0"
  shows "bat_check_size_formula r n = Panic"
  using assms by (simp add: bat_check_size_formula_def div_ceil_def unat_eq_0 Let_def)

lemma zero_ratio_panics:
  assumes "unat (pr_bat_offset r) + unat (pr_bat_length r) \<le> length d" and "length d < 2 ^ 63"
    and "8 \<le> unat (pr_bat_length r)"
    and "pr_block_size r = Some bs" and "bs \<noteq> 0" and "pr_vdisk_size r = Some vds"
    and "pr_chunk_ratio r = Some 0"
  shows "check_bat_inner d (Some r) = Panic"
proof -
  have "saturating_add (unat (pr_bat_offset r)) (unat (pr_bat_length r)) \<le> length d"
    using assms(1,2) by (subst saturating_add_exact) simp_all
  then show ?thesis
    using assms(3) size_formula_panics [OF assms(4-7)]
    by (simp add: check_bat_inner_def Let_def)
qed

subsection \<open>The values of the metadata\<close>

definition value_finding :: "anomaly \<Rightarrow> bool" where
  "value_finding a \<longleftrightarrow>
     variant a \<in> variant ` {BlockSizeInvalid 0 [], LogicalSectorSizeInvalid 0, VirtualDiskSizeInvalid 0 []}"

lemma value_finding_simps [simp]:
  "value_finding (BlockSizeInvalid b1 c1)" "value_finding (LogicalSectorSizeInvalid b2)"
  "value_finding (VirtualDiskSizeInvalid b3 c3)"
  "\<not> value_finding DifferencingDisk" "\<not> value_finding MissingParentLocator"
  "\<not> value_finding LeaveBlocksAllocatedSet" "\<not> value_finding (PhysicalSectorSizeInvalid b4)"
  "\<not> value_finding VirtualDiskIdAllZeros" "\<not> value_finding (MetadataItemBeyondRegion b5 c5 d5)"
  "\<not> value_finding (MetadataItemsOverlap b6 c6 d6)" "\<not> value_finding (anomaly.MetadataMissing b7)"
  by (simp_all add: value_finding_def)

lemma no_value_report [simp]: "list_ex value_finding (report c a) \<longleftrightarrow> c \<and> value_finding a"
  by (simp add: report_def)

lemma items_no_value: "\<not> list_ex value_finding (check_items d r)"
proof -
  have "\<not> list_ex value_finding (fst (item_ranges_loop rg n is))" for rg n "is"
    by (induction "is") (auto simp: Let_def split: prod.splits)
  then have "\<not> list_ex value_finding x" if "item_ranges_loop rg n is = (x, y)" for rg n "is" x y
    using that by (metis fst_conv)
  moreover have "\<not> list_ex value_finding (item_overlaps ranges)" for ranges
    by (auto simp: item_overlaps_def list_ex_iff split: prod.splits)
  ultimately show ?thesis unfolding check_items_def Let_def by (auto split: prod.splits)
qed

lemma block_size_value:
  "\<not> list_ex value_finding (check_block_size (Some bs)) \<longleftrightarrow>
   \<not> (bs < BLOCK_SIZE_MIN \<or> bs > BLOCK_SIZE_MAX) \<and> count_ones bs = 1"
proof -
  have "0 < BLOCK_SIZE_MIN" by (simp add: BLOCK_SIZE_MIN_def)
  then show ?thesis by (auto simp: check_block_size_def)
qed

lemma vdisk_size_value:
  assumes "ss = 512 \<or> ss = 4096"
  shows "\<not> list_ex value_finding (check_vdisk_size (Some v) (Some ss)) \<longleftrightarrow>
    v \<noteq> 0 \<and> \<not> v > VIRTUAL_DISK_SIZE_MAX \<and> unat v mod unat ss = 0"
  using assms by (auto simp: check_vdisk_size_def Let_def)

text \<open>C20: On the values of the metadata the analyser and the reader agree: the audit of a region
  with the three required values reports one of them as invalid exactly when the reader refuses
  to open a disk with these values.\<close>

theorem metadata_audit_agrees_with_reader:
  assumes "pr_block_size r = Some (block_size m)" and "pr_logical_ss r = Some (logical_sector_size m)"
    and "pr_vdisk_size r = Some (virtual_disk_size m)"
  shows "list_ex value_finding (check_metadata_inner d (Some r)) \<longleftrightarrow> validate m \<noteq> Ok ()"
proof -
  have "\<not> list_ex value_finding (check_metadata_inner d (Some r)) \<longleftrightarrow>
      \<not> list_ex value_finding (check_block_size (Some (block_size m)))
      \<and> (logical_sector_size m = 512 \<or> logical_sector_size m = 4096)
      \<and> \<not> list_ex value_finding (check_vdisk_size (Some (virtual_disk_size m)) (Some (logical_sector_size m)))"
    using items_no_value [of d r]
    by (auto simp: check_metadata_inner_def assms split: option.splits)
  also have "\<dots> \<longleftrightarrow> validate m = Ok ()"
    unfolding block_size_value
    using vdisk_size_value [of "logical_sector_size m" "virtual_disk_size m"]
    by (auto simp: validate_def VALID_SECTOR_SIZES_def and_then_Ok_iff)
  finally show ?thesis by blast
qed

theorem metadata_audit_agrees_with_reader_witness:
  "list_ex value_finding (check_metadata_inner []
     (Some (one_entry_regions\<lparr> pr_block_size := Some 3, pr_logical_ss := Some 512,
       pr_vdisk_size := Some 4096 \<rparr>)))"
  by (subst metadata_audit_agrees_with_reader
      [of _ "\<lparr> block_size = 3, has_parent = False, virtual_disk_size = 4096, logical_sector_size = 512 \<rparr>"])
    (simp_all add: validate_def BLOCK_SIZE_MIN_def)

subsection \<open>The analysis does not panic on validated values\<close>

lemma parsed_chunk_ratio:
  assumes "parse_regions d = Some r"
  shows "pr_chunk_ratio r = audit_chunk_ratio (pr_block_size r) (pr_logical_ss r)"
proof -
  have "pr_chunk_ratio r = audit_chunk_ratio (pr_block_size r) (pr_logical_ss r)"
    if "try_parse_regions d off = Some r" for off
    using that by (auto simp: try_parse_regions_def Let_def bind_eq_Some_conv
        split: if_splits option.splits prod.splits)
  then show ?thesis using assms by (auto simp: parse_regions_def split: option.splits)
qed

definition sane_values :: "parsed_regions \<Rightarrow> bool" where
  "sane_values r \<longleftrightarrow>
     (\<forall>bs. pr_block_size r = Some bs \<longrightarrow> 2 ^ 20 \<le> unat bs \<and> unat bs \<le> 2 ^ 28)
     \<and> (\<forall>ss. pr_logical_ss r = Some ss \<longrightarrow> unat ss = 512 \<or> unat ss = 4096)
     \<and> (\<forall>v. pr_vdisk_size r = Some v \<longrightarrow> unat v \<le> 2 ^ 46)"

lemma sane_ratio:
  assumes "sane_values r" and "audit_chunk_ratio (pr_block_size r) (pr_logical_ss r) = Some cr"
  shows "1 \<le> cr \<and> cr \<le> 2 ^ 15"
proof -
  obtain bs where bs: "pr_block_size r = Some bs"
    using assms(2) by (cases "pr_block_size r") (auto simp: audit_chunk_ratio_def)
  define b where "b = unat bs"
  have b: "2 ^ 20 \<le> b" "b \<le> 2 ^ 28" using assms(1) bs by (auto simp: sane_values_def b_def)
  obtain s where s: "s = 512 \<or> s = 4096" and cr: "cr = 2 ^ 23 * s div b"
  proof (cases "pr_logical_ss r")
    case None
    then show thesis
      using that [of 512] assms(2) bs by (simp add: audit_chunk_ratio_def b_def split: if_splits)
  next
    case (Some ss)
    then show thesis
      using that [of "unat ss"] assms bs
      by (simp add: audit_chunk_ratio_def sane_values_def b_def split: if_splits)
  qed
  have n: "2 ^ 23 * s \<le> (2::nat) ^ 35" "(2::nat) ^ 32 \<le> 2 ^ 23 * s" using s by auto
  have "2 ^ 23 * s div b \<le> 2 ^ 35 div b" using n(1) by (rule div_le_mono)
  also have "\<dots> \<le> 2 ^ 35 div 2 ^ 20" using b(1) by (intro div_le_mono2) simp_all
  finally have "2 ^ 23 * s div b \<le> 2 ^ 15" by simp
  moreover have "0 < 2 ^ 23 * s div b" using b n(2) by (simp add: div_greater_zero_iff)
  ultimately show ?thesis unfolding cr by simp
qed

lemma div_ceil_bound: "div_ceil a b = Ok c \<Longrightarrow> c \<le> a"
proof -
  assume "div_ceil a b = Ok c"
  then have b: "b \<noteq> 0" and c: "c = (a + b - 1) div b" by (auto simp: div_ceil_def split: if_splits)
  show "c \<le> a"
  proof (cases a)
    case (Suc k)
    have "(a + b - 1) div b = k div b + 1" using b Suc by (simp add: div_add_self2)
    also have "\<dots> \<le> a" using Suc by (simp add: div_le_dividend)
    finally show ?thesis using c by simp
  qed (use b c in simp)
qed

lemma formula_total:
  assumes "sane_values r" and "pr_chunk_ratio r = audit_chunk_ratio (pr_block_size r) (pr_logical_ss r)"
  shows "bat_check_size_formula r n \<noteq> Panic"
proof -
  have "bat_check_size_formula r n \<noteq> Panic"
    if v: "pr_block_size r = Some bs" "pr_vdisk_size r = Some vds" "pr_chunk_ratio r = Some cr" "bs \<noteq> 0"
    for bs vds cr
  proof -
    have "audit_chunk_ratio (pr_block_size r) (pr_logical_ss r) = Some cr"
      using assms(2) v(3) by simp
    from sane_ratio [OF assms(1) this] have cr: "cr \<noteq> 0" by linarith
    have bs: "unat bs \<noteq> 0" using v(4) by (simp add: unat_eq_0)
    have vd: "unat vds \<le> 2 ^ 46" using assms(1) v(2) by (simp add: sane_values_def)
    obtain x where x: "div_ceil (unat vds) (unat bs) = Ok x" using bs by (simp add: div_ceil_def)
    then have "x \<le> 2 ^ 46" using div_ceil_bound vd by fastforce
    obtain y where y: "div_ceil x cr = Ok y" using cr by (simp add: div_ceil_def)
    then have "y \<le> 2 ^ 46" using div_ceil_bound \<open>x \<le> 2 ^ 46\<close> by fastforce
    define t where "t = (x + y) * 8"
    have t: "t \<le> 2 ^ 50" unfolding t_def using \<open>x \<le> 2 ^ 46\<close> \<open>y \<le> 2 ^ 46\<close> by simp
    have "MB - t mod MB \<le> 2 ^ 20" by (simp add: MB_def)
    then have "next_multiple_of t MB \<noteq> Panic"
      using t by (auto simp: next_multiple_of_def and_then_Panic_iff MB_def)
    moreover have "add_u x y = Ok (x + y)" "mul_u (x + y) 8 = Ok t"
      using t unfolding t_def by (auto simp: \<open>x \<le> 2 ^ 46\<close>)
    ultimately show ?thesis
      using v x y by (auto simp: bat_check_size_formula_def and_then_Panic_iff Let_def)
  qed
  then show ?thesis
    by (cases "pr_block_size r"; cases "pr_vdisk_size r"; cases "pr_chunk_ratio r")
      (auto simp: bat_check_size_formula_def)
qed

lemma bitmap_slot_total: "pr_chunk_ratio r = Some cr \<Longrightarrow> cr \<le> 2 ^ 15 \<Longrightarrow> is_bitmap_slot r i \<noteq> Panic"
  by (auto simp: is_bitmap_slot_def and_then_Panic_iff)

lemma entry_pos_total:
  assumes "unat off + i * 8 + 8 \<le> length d" and "length d < 2 ^ 63"
  shows "bat_entry_pos off i = Ok (unat off + i * 8)"
    and "entry_beyond d (unat off + i * 8) = Ok False"
  using assms by auto

text \<open>The bounds under which the arithmetic of the audit of the table stays in range.\<close>

definition table_in :: "bytes \<Rightarrow> parsed_regions \<Rightarrow> bool" where
  "table_in d r \<longleftrightarrow>
     unat (pr_bat_offset r) + unat (pr_bat_length r) \<le> length d \<and> length d < 2 ^ 63"

definition ratio_ok :: "parsed_regions \<Rightarrow> bool" where
  "ratio_ok r \<longleftrightarrow> (\<forall>cr. pr_chunk_ratio r = Some cr \<longrightarrow> 1 \<le> cr \<and> cr \<le> 2 ^ 15)"

lemma ratio_okD: "ratio_ok r \<Longrightarrow> pr_chunk_ratio r = Some cr \<Longrightarrow> 1 \<le> cr \<and> cr \<le> 2 ^ 15"
  by (simp add: ratio_ok_def)

lemma table_entry_total:
  assumes "table_in d r" and "i < unat (pr_bat_length r) div 8"
  shows "bat_entry_pos (pr_bat_offset r) i = Ok (unat (pr_bat_offset r) + i * 8)"
    and "entry_beyond d (unat (pr_bat_offset r) + i * 8) = Ok False"
proof -
  have "i * 8 + 8 \<le> unat (pr_bat_length r)" using assms(2) by auto
  then have "unat (pr_bat_offset r) + i * 8 + 8 \<le> length d"
    using assms(1) unfolding table_in_def by linarith
  from entry_pos_total [OF this] show "bat_entry_pos (pr_bat_offset r) i = Ok (unat (pr_bat_offset r) + i * 8)"
    "entry_beyond d (unat (pr_bat_offset r) + i * 8) = Ok False"
    using assms(1) by (simp_all add: table_in_def)
qed

lemma entry_ops_Panic [simp]:
  "bat_entry_pos off i = Panic \<longleftrightarrow> 2 ^ 64 \<le> unat off + i * 8"
  "entry_beyond d ep = Panic \<longleftrightarrow> 2 ^ 64 \<le> ep + 8"
  by (auto simp: bat_entry_pos_def entry_beyond_def and_then_Panic_iff)

lemma offset_eval:
  "mul_u (entry_offset_mb raw) MB = Ok (entry_offset_mb raw * MB)"
  "mul_u (entry_offset_mb raw) 0x00100000 = Ok (entry_offset_mb raw * 0x100000)"
proof -
  have "entry_offset_mb raw * 0x100000 \<le> unat raw"
    by (simp add: entry_offset_mb_def unat_drop_bit_div)
  then have "entry_offset_mb raw * 0x100000 < 2 ^ 64" using unat_u64_bound [of raw] by simp
  then show "mul_u (entry_offset_mb raw) MB = Ok (entry_offset_mb raw * MB)"
    "mul_u (entry_offset_mb raw) 0x00100000 = Ok (entry_offset_mb raw * 0x100000)"
    by (simp_all add: MB_def)
qed

lemma slot_total: "ratio_ok r \<Longrightarrow> is_bitmap_slot r i \<noteq> Panic"
  using bitmap_slot_total ratio_okD
  by (cases "pr_chunk_ratio r") (auto simp: is_bitmap_slot_def)

lemma bitmap_finding_total:
  assumes "ratio_ok r" and "table_in d r" and "i < unat (pr_bat_length r) div 8"
  shows "bitmap_finding d r (unat (pr_bat_length r) div 8) i \<noteq> Panic"
proof (cases "pr_chunk_ratio r")
  case (Some cr)
  let ?n = "unat (pr_bat_length r) div 8"
  have cr: "1 \<le> cr" "cr \<le> 2 ^ 15" using ratio_okD [OF assms(1) Some] by auto
  have "?n < 2 ^ 32" using unat_u32_bound [of "pr_bat_length r"] by simp
  then have i: "i < 2 ^ 32" using assms(3) by simp
  define p where "p = cr + 1"
  define idx where "idx = i div p * p + cr"
  have p: "add_u cr 1 = Ok p" "p \<noteq> 0" using cr by (simp_all add: p_def)
  have range: "m < 2 ^ 64" "m + cr < 2 ^ 64" if "m \<le> i" for m
    using that i cr by simp_all
  note b = range [OF div_times_less_eq_dividend [of i p]]
  from b have idx: "mul_u (i div p) p = Ok (i div p * p)" "add_u (i div p * p) cr = Ok idx"
    by (simp_all add: idx_def del: div_mult_self1_is_m)
  have dv: "div_u i p = Ok (i div p)" using p(2) by simp
  have "unat (pr_bat_offset r) + idx * 8 + 8 < 2 ^ 64" if "idx < ?n"
    using table_entry_total [OF assms(2) that] by simp
  then show ?thesis
    unfolding bitmap_finding_def Some option.case p(1) and_then.simps dv idx
    by (auto simp: and_then_Panic_iff)
qed (simp add: bitmap_finding_def)

lemma scan_entry_total:
  assumes "ratio_ok r" and "table_in d r" and "i < unat (pr_bat_length r) div 8"
  shows "scan_entry d r (unat (pr_bat_length r) div 8) i raw \<noteq> Panic"
  unfolding scan_entry_def Let_def offset_eval
  using slot_total [OF assms(1)] bitmap_finding_total [OF assms]
  by (auto simp: and_then_Panic_iff)

lemma scan_loop_total:
  assumes "ratio_ok r" and "table_in d r" and "\<forall>i \<in> set is. i < unat (pr_bat_length r) div 8"
  shows "scan_loop d r (unat (pr_bat_length r) div 8) is \<noteq> Panic"
  using assms(3)
proof (induction "is")
  case (Cons i "is")
  then have i: "i < unat (pr_bat_length r) div 8" by simp
  show ?case
    using Cons scan_entry_total [OF assms(1,2) i] table_entry_total [OF assms(2) i]
    by (auto simp: and_then_Panic_iff)
qed simp

lemma scan_loop_present:
  "scan_loop d r n is = Ok (issues, present) \<Longrightarrow> (off, i) \<in> set present \<Longrightarrow> off * MB < length d"
proof (induction "is" arbitrary: issues present)
  case (Cons j "is")
  have one: "off * MB < length d"
    if "scan_entry d r n k raw = Ok (x, p)" "(off, i) \<in> set p" for k raw x p
    using that by (auto simp: scan_entry_def and_then_Ok_iff Let_def split: if_splits)
  show ?case
    using Cons.prems Cons.IH one by (fastforce simp: and_then_Ok_iff split: if_splits)
qed simp

lemma coverage_total:
  assumes "sane_values r" and "ratio_ok r" and "length d < 2 ^ 63"
    and "\<forall>(off, i) \<in> set present. off * MB < length d"
  shows "bat_check_coverage r present (unat (pr_bat_length r) div 8) \<noteq> Panic"
proof -
  let ?n = "unat (pr_bat_length r) div 8"
  have under: "and_then (add_u (Max (fst ` set present)) 1) (\<lambda>next_mb.
      and_then (mul_u next_mb MB) (\<lambda>bat_coverage. Ok (f bat_coverage))) \<noteq> (Panic :: anomaly list checked)"
    if "present \<noteq> []" for f :: "nat \<Rightarrow> anomaly list"
  proof -
    have "Max (fst ` set present) \<in> fst ` set present" using that by (intro Max_in) auto
    then have m: "Max (fst ` set present) * MB < 2 ^ 63" using assms(3,4) by fastforce
    then have "Max (fst ` set present) + 1 < 2 ^ 64" "(Max (fst ` set present) + 1) * MB < 2 ^ 64"
      by (simp_all add: MB_def)
    then show ?thesis by (simp add: outcome_simps)
  qed
  have over: "and_then (mul_u ?n cr) (\<lambda>product. and_then (add_u cr 1) (\<lambda>period.
      and_then (div_u product period) (\<lambda>blocks. and_then (mul_u blocks (unat bs)) (\<lambda>c. Ok (f c)))))
      \<noteq> (Panic :: anomaly list checked)"
    if "pr_chunk_ratio r = Some cr" "pr_block_size r = Some bs" for cr bs and f :: "nat \<Rightarrow> anomaly list"
  proof -
    have cr: "cr \<le> 2 ^ 15" using ratio_okD [OF assms(2) that(1)] by simp
    have b: "unat bs \<le> 2 ^ 28" using assms(1) that(2) by (simp add: sane_values_def)
    have n: "?n \<le> 2 ^ 29" using unat_u32_bound [of "pr_bat_length r"] by simp
    have nc: "?n * cr \<le> 2 ^ 29 * 2 ^ 15" using n cr by (rule mult_le_mono)
    have "?n * cr div (cr + 1) \<le> ?n"
      by (metis div_le_mono div_mult_self_is_m le_add1 mult.commute mult_le_mono2 zero_less_Suc Suc_eq_plus1)
    then have "?n * cr div (cr + 1) * unat bs \<le> 2 ^ 29 * 2 ^ 28" using n b by (intro mult_le_mono) simp_all
    then show ?thesis using nc cr by (simp add: outcome_simps)
  qed
  show ?thesis
  proof (cases "pr_block_size r")
    case (Some bs)
    note bs = Some
    show ?thesis
    proof (cases "pr_vdisk_size r")
      case (Some vds)
      have "(if present = [] then Ok [] else and_then (add_u (Max (fst ` set present)) 1) (\<lambda>next_mb.
          and_then (mul_u next_mb MB) (\<lambda>c. Ok (f c)))) \<noteq> (Panic :: anomaly list checked)" for f
        using under [of f] by (cases "present = []") (simp_all only: if_P if_not_P outcome.distinct not_False_eq_True)
      moreover have "(case pr_chunk_ratio r of None \<Rightarrow> Ok [] | Some cr \<Rightarrow> and_then (mul_u ?n cr) (\<lambda>product.
          and_then (add_u cr 1) (\<lambda>period. and_then (div_u product period) (\<lambda>blocks.
          and_then (mul_u blocks (unat bs)) (\<lambda>c. Ok (f c)))))) \<noteq> (Panic :: anomaly list checked)" for f
        using over [OF _ bs, of _ f] by (cases "pr_chunk_ratio r") (simp_all only: option.case outcome.distinct not_False_eq_True)
      ultimately show ?thesis
        unfolding bat_check_coverage_def bs Some option.case prod.case
        by (cases "bs = 0") (simp, (simp only: if_False, intro and_then_not_PanicI, assumption+, simp))
    qed (simp add: bat_check_coverage_def bs)
  qed (simp add: bat_check_coverage_def)
qed

subsection \<open>The second GUID of the disk size\<close>

text \<open>The reader takes the size of the disk from an item with either GUID, the analyser only from
  the first: the audit of such an image reports a missing size that the reader has.\<close>

lemma audit_ignores_compat_disk_size:
  "audit_item d GUID_VIRTUAL_DISK_SIZE_QEMU_COMPAT pos s = s"
  "8 \<le> length item \<Longrightarrow>
   mi_virtual_disk_size (apply_item GUID_VIRTUAL_DISK_SIZE_QEMU_COMPAT item acc) = Some (le_u64 item 0)"
  by (simp_all add: audit_item_def apply_item_def GUID_FILE_PARAMETERS_def GUID_VIRTUAL_DISK_SIZE_def
      GUID_LOGICAL_SECTOR_SIZE_def GUID_PHYSICAL_SECTOR_SIZE_def GUID_VIRTUAL_DISK_ID_def
      GUID_PARENT_LOCATOR_def GUID_VIRTUAL_DISK_SIZE_QEMU_COMPAT_def)

end
