(* ===== verification/Totality.thy ===== *)
theory Totality
  imports Coverage Healing
begin

text \<open>
  When the analysis returns and when it panics: the arithmetic of the checks of
  \<open>forensic/src/integrity.rs\<close> on values that nothing has validated.
\<close>

lemma trailing_loop_total:
  assumes "table_in d r" and "\<forall>i \<in> set is. i < unat (pr_bat_length r) div 8"
  shows "trailing_loop d r bs is m \<noteq> Panic"
  using assms(2)
proof (induction "is" arbitrary: m)
  case (Cons i "is")
  then have i: "i < unat (pr_bat_length r) div 8" by simp
  have small: "unat (pr_bat_offset r) + i * 8 + 8 < 2 ^ 64"
    using table_entry_total [OF assms(1) i] by simp
  show ?case
    unfolding trailing_loop.simps offset_eval and_then.simps Let_def
    using Cons small by (auto simp: and_then_Panic_iff)
qed simp

lemma trailing_total:
  assumes "table_in d r"
  shows "check_trailing_data_inner d (Some r) \<noteq> Panic"
proof (cases "pr_block_size r")
  case (Some bs)
  have "trailing_loop d r (unat bs) [0..<unat (pr_bat_length r) div 8] 0 \<noteq> Panic"
    by (rule trailing_loop_total [OF assms]) simp
  then show ?thesis
    using Some by (auto simp: check_trailing_data_inner_def and_then_Panic_iff Let_def)
qed (simp add: check_trailing_data_inner_def)

lemma check_bat_total:
  assumes "sane_values r" and "ratio_ok r" and "table_in d r"
    and "pr_chunk_ratio r = audit_chunk_ratio (pr_block_size r) (pr_logical_ss r)"
  shows "check_bat_inner d (Some r) \<noteq> Panic"
proof -
  let ?n = "unat (pr_bat_length r) div 8"
  have scan: "scan_loop d r ?n [0..<?n] \<noteq> Panic"
    by (rule scan_loop_total [OF assms(2,3)]) simp
  have len: "length d < 2 ^ 63" using assms(3) by (simp add: table_in_def)
  have cov: "bat_check_coverage r (sort_key fst present) ?n \<noteq> Panic"
    if "scan_loop d r ?n [0..<?n] = Ok (issues, present)" for issues present
    using scan_loop_present [OF that] by (intro coverage_total [OF assms(1,2) len]) auto
  show ?thesis
    using scan cov formula_total [OF assms(1,4), of ?n]
    by (auto simp: check_bat_inner_def bat_scan_entries_def and_then_Panic_iff and_then_Ok_iff Let_def)
qed

subsection \<open>No check returns an error\<close>

lemma entry_ops_no_Err [simp]: "bat_entry_pos off i \<noteq> Err ()" "entry_beyond d ep \<noteq> Err ()"
  by (auto simp: bat_entry_pos_def entry_beyond_def and_then_Err_iff)

lemma bat_no_Err: "check_bat_inner d regions \<noteq> Err ()"
proof -
  have formula: "bat_check_size_formula r n \<noteq> Err ()" for r n
    by (auto simp: bat_check_size_formula_def div_ceil_def next_multiple_of_def and_then_Err_iff Let_def
        split: option.split)
  have slot: "is_bitmap_slot r i \<noteq> Err ()" for r i
    by (auto simp: is_bitmap_slot_def and_then_Err_iff split: option.split)
  have bitmap: "bitmap_finding d r n i \<noteq> Err ()" for r n i
    by (auto simp: bitmap_finding_def and_then_Err_iff split: option.split)
  have entry: "scan_entry d r n i raw \<noteq> Err ()" for r n i raw
    by (auto simp: scan_entry_def and_then_Err_iff Let_def slot bitmap)
  have "scan_loop d r n is \<noteq> Err ()" for r n "is"
    by (induction "is") (auto simp: and_then_Err_iff entry)
  moreover have "bat_check_coverage r p n \<noteq> Err ()" for r p n
    by (auto simp: bat_check_coverage_def and_then_Err_iff split: option.split)
  ultimately show ?thesis
    by (auto simp: check_bat_inner_def bat_scan_entries_def and_then_Err_iff formula Let_def
        split: option.split)
qed

lemma trailing_no_Err: "check_trailing_data_inner d regions \<noteq> Err ()"
proof -
  have "trailing_loop d r bs is m \<noteq> Err ()" for r bs "is" m
    by (induction "is" arbitrary: m) (auto simp: and_then_Err_iff Let_def)
  then show ?thesis
    by (auto simp: check_trailing_data_inner_def and_then_Err_iff Let_def split: option.split)
qed

lemma analyse_returns:
  assumes "\<And>r. parse_regions d = Some r \<Longrightarrow>
      check_bat_inner d (Some r) \<noteq> Panic \<and> check_trailing_data_inner d (Some r) \<noteq> Panic"
  shows "\<exists>issues. analyse d = Ok issues"
proof -
  have "check_bat_inner d (parse_regions d) \<noteq> Panic \<and> check_trailing_data_inner d (parse_regions d) \<noteq> Panic"
    using assms by (cases "parse_regions d") (simp_all add: check_bat_inner_def check_trailing_data_inner_def)
  then obtain bats trailing where "check_bat_inner d (parse_regions d) = Ok bats"
    "check_trailing_data_inner d (parse_regions d) = Ok trailing"
    using bat_no_Err [of d "parse_regions d"] trailing_no_Err [of d "parse_regions d"]
    by (cases "check_bat_inner d (parse_regions d)"; cases "check_trailing_data_inner d (parse_regions d)") auto
  then show ?thesis unfolding analyse_def Let_def by simp
qed

subsection \<open>Sane values\<close>

lemma values_sane:
  assumes "\<not> list_ex value_finding (check_metadata_inner d (Some r))"
  shows "sane_values r"
proof -
  have b: "2 ^ 20 \<le> unat bs \<and> unat bs \<le> 2 ^ 28" if "pr_block_size r = Some bs" for bs
  proof -
    have "\<not> list_ex value_finding (check_block_size (Some bs))"
      using assms that by (simp add: check_metadata_inner_def)
    then show ?thesis unfolding block_size_value
      by (auto simp: BLOCK_SIZE_MIN_def BLOCK_SIZE_MAX_def word_less_nat_alt not_less)
  qed
  have s: "unat ss = 512 \<or> unat ss = 4096" if "pr_logical_ss r = Some ss" for ss
  proof -
    have "ss = 512 \<or> ss = 4096" using assms that by (auto simp: check_metadata_inner_def)
    then show ?thesis by auto
  qed
  have v: "unat v \<le> 2 ^ 46" if "pr_vdisk_size r = Some v" for v
  proof -
    have "\<not> v > VIRTUAL_DISK_SIZE_MAX"
      using assms that by (auto simp: check_metadata_inner_def check_vdisk_size_def Let_def split: if_splits)
    then show ?thesis by (simp add: VIRTUAL_DISK_SIZE_MAX_def word_less_nat_alt not_less)
  qed
  show ?thesis using b s v by (auto simp: sane_values_def)
qed

text \<open>C10: The analysis returns on every image whose table lies in the image and whose metadata it
  finds no invalid value in: under these bounds no division by zero and no overflow can happen in
  the checks that compute with these values.\<close>

theorem analysis_total:
  assumes "\<And>r. parse_regions d = Some r \<Longrightarrow>
      table_in d r \<and> \<not> list_ex value_finding (check_metadata_inner d (Some r))"
  shows "\<exists>issues. analyse d = Ok issues"
proof (rule analyse_returns)
  fix r assume r: "parse_regions d = Some r"
  from assms [OF r] have t: "table_in d r" and v: "sane_values r" using values_sane by auto
  have c: "pr_chunk_ratio r = audit_chunk_ratio (pr_block_size r) (pr_logical_ss r)"
    using parsed_chunk_ratio [OF r] .
  then have "ratio_ok r" using sane_ratio [OF v] by (simp add: ratio_ok_def)
  then show "check_bat_inner d (Some r) \<noteq> Panic \<and> check_trailing_data_inner d (Some r) \<noteq> Panic"
    using check_bat_total [OF v _ t c] trailing_total [OF t] by blast
qed

lemma one_table_suffices:
  assumes "region_table_valid d REGION_TABLE1_OFFSET"
  shows "BothRegionTableCopiesInvalid \<notin> set (check_file_identifier_reserved d
    @ check_inter_region_gaps d @ check_headers d @ check_region_tables d)"
proof -
  have "BothRegionTableCopiesInvalid \<notin> set (gap_loop d gs)" for gs
    by (induction gs) (auto split: prod.splits)
  then have "BothRegionTableCopiesInvalid \<notin> set (check_inter_region_gaps d)"
    by (simp add: check_inter_region_gaps_def)
  moreover have "BothRegionTableCopiesInvalid \<notin> set (rt_pair_loop a b is)" for a b "is"
    by (induction "is") (auto simp: Let_def split: option.splits)
  moreover have "check_single_rt_crc d 1 = None" using assms by (simp add: audit_simps)
  then have "BothRegionTableCopiesInvalid \<notin> set (check_region_tables d)"
    using \<open>\<And>a b is. BothRegionTableCopiesInvalid \<notin> set (rt_pair_loop a b is)\<close>
    by (auto simp: check_region_tables_def check_region_table_pair_def Let_def dest: single_rt_Some single_rt_Some [OF sym]
        split: option.splits)
  moreover have "BothRegionTableCopiesInvalid \<notin> set (check_headers d)"
    by (auto simp: check_headers_def check_header_pair_def check_header_reserved_def
        check_active_header_def Let_def dest: single_header_Some single_header_Some [OF sym] split: option.splits)
  ultimately show ?thesis by (simp add: check_file_identifier_reserved_def Let_def)
qed

text \<open>C31: An unvalidated chunk ratio of zero makes the analysis, and with it the repair, panic: a
  sector size of one byte in an image that is otherwise in order is enough.\<close>

theorem zero_chunk_ratio_panics:
  assumes "check_file_magic d = []" and "region_table_valid d REGION_TABLE1_OFFSET"
    and "parse_regions d = Some r" and "table_in d r" and "8 \<le> unat (pr_bat_length r)"
    and "pr_block_size r = Some bs" and "2 ^ 23 < unat bs" and "pr_logical_ss r = Some 1"
    and "pr_vdisk_size r = Some vds"
  shows "analyse d = Panic \<and> attempt_repair d = Panic"
proof -
  have "pr_chunk_ratio r = Some 0"
    using parsed_chunk_ratio [OF assms(3)] assms(6-8) by (simp add: audit_chunk_ratio_def)
  moreover have "bs \<noteq> 0" using assms(7) by auto
  ultimately have "check_bat_inner d (parse_regions d) = Panic"
    using assms(3-6,9) zero_ratio_panics [of r d bs vds] by (simp add: table_in_def)
  moreover have "\<not> list_ex (\<lambda>a. a = BothRegionTableCopiesInvalid)
      (check_file_identifier_reserved d @ check_inter_region_gaps d @ check_headers d @ check_region_tables d)"
    using one_table_suffices [OF assms(2)] by (auto simp: list_ex_iff)
  ultimately have "analyse d = Panic" using assms(1) by (simp add: analyse_def Let_def)
  then show ?thesis by (simp add: attempt_repair_def)
qed

subsection \<open>The log\<close>

lemma dirty_log_reported:
  assumes "active_header_block d = Some b" and "r32 b 68 \<noteq> 0"
  shows "list_ex is_dirty_log (check_headers d)"
proof -
  have "\<exists>copy \<in> {1, 2}. check_single_header_crc d copy = None"
    using assms(1) by (auto simp: active_header_block_def Let_def split: if_splits)
  then have one: "\<not> (check_single_header_crc d 1 \<noteq> None \<and> check_single_header_crc d 2 \<noteq> None)" by auto
  have "list_ex is_dirty_log (check_active_header d b)"
    using assms(2) by (simp add: check_active_header_def Let_def is_dirty_log_def unat_gt_0)
  then show ?thesis
    using one assms(1) unfolding check_headers_def Let_def by auto
qed

text \<open>C22: The analyser and the reader agree on the log. When the analysis of an image with a usable
  header reports no dirty log, opening the image replays nothing: the bytes are read as they are,
  and the overlay over a backing is empty.\<close>

theorem no_dirty_log_no_replay:
  assumes "check_file_magic d = []" and "analyse d = Ok issues"
    and "\<not> list_ex is_dirty_log issues" and "parse_active_header d = Ok h"
  shows "apply_log d = Ok d \<and> build_overlay b h = Ok empty_overlay"
proof -
  obtain blk where blk: "active_header_block d = Some blk" "h = header_at blk 0"
    using assms(4) audited_header by (auto split: option.splits)
  have "\<not> list_ex is_dirty_log (check_headers d)"
    using analyse_reports(1) [OF assms(1,2)] assms(3) by (auto simp: list_ex_iff)
  then have "r32 blk 68 = 0" using dirty_log_reported [OF blk(1)] by blast
  then have "log_length h = 0" using blk(2) by (simp add: header_at_def)
  then show ?thesis using assms(4) by (simp add: apply_log_def build_overlay_def)
qed

end
