(* ===== verification/Volume.thy ===== *)
theory Volume
  imports Sample Totality
begin

text \<open>
  A complete image of 3 MiB: the structural area of \<open>Sample\<close>, a table of absent blocks at
  1 MiB and a metadata region at 2 MiB with the given block size, sector size and disk size.
\<close>

definition table_entry :: "bytes \<Rightarrow> u32 \<Rightarrow> u32 \<Rightarrow> bytes" where
  "table_entry guid off len = guid @ u32_to_le off @ u32_to_le len @ replicate 8 0"

definition meta_table :: bytes where
  "meta_table =
     METADATA_TABLE_SIGNATURE @ [0, 0, 3, 0] @ replicate 20 0
     @ table_entry GUID_FILE_PARAMETERS 0x10000 8
     @ table_entry GUID_LOGICAL_SECTOR_SIZE 0x10008 4
     @ table_entry GUID_VIRTUAL_DISK_SIZE 0x10010 8"

definition meta_values :: "u32 \<Rightarrow> u32 \<Rightarrow> u64 \<Rightarrow> bytes" where
  "meta_values bs ss v = u32_to_le bs @ replicate 4 0 @ u32_to_le ss @ replicate 4 0 @ u64_to_le v"

definition meta_region :: "u32 \<Rightarrow> u32 \<Rightarrow> u64 \<Rightarrow> bytes" where
  "meta_region bs ss v = meta_table @ replicate 65408 0 @ meta_values bs ss v @ replicate 983016 0"

definition full_image :: "u32 \<Rightarrow> u32 \<Rightarrow> u64 \<Rightarrow> bytes" where
  "full_image bs ss v = sound_image @ replicate 720896 0 @ replicate 0x100000 0 @ meta_region bs ss v"

lemma length_guids [simp]:
  "length GUID_FILE_PARAMETERS = 16" "length GUID_LOGICAL_SECTOR_SIZE = 16"
  "length GUID_VIRTUAL_DISK_SIZE = 16"
  by (simp_all add: GUID_FILE_PARAMETERS_def GUID_LOGICAL_SECTOR_SIZE_def GUID_VIRTUAL_DISK_SIZE_def)

lemma item_guids_differ:
  "GUID_LOGICAL_SECTOR_SIZE \<noteq> GUID_FILE_PARAMETERS" "GUID_VIRTUAL_DISK_SIZE \<noteq> GUID_FILE_PARAMETERS"
  "GUID_LOGICAL_SECTOR_SIZE \<noteq> GUID_VIRTUAL_DISK_SIZE"
  "GUID_LOGICAL_SECTOR_SIZE \<noteq> GUID_VIRTUAL_DISK_SIZE_QEMU_COMPAT"
  by (simp_all add: GUID_FILE_PARAMETERS_def GUID_LOGICAL_SECTOR_SIZE_def GUID_VIRTUAL_DISK_SIZE_def
      GUID_VIRTUAL_DISK_SIZE_QEMU_COMPAT_def)

lemma length_meta [simp]:
  "length (table_entry guid off len) = length guid + 16" "length meta_table = 128"
  "length (meta_values bs ss v) = 24" "length (meta_region bs ss v) = 0x100000"
  "length (full_image bs ss v) = 0x300000"
  by (simp_all add: table_entry_def meta_table_def meta_values_def meta_region_def full_image_def
      METADATA_TABLE_SIGNATURE_def AUDIT_MIN_SIZE_def)

text \<open>The accessors read a word where its bytes were put.\<close>

lemma word_of_window:
  "window d o1 4 = u32_to_le w \<Longrightarrow> o1 + 4 \<le> length d \<Longrightarrow> r32 d o1 = w"
  "window d o1 8 = u64_to_le v \<Longrightarrow> o1 + 8 \<le> length d \<Longrightarrow> r64 d o1 = v"
  by (simp_all add: le_u32_def le_u64_def u32_to_le_def u64_to_le_def le_nat_to_le
      mod_less [OF unat_u32_bound, simplified] mod_less [OF unat_u64_bound, simplified])

lemma meta_table_fields:
  "window meta_table 0 8 = METADATA_TABLE_SIGNATURE" "r16 meta_table 10 = 3"
  "window meta_table 32 16 = GUID_FILE_PARAMETERS" "r32 meta_table 48 = 0x10000" "r32 meta_table 52 = 8"
  "window meta_table 64 16 = GUID_LOGICAL_SECTOR_SIZE" "r32 meta_table 80 = 0x10008" "r32 meta_table 84 = 4"
  "window meta_table 96 16 = GUID_VIRTUAL_DISK_SIZE" "r32 meta_table 112 = 0x10010" "r32 meta_table 116 = 8"
proof -
  have sg: "length METADATA_TABLE_SIGNATURE = 8" by (simp add: METADATA_TABLE_SIGNATURE_def)
  note parts = meta_table_def table_entry_def window_def sg
  show "window meta_table 0 8 = METADATA_TABLE_SIGNATURE"
    "window meta_table 32 16 = GUID_FILE_PARAMETERS" "window meta_table 64 16 = GUID_LOGICAL_SECTOR_SIZE"
    "window meta_table 96 16 = GUID_VIRTUAL_DISK_SIZE"
    by (simp_all add: parts)
  have "window meta_table 10 2 = [3, 0]" by (simp add: parts)
  then show "r16 meta_table 10 = 3" by (simp add: le_u16_def)
  show "r32 meta_table 48 = 0x10000" "r32 meta_table 52 = 8" "r32 meta_table 80 = 0x10008"
    "r32 meta_table 84 = 4" "r32 meta_table 112 = 0x10010" "r32 meta_table 116 = 8"
    by (rule word_of_window; simp add: parts)+
qed

lemma meta_values_fields:
  "r32 (meta_values bs ss v) 0 = bs" "r32 (meta_values bs ss v) 4 = 0"
  "r32 (meta_values bs ss v) 8 = ss" "r64 (meta_values bs ss v) 16 = v"
proof -
  note parts = meta_values_def window_def
  show "r32 (meta_values bs ss v) 0 = bs" "r32 (meta_values bs ss v) 8 = ss"
    "r64 (meta_values bs ss v) 16 = v"
    by (rule word_of_window; simp add: parts)+
  have "window (meta_values bs ss v) 4 4 = replicate 4 0" by (simp add: parts)
  then show "r32 (meta_values bs ss v) 4 = 0" by (simp add: le_u32_def)
qed

subsection \<open>Reading through the layers\<close>

text \<open>A field of a part is read in the whole at the offset of the part.\<close>

lemma read_part:
  assumes "k + n \<le> length b"
  shows "get_or_zero (a @ b @ c) (length a + k) n = get_or_zero b k n"
  using assms by (simp add: get_or_zero_def window_def)

lemma meta_region_get:
  "k + n \<le> 128 \<Longrightarrow> get_or_zero (meta_region bs ss v) k n = get_or_zero meta_table k n"
  "k + n \<le> 24 \<Longrightarrow> get_or_zero (meta_region bs ss v) (0x10000 + k) n = get_or_zero (meta_values bs ss v) k n"
  using read_part [of k n meta_table "[]" "replicate 65408 0 @ meta_values bs ss v @ replicate 983016 0"]
    read_part [of k n "meta_values bs ss v" "meta_table @ replicate 65408 0" "replicate 983016 0"]
  by (simp_all add: meta_region_def)

lemma full_image_get:
  "k + n \<le> 0x100000 \<Longrightarrow>
   get_or_zero (full_image bs ss v) (0x200000 + k) n = get_or_zero (meta_region bs ss v) k n"
  using read_part [of k n "meta_region bs ss v" "sound_image @ replicate 720896 0 @ replicate 0x100000 0" "[]"]
  by (simp add: full_image_def AUDIT_MIN_SIZE_def)

lemma full_image_window:
  "window (full_image bs ss v) 0x200000 0x100000 = meta_region bs ss v"
  "o1 + n \<le> AUDIT_MIN_SIZE \<Longrightarrow> window (full_image bs ss v) o1 n = window sound_image o1 n"
proof -
  have "length (sound_image @ replicate 720896 (0 :: u8) @ replicate 0x100000 0) = 0x200000"
    by (simp add: AUDIT_MIN_SIZE_def)
  then have "drop 0x200000 (full_image bs ss v) = meta_region bs ss v"
    unfolding full_image_def by (metis append_eq_conv_conj append_assoc)
  then show "window (full_image bs ss v) 0x200000 0x100000 = meta_region bs ss v"
    by (simp add: window_def)
  show "o1 + n \<le> AUDIT_MIN_SIZE \<Longrightarrow> window (full_image bs ss v) o1 n = window sound_image o1 n"
    unfolding full_image_def by (intro window_append_left) simp
qed

subsection \<open>The regions of the image\<close>

lemma meta_region_table [simp]:
  "k + n \<le> 128 \<Longrightarrow> window (meta_region bs ss v) k n = window meta_table k n"
  by (simp add: meta_region_def window_append_left)

lemma meta_fields:
  "r16 (meta_region bs ss v) 10 = 3"
  "r32 (meta_region bs ss v) 48 = 0x10000" "r32 (meta_region bs ss v) 52 = 8"
  "r32 (meta_region bs ss v) 80 = 0x10008" "r32 (meta_region bs ss v) 84 = 4"
  "r32 (meta_region bs ss v) 112 = 0x10010" "r32 (meta_region bs ss v) 116 = 8"
  using meta_table_fields unfolding le_u16_def le_u32_def by (simp_all add: meta_region_get(1))

lemma image_values:
  "r32 (full_image bs ss v) 0x210000 = bs" "r32 (full_image bs ss v) 0x210004 = 0"
  "r32 (full_image bs ss v) 0x210008 = ss" "r64 (full_image bs ss v) 0x210010 = v"
proof -
  have g: "get_or_zero (full_image bs ss v) (0x210000 + k) n = get_or_zero (meta_values bs ss v) k n"
    if "k + n \<le> 24" for k n
    using full_image_get [of "0x10000 + k" n bs ss v] meta_region_get(2) [OF that] that by simp
  show "r32 (full_image bs ss v) 0x210000 = bs" "r32 (full_image bs ss v) 0x210004 = 0"
    "r32 (full_image bs ss v) 0x210008 = ss" "r64 (full_image bs ss v) 0x210010 = v"
    using g [of 0 4] g [of 4 4] g [of 8 4] g [of 16 8] meta_values_fields [of bs ss v]
    by (simp_all add: le_u32_def le_u64_def)
qed

lemma image_items:
  "read_audit_items (full_image bs ss v) 0x200000 0x100000
    = Some (no_audit_items\<lparr> ai_block_size := Some bs, ai_logical_ss := Some ss, ai_vdisk_size := Some v \<rparr>)"
proof -
  have u: "[0..<3] = [0, 1, 2 :: nat]" by (simp add: upt_rec)
  show ?thesis
    unfolding read_audit_items_def
    by (simp add: saturating_add_def full_image_window meta_table_fields meta_fields u Let_def
        audit_item_def item_guids_differ image_values checked_add_def no_audit_items_def
        item_guids_differ [symmetric])
qed

lemma image_regions:
  "parse_regions (full_image bs ss v) = Some
    \<lparr> pr_bat_offset = 0x100000, pr_bat_length = 0x100000, pr_meta_offset = 0x200000,
      pr_meta_length = 0x100000, pr_block_size = Some bs, pr_logical_ss = Some ss,
      pr_vdisk_size = Some v, pr_chunk_ratio = audit_chunk_ratio (Some bs) (Some ss),
      pr_has_parent = False, pr_leave_alloc = False, pr_physical_ss = None, pr_vdisk_id = None,
      pr_has_parent_locator = False \<rparr>"
proof -
  have w: "window (full_image bs ss v) REGION_TABLE1_OFFSET REGION_TABLE_CRC_COVERAGE = sample_table"
    using full_image_window(2) [of REGION_TABLE1_OFFSET REGION_TABLE_CRC_COVERAGE] sound_image_parts(5)
      rt_fits [of AUDIT_MIN_SIZE 1] by simp
  have count: "min (unat (r32 sample_table 8)) 2048 = 2" by (simp add: sample_fields)
  have "\<not> length (full_image bs ss v) < REGION_TABLE1_OFFSET + REGION_TABLE_CRC_COVERAGE"
    by (simp add: header_layout REGION_TABLE_CRC_COVERAGE_def)
  then show ?thesis
    using sample_table_crc
    unfolding parse_regions_def try_parse_regions_def w Let_def count sample_find_regions
    by (simp add: sample_fields crc_ok_def image_items no_audit_items_def)
qed

lemma image_sound:
  "check_file_magic (full_image bs ss v) = []"
  "region_table_valid (full_image bs ss v) REGION_TABLE1_OFFSET"
proof -
  have "window (full_image bs ss v) 0 8 = AUDIT_MAGIC"
    using full_image_window(2) [of 0 8] sound_image_parts(1)
    by (simp add: check_file_magic_def AUDIT_MIN_SIZE_def)
  then show "check_file_magic (full_image bs ss v) = []"
    by (simp add: check_file_magic_def AUDIT_MIN_SIZE_def)
  show "region_table_valid (full_image bs ss v) REGION_TABLE1_OFFSET"
  proof (rule valid_at)
    show "window (full_image bs ss v) REGION_TABLE1_OFFSET REGION_TABLE_CRC_COVERAGE = sample_table"
      using full_image_window(2) [of REGION_TABLE1_OFFSET REGION_TABLE_CRC_COVERAGE] sound_image_parts(5)
        rt_fits [of AUDIT_MIN_SIZE 1] by simp
  qed (simp add: header_layout REGION_TABLE_CRC_COVERAGE_def)
qed

subsection \<open>Witnesses\<close>

theorem zero_chunk_ratio_panics_witness:
  "analyse (full_image 0x1000000 1 0x1000000) = Panic"
proof -
  have "analyse (full_image 0x1000000 1 0x1000000) = Panic
      \<and> attempt_repair (full_image 0x1000000 1 0x1000000) = Panic"
    proof (rule zero_chunk_ratio_panics [OF image_sound image_regions])
    have bs: "unat (0x1000000 :: u32) = 0x1000000" by simp
    show "2 ^ 23 < unat (0x1000000 :: u32)" unfolding bs by simp
  qed (simp_all add: table_in_def)
  then show ?thesis by blast
qed

theorem analysis_total_witness:
  "\<exists>issues. analyse (full_image 0x100000 512 0x100000) = Ok issues"
proof (rule analysis_total)
  fix r assume r: "parse_regions (full_image 0x100000 512 0x100000) = Some r"
  then have f: "pr_block_size r = Some 0x100000" "pr_logical_ss r = Some 512" "pr_vdisk_size r = Some 0x100000"
    "pr_bat_offset r = 0x100000" "pr_bat_length r = 0x100000"
    by (auto simp: image_regions)
  have ones: "count_ones 0x100000 = 1" unfolding count_ones_1 by (intro exI [of _ 20]) simp
  have "\<not> list_ex value_finding (check_block_size (Some 0x100000))"
    unfolding block_size_value using ones by (simp add: BLOCK_SIZE_MIN_def BLOCK_SIZE_MAX_def)
  moreover have "\<not> list_ex value_finding (check_vdisk_size (Some 0x100000) (Some 512))"
    by (subst vdisk_size_value) (simp_all add: VIRTUAL_DISK_SIZE_MAX_def)
  ultimately have "\<not> list_ex value_finding (check_metadata_inner (full_image 0x100000 512 0x100000) (Some r))"
    using items_no_value f by (auto simp: check_metadata_inner_def split: option.splits)
  then show "table_in (full_image 0x100000 512 0x100000) r
      \<and> \<not> list_ex value_finding (check_metadata_inner (full_image 0x100000 512 0x100000) (Some r))"
    using f by (simp add: table_in_def)
qed

text \<open>An image with one good header and no region table.\<close>

definition bare_image :: bytes where
  "bare_image = AUDIT_MAGIC @ replicate 65528 0 @ blank_header @ replicate 258048 0"

lemma bare_image_parts:
  "length bare_image = AUDIT_MIN_SIZE" "check_file_magic bare_image = []"
  "header_valid bare_image HEADER1_OFFSET"
  "65536 + 4096 \<le> off \<Longrightarrow> off + n \<le> AUDIT_MIN_SIZE \<Longrightarrow> window bare_image off n = replicate n 0"
  "window bare_image HEADER1_OFFSET HEADER_SIZE = blank_header"
proof -
  have m: "length AUDIT_MAGIC = 8" by (simp add: AUDIT_MAGIC_def)
  have b: "length blank_header = 4096" by (simp add: blank_header_valid HEADER_SIZE_def)
  show len: "length bare_image = AUDIT_MIN_SIZE" by (simp add: bare_image_def m b AUDIT_MIN_SIZE_def)
  have "window bare_image 0 8 = AUDIT_MAGIC" by (simp add: bare_image_def window_def m)
  then show "check_file_magic bare_image = []" by (simp add: check_file_magic_def len)
  show w: "window bare_image HEADER1_OFFSET HEADER_SIZE = blank_header"
    by (simp add: bare_image_def window_def m b header_layout HEADER_SIZE_def)
  show "header_valid bare_image HEADER1_OFFSET"
    using blank_at [OF w] header_fits [of AUDIT_MIN_SIZE 1] len by simp
  show "65536 + 4096 \<le> off \<Longrightarrow> off + n \<le> AUDIT_MIN_SIZE \<Longrightarrow> window bare_image off n = replicate n 0"
    by (simp add: bare_image_def window_def m b AUDIT_MIN_SIZE_def)
qed

lemma zero_unsigned:
  assumes "65536 + 4096 \<le> off" and "off + 4 \<le> AUDIT_MIN_SIZE" and "hd sig \<noteq> 0"
  shows "\<not> block_valid sig sz bare_image off"
proof -
  have "hd (window bare_image off 4) = 0"
    unfolding bare_image_parts(4) [OF assms(1,2)] by simp
  then show ?thesis using assms(3) unfolding block_valid_def by metis
qed

lemma bare_checks:
  "check_single_header_crc bare_image 1 = None" "check_single_header_crc bare_image 2 \<noteq> None"
  "check_region_tables bare_image = [BothRegionTableCopiesInvalid]"
  "active_header_block bare_image = Some blank_header"
proof -
  have h2: "\<not> header_valid bare_image HEADER2_OFFSET"
    by (rule zero_unsigned) (simp_all add: header_layout AUDIT_MIN_SIZE_def HEADER_SIGNATURE_def)
  have t: "\<not> region_table_valid bare_image REGION_TABLE1_OFFSET"
    "\<not> region_table_valid bare_image REGION_TABLE2_OFFSET"
    by (rule zero_unsigned; simp add: header_layout AUDIT_MIN_SIZE_def REGION_TABLE_SIGNATURE_def)+
  show c: "check_single_header_crc bare_image 1 = None" "check_single_header_crc bare_image 2 \<noteq> None"
    using bare_image_parts(3) h2 single_header_None [of bare_image 1] single_header_None [of bare_image 2]
    by simp_all
  show "check_region_tables bare_image = [BothRegionTableCopiesInvalid]"
    using t single_rt_None [of bare_image 1] single_rt_None [of bare_image 2]
    by (simp add: check_region_tables_def Let_def)
  show "active_header_block bare_image = Some blank_header"
    using bare_image_parts(3,5) h2 by (simp add: active_header_block_cases)
qed

lemma blank_header_no_log: "r32 blank_header 68 = 0"
  using blank_image_header(2) blank_image_window [of 68 4]
  by (simp add: header_at_def le_u32_def header_layout length_blank_image blank_header_valid HEADER_SIZE_def)

theorem no_dirty_log_no_replay_witness: "apply_log bare_image = Ok bare_image"
proof -
  let ?issues = "check_file_identifier_reserved bare_image @ check_inter_region_gaps bare_image
    @ check_headers bare_image @ [BothRegionTableCopiesInvalid]"
  have an: "analyse bare_image = Ok ?issues"
    by (simp add: analyse_def Let_def bare_image_parts(2) bare_checks(3))
  obtain c s where h2: "check_single_header_crc bare_image 2 = Some (HeaderChecksumMismatch 2 c s)"
    using bare_checks(2) single_header_Some by blast
  have rep: "list_ex is_dirty_log (report x a) \<longleftrightarrow> x \<and> is_dirty_log a" for x a
    by (simp add: report_def)
  have "\<not> list_ex is_dirty_log (check_active_header bare_image blank_header)"
    using blank_header_no_log by (simp add: check_active_header_def rep is_dirty_log_def Let_def)
  moreover have "\<not> list_ex is_dirty_log (check_header_reserved bare_image copy ok off)" for copy ok off
    by (simp add: check_header_reserved_def rep is_dirty_log_def Let_def)
  ultimately have "\<not> list_ex is_dirty_log (check_headers bare_image)"
    using bare_checks(1,4) h2 by (simp add: check_headers_def Let_def is_dirty_log_def)
  then have "\<not> list_ex is_dirty_log ?issues"
    by (simp add: check_file_identifier_reserved_def check_inter_region_gaps_def bare_image_parts(1)
        AUDIT_MIN_SIZE_def DATA_AREA_def is_dirty_log_def Let_def)
  moreover have "parse_active_header bare_image = Ok (header_at blank_header 0)"
    by (simp add: audited_header bare_checks(4))
  ultimately show ?thesis
    using no_dirty_log_no_replay [OF bare_image_parts(2) an] by blast
qed

end
