(* ===== verification/Verdict.thy ===== *)
theory Verdict
  imports Example Totality
begin

text \<open>
  Where the analyser and the reader disagree: an image that the reader opens and reads without
  replay, and that the analysis reports as dirty and as lacking its size. The image is the one
  that \<open>core/examples/bounded_memory.rs\<close> writes (theory \<open>Example\<close>).
\<close>

lemma demo_valid:
  "check_file_magic demo_image = []"
  "region_table_valid demo_image REGION_TABLE1_OFFSET"
proof -
  have "AUDIT_MAGIC = FILE_MAGIC" by (simp add: AUDIT_MAGIC_def FILE_MAGIC_def)
  then show "check_file_magic demo_image = []"
    by (simp add: check_file_magic_def AUDIT_MIN_SIZE_def demo_parts(1))
  show "region_table_valid demo_image REGION_TABLE1_OFFSET"
    using demo_parts(4) demo_sub [OF demo_parts(4), of 0 4]
    by (simp add: block_valid_def header_layout REGION_TABLE_CRC_COVERAGE_def table_body_fields crc_ok_seal)
qed

text \<open>The regions the analyser finds: it does not recognise the GUID of the disk size.\<close>

lemma demo_items:
  "read_audit_items demo_image 0x200000 0x100000 =
     Some (no_audit_items\<lparr> ai_block_size := Some 0x2000000, ai_logical_ss := Some 512 \<rparr>)"
proof -
  note f = metadata_body_fields and sub = demo_sub [OF demo_parts(6)]
  have words: "r32 metadata_body 48 = 0x200" "r32 metadata_body 80 = 0x210" "r32 metadata_body 112 = 0x220"
    by (simp_all add: f word_at)
  have vals: "r32 demo_image 0x200200 = 0x2000000" "r32 demo_image 0x200220 = 512"
    using sub [of "0x200" 4] sub [of "0x220" 4] by (simp_all add: f word_at)
  have flags: "r32 demo_image 0x200204 = 0"
    using sub [of "0x204" 4] f(13) by (simp add: le_u32_def)
  have "le_nat (to_le 2 3) = 3" by (simp add: le_nat_to_le)
  then have count: "r16 metadata_body 10 = 3" using f(2) by (simp add: le_u16_def)
  have upto: "[0..<3] = [0, 1, 2 :: nat]" by (simp add: upt_rec)
  have others: "GUID_VIRTUAL_DISK_SIZE_QEMU_COMPAT \<noteq> GUID_PHYSICAL_SECTOR_SIZE"
    "GUID_VIRTUAL_DISK_SIZE_QEMU_COMPAT \<noteq> GUID_VIRTUAL_DISK_ID"
    "GUID_VIRTUAL_DISK_SIZE_QEMU_COMPAT \<noteq> GUID_PARENT_LOCATOR"
    by (simp_all add: GUID_VIRTUAL_DISK_SIZE_QEMU_COMPAT_def GUID_PHYSICAL_SECTOR_SIZE_def
        GUID_VIRTUAL_DISK_ID_def GUID_PARENT_LOCATOR_def)
  show ?thesis
    unfolding read_audit_items_def
    by (simp add: saturating_add_def demo_parts(6) f(1,3,6,9) count upto Let_def words audit_item_def others
        item_guids_apart item_guids_apart [symmetric] vals flags checked_add_def no_audit_items_def)
qed

lemma demo_parsed:
  "parse_regions demo_image = Some
    \<lparr> pr_bat_offset = 0x300000, pr_bat_length = 0x100000, pr_meta_offset = 0x200000,
      pr_meta_length = 0x100000, pr_block_size = Some 0x2000000, pr_logical_ss = Some 512,
      pr_vdisk_size = None, pr_chunk_ratio = audit_chunk_ratio (Some 0x2000000) (Some 512),
      pr_has_parent = False, pr_leave_alloc = False, pr_physical_ss = None, pr_vdisk_id = None,
      pr_has_parent_locator = False \<rparr>"
proof -
  note f = table_body_fields
  have w: "window demo_image REGION_TABLE1_OFFSET REGION_TABLE_CRC_COVERAGE = seal table_body"
    by (simp add: header_layout REGION_TABLE_CRC_COVERAGE_def demo_parts(4))
  have words: "r32 (seal table_body) 8 = 2" "r64 (seal table_body) 32 = 0x300000"
    "r32 (seal table_body) 40 = 0x100000" "r64 (seal table_body) 64 = 0x200000"
    "r32 (seal table_body) 72 = 0x100000"
    by (simp_all add: f word_at)
  have upto: "[0..<2] = [0, 1 :: nat]" by (simp add: upt_rec)
  have find: "find_regions (seal table_body) [0..<min (unat (r32 (seal table_body) 8)) 2048] None None
      = (Some (0x300000, 0x100000), Some (0x200000, 0x100000))"
    by (simp add: words upto REGION_ENTRY_SIZE_def f Let_def guids_differ)
  have crc: "crc32c (zero_crc (seal table_body)) = r32 (seal table_body) 4"
    using crc_ok_seal [of table_body] by (simp add: crc_ok_def)
  have "\<not> length demo_image < REGION_TABLE1_OFFSET + REGION_TABLE_CRC_COVERAGE"
    by (simp add: header_layout REGION_TABLE_CRC_COVERAGE_def)
  then show ?thesis
    unfolding parse_regions_def try_parse_regions_def w Let_def find
    by (simp add: crc f(1) demo_items no_audit_items_def)
qed

lemma demo_analysis_returns: "\<exists>issues. analyse demo_image = Ok issues"
proof (rule analyse_returns)
  fix r assume "parse_regions demo_image = Some r"
  then have f: "pr_block_size r = Some 0x2000000" "pr_logical_ss r = Some 512" "pr_vdisk_size r = None"
    "pr_bat_offset r = 0x300000" "pr_bat_length r = 0x100000"
    "pr_chunk_ratio r = audit_chunk_ratio (pr_block_size r) (pr_logical_ss r)"
    by (auto simp: demo_parsed)
  have s: "sane_values r" using f by (simp add: sane_values_def)
  then have "ratio_ok r" using sane_ratio [OF s] f(6) by (simp add: ratio_ok_def)
  moreover have "table_in demo_image r" using f by (simp add: table_in_def)
  ultimately show "check_bat_inner demo_image (Some r) \<noteq> Panic
      \<and> check_trailing_data_inner demo_image (Some r) \<noteq> Panic"
    using check_bat_total [OF s] trailing_total f(6) by blast
qed

subsection \<open>Properties\<close>

text \<open>C12: The analyser calls a log dirty by its length, the reader by its GUID. On an image whose
  active header has a log region but the null log GUID, which for the format means that there is
  nothing to replay, opening replays nothing and leaves the bytes as they are, and the analysis
  reports a dirty log that needs a replay, and a GUID wiped from it.\<close>

theorem clean_log_reported_dirty:
  assumes "check_file_magic d = []" and "analyse d = Ok issues"
    and "parse_active_header d = Ok h" and "log_guid h = ZERO_GUID" and "log_length h \<noteq> 0"
  shows "apply_log d = Ok d \<and> build_overlay b h = Ok empty_overlay
    \<and> DirtyLog (unat (log_length h)) (unat (log_offset h)) \<in> set issues
    \<and> LogGuidAllZerosWithDirtyLog (unat (log_length h)) \<in> set issues"
proof -
  obtain blk where blk: "active_header_block d = Some blk" "h = header_at blk 0"
    using assms(3) audited_header by (auto split: option.splits)
  have "\<exists>copy \<in> {1, 2}. check_single_header_crc d copy = None"
    using blk(1) by (auto simp: active_header_block_def Let_def split: if_splits)
  then have "\<not> (check_single_header_crc d 1 \<noteq> None \<and> check_single_header_crc d 2 \<noteq> None)" by auto
  then have "set (check_active_header d blk) \<subseteq> set (check_headers d)"
    using blk(1) unfolding check_headers_def Let_def by auto
  moreover have "r32 blk 68 \<noteq> 0" "guid_at blk 48 = replicate 16 0"
    using assms(4,5) blk(2) by (simp_all add: header_at_def ZERO_GUID_def)
  then have "{DirtyLog (unat (log_length h)) (unat (log_offset h)),
      LogGuidAllZerosWithDirtyLog (unat (log_length h))} \<subseteq> set (check_active_header d blk)"
    using blk(2) by (simp add: check_active_header_def header_at_def Let_def unat_gt_0)
  ultimately have "{DirtyLog (unat (log_length h)) (unat (log_offset h)),
      LogGuidAllZerosWithDirtyLog (unat (log_length h))} \<subseteq> set issues"
    using analyse_reports(1) [OF assms(1,2)] by blast
  moreover have "apply_log d = Ok d" "build_overlay b h = Ok empty_overlay"
    using assms(3,4) by (simp_all add: apply_log_def build_overlay_def)
  ultimately show ?thesis by blast
qed

theorem clean_log_reported_dirty_witness:
  "\<exists>issues off. analyse demo_image = Ok issues \<and> apply_log demo_image = Ok demo_image
     \<and> DirtyLog 0x100000 off \<in> set issues \<and> LogGuidAllZerosWithDirtyLog 0x100000 \<in> set issues"
proof -
  obtain issues where a: "analyse demo_image = Ok issues" using demo_analysis_returns by blast
  show ?thesis
    using clean_log_reported_dirty [OF demo_valid(1) a demo_header(1,2)] a demo_header(3) by auto
qed

text \<open>C29: The image that the example of the repository writes is opened and read by the reader
  (as \<open>Example\<close> shows), and the analysis of the same bytes returns and
  reports that it lacks the item \<open>VirtualDiskSize\<close>: the reader knows two GUIDs for that item, the
  analyser one. The checks of the size and of its coverage by the table are then skipped.\<close>

theorem written_image_reported:
  assumes "write_sparse_vhdx fault = Ok (len, d)"
  shows "\<exists>issues. analyse d = Ok issues \<and> anomaly.MetadataMissing ''VirtualDiskSize'' \<in> set issues
    \<and> (\<exists>r. from_bytes d = Ok r \<and> reader_disk_size r = 2 ^ 32)"
proof -
  have d: "d = demo_image" using assms write_sparse_vhdx_cases [of fault] by auto
  obtain issues where a: "analyse demo_image = Ok issues" using demo_analysis_returns by blast
  have "anomaly.MetadataMissing ''VirtualDiskSize'' \<in> set (check_metadata_inner demo_image (parse_regions demo_image))"
    unfolding demo_parsed by (simp add: check_metadata_inner_def check_vdisk_size_def)
  moreover have "\<not> list_ex (\<lambda>a. a = BothRegionTableCopiesInvalid) (check_file_identifier_reserved demo_image
      @ check_inter_region_gaps demo_image @ check_headers demo_image @ check_region_tables demo_image)"
    using one_table_suffices [OF demo_valid(2)] by (auto simp: list_ex_iff)
  ultimately have "anomaly.MetadataMissing ''VirtualDiskSize'' \<in> set issues"
    using a by (auto simp: analyse_def demo_valid(1) Let_def and_then_Ok_iff)
  moreover have "\<exists>r. from_bytes demo_image = Ok r \<and> serves r (2 ^ 32) demo_byte"
    by (rule demo_opens) (simp add: from_bytes_def parse_bytes_opens)
  then obtain r where r: "from_bytes demo_image = Ok r" "serves r (2 ^ 32) demo_byte" by blast
  have "unat (reader_disk_size r) = 2 ^ 32" using r(2) by (simp add: serves_def)
  then have "unat (reader_disk_size r) = unat (2 ^ 32 :: u64)" by simp
  then have "reader_disk_size r = 2 ^ 32" by (simp only: word_unat_eq_iff)
  ultimately show ?thesis using a r(1) unfolding d by blast
qed

theorem written_image_reported_witness:
  "\<exists>issues. analyse demo_image = Ok issues \<and> anomaly.MetadataMissing ''VirtualDiskSize'' \<in> set issues"
  using written_image_reported [OF write_sparse_vhdx_eval] by blast

end
