(* ===== verification/Notes.thy ===== *)
theory Notes
  imports Anomaly
begin

text \<open>
  The prose of a finding (\<open>forensic_significance\<close> of \<open>forensic/src/integrity.rs\<close>, one text for
  each variant, here in six groups that follow the match of the source) and the report of a
  finding as the trait \<open>Observation\<close> of the crate \<open>forensicnomicon\<close> presents it.
\<close>

definition layout_notes :: "anomaly \<Rightarrow> string" where
  "layout_notes a =
    (case a of
       TrailingData _ _ \<Rightarrow>
         ''Non-zero bytes exist between the end of the last BAT-addressed data block and the ''
         @ ''physical end of the file. This region is outside the BAT-mapped address space and ''
         @ ''invisible to virtual disk parsers '' @ em_dash
         @ '' a steganographic channel for concealing data after the nominal end of the disk ''
         @ ''image.''
       | CreatorStringAnomalous _ \<Rightarrow>
         ''The File Identifier creator string contains an anomaly inconsistent with legitimate ''
         @ ''VHDX tools. The creator string is not CRC-protected in older format versions and is ''
         @ ''a low-visibility field for tool-fingerprint spoofing.''
       | FileIdentifierReservedNonZero _ _ \<Rightarrow>
         ''Non-zero bytes exist in the reserved area of the File Identifier section (bytes 512''
         @ en_dash @ ''65535, after the creator string). Normal parsers skip this area entirely ''
         @ em_dash
         @ '' it is a low-visibility location for data hiding or steganographic payloads that ''
         @ ''survive most forensic sanitization tools.''
       | InterRegionGapNonZero _ _ _ _ \<Rightarrow>
         ''Non-zero bytes exist in a padding gap between two adjacent structural regions. ''
         @ ''Hyper-V zeros these gaps at creation; non-zero content indicates data hiding or a ''
         @ ''partial-write artifact from an abnormal shutdown.''
       | HeaderReservedNonZero _ _ _ \<Rightarrow>
         ''Non-zero bytes exist in the reserved portion of a valid header copy. These bytes ''
         @ ''are CRC-protected but not semantically defined '' @ em_dash
         @ '' an attacker can write arbitrary data there and update the CRC to produce a ''
         @ ''structurally valid header that carries hidden content undetected by integrity ''
         @ ''checkers.''
       | _ \<Rightarrow> '''')"

definition bat_notes :: "anomaly \<Rightarrow> string" where
  "bat_notes a =
    (case a of
       BatSizeMetadataMismatch _ _ _ _ _ \<Rightarrow>
         ''The BAT region's physical size (CRC-protected) does not match the size implied by ''
         @ ''VirtualDiskSize and BlockSize (unprotected metadata). One metadata field was ''
         @ ''silently modified after file creation.''
       | BatEntryInStructuralRegion _ _ _ \<Rightarrow>
         ''A FULLY_PRESENT BAT entry's file offset falls inside a VHDX structural section ''
         @ ''(File Identifier, Header, Region Table, Metadata, or Log). This redirects virtual ''
         @ ''disk reads into structural data '' @ em_dash @ '' a data-aliasing attack.''
       | MissingSectorBitmap _ _ \<Rightarrow>
         ''A FULLY_PRESENT data block's corresponding sector bitmap slot is in NOT_PRESENT ''
         @ ''state. Hyper-V always writes the bitmap alongside data; this combination indicates ''
         @ ''direct BAT manipulation after the write.''
       | UndefinedBlockState _ \<Rightarrow>
         ''A data BAT entry is in UNDEFINED state (1), which is only valid transiently during ''
         @ ''block allocation. Persistent UNDEFINED state indicates an interrupted write or ''
         @ ''deliberate BAT manipulation to create unreadable blocks.''
       | UnmappedBlockInNonDifferencing _ \<Rightarrow>
         ''A data BAT entry is in UNMAPPED state (3) in a non-differencing disk. UNMAPPED is ''
         @ ''only valid in differencing disks; its presence indicates direct BAT manipulation ''
         @ ''outside the defined state machine.''
       | GhostDataInAbsentBlock _ _ _ \<Rightarrow>
         ''A NOT_PRESENT BAT entry's ghost offset points to a file range containing non-zero ''
         @ ''bytes. Content was written to the block then the BAT entry was zeroed without ''
         @ ''wiping the underlying storage '' @ em_dash @ '' a data-hiding technique.''
       | BatEntryBeyondContainer _ _ _ \<Rightarrow>
         ''A FULLY_PRESENT BAT entry's file offset points outside the container. The declared ''
         @ ''data block does not exist in this file; reads will fail or access ''
         @ ''attacker-controlled memory depending on the parser implementation.''
       | BatEntryUnaligned _ _ \<Rightarrow>
         ''A FULLY_PRESENT BAT entry's file offset is not 1 MB aligned. The spec mandates MB ''
         @ ''alignment; a misaligned entry indicates manual patching of the BAT to redirect a ''
         @ ''data block to a sub-MB granularity offset.''
       | BatEntriesOverlap _ _ _ \<Rightarrow>
         ''Two FULLY_PRESENT BAT entries map different logical blocks to the same physical 1 ''
         @ ''MB region. The same bytes represent two different logical blocks '' @ em_dash
         @ '' a masquerading technique that makes LBA-to-physical mapping ambiguous.''
       | PartiallyPresentBlock _ \<Rightarrow>
         ''A data block BAT entry is in PARTIALLY_PRESENT transient state, which should never ''
         @ ''persist in a stable image. Persistence indicates an interrupted block allocation or ''
         @ ''deliberate injection of a transient state.''
       | SectorBitmapInvalidState _ _ \<Rightarrow>
         ''A sector bitmap BAT entry has an unexpected state value. The bitmap slot state must ''
         @ ''be NOT_PRESENT or FULLY_PRESENT; any other value indicates direct BAT manipulation ''
         @ ''of the bitmap tracking structure.''
       | _ \<Rightarrow> layout_notes a)"

definition metadata_notes :: "anomaly \<Rightarrow> string" where
  "metadata_notes a =
    (case a of
       anomaly.MetadataMissing _ \<Rightarrow>
         ''A required metadata item (BlockSize or VirtualDiskSize) is absent. These items are ''
         @ ''mandatory per MS-VHDX; their absence indicates a deliberately stripped or ''
         @ ''hand-constructed metadata table.''
       | BlockSizeInvalid _ _ \<Rightarrow>
         ''The BlockSize metadata item has an invalid value (outside [1 MB, 256 MB] or not a ''
         @ ''power of two). An invalid block size corrupts BAT index calculations, causing every ''
         @ ''block lookup to produce incorrect offsets.''
       | LogicalSectorSizeInvalid _ \<Rightarrow>
         ''The LogicalSectorSize is not 512 or 4096. Only these two values are defined by ''
         @ ''MS-VHDX; any other value indicates metadata tampering that breaks sector-to-LBA ''
         @ ''mapping for the entire virtual disk.''
       | VirtualDiskSizeInvalid _ _ \<Rightarrow>
         ''The VirtualDiskSize is zero, exceeds 64 TiB, or is not a multiple of the logical ''
         @ ''sector size. An invalid size corrupts the block count used to build the BAT index ''
         @ ''and may cause reads to access arbitrary offsets.''
       | VirtualDiskSizeUnderreported _ _ \<Rightarrow>
         ''The declared VirtualDiskSize is smaller than the range covered by present BAT ''
         @ ''entries. Data beyond the declared size is hidden from parsers that respect the ''
         @ ''VirtualDiskSize bound '' @ em_dash @ '' a capacity-hiding attack.''
       | DifferencingDisk \<Rightarrow>
         ''The image declares a differencing disk parent (HasParent=true). The full data ''
         @ ''surface cannot be recovered without the parent chain; differencing disks are also ''
         @ ''used to split evidence across multiple files.''
       | PhysicalSectorSizeInvalid _ \<Rightarrow>
         ''The PhysicalSectorSize metadata item is not 512 or 4096. Only these values are ''
         @ ''permitted by MS-VHDX '' @ section_sign
         @ ''2.5.7; an invalid value indicates direct metadata manipulation outside any ''
         @ ''legitimate VHDX writer.''
       | VirtualDiskIdAllZeros \<Rightarrow>
         ''The VirtualDiskId GUID is all zeros. This GUID is a unique disk identity written at ''
         @ ''creation; zeroing it severs the audit trail, prevents correlation with cloned ''
         @ ''images, and breaks chain-of-custody.''
       | MetadataItemsOverlap _ _ _ \<Rightarrow>
         ''Two metadata item data ranges overlap within the item area. Overlapping items are ''
         @ ''structurally impossible without direct binary manipulation '' @ em_dash
         @ '' the ambiguous layout can be exploited to confuse different parsers.''
       | MetadataItemBeyondRegion _ _ _ \<Rightarrow>
         ''A metadata item's data range extends past the end of the metadata region. The item ''
         @ ''cannot be safely read; this state indicates manual patching of the metadata table ''
         @ ''to create out-of-bounds access conditions.''
       | LeaveBlocksAllocatedSet \<Rightarrow>
         ''The LeaveBlocksAllocated flag is set in a non-differencing disk. This flag is only ''
         @ ''valid in differencing disks; its presence in a standalone image suggests ''
         @ ''post-creation cloning or deliberate image manipulation.''
       | MissingParentLocator \<Rightarrow>
         ''HasParent is true but no ParentLocator metadata item is present. The parent chain ''
         @ ''cannot be resolved, so data blocks that defer to the parent are unreadable '' @ em_dash
         @ '' the image is incomplete or the locator was stripped.''
       | VirtualDiskSizeOverreported _ _ \<Rightarrow>
         ''The declared VirtualDiskSize is larger than what the BAT can address. Reads at LBAs ''
         @ ''beyond the BAT coverage silently fail; the declared size is larger than the actual ''
         @ ''addressable data surface.''
       | _ \<Rightarrow> bat_notes a)"

definition region_notes :: "anomaly \<Rightarrow> string" where
  "region_notes a =
    (case a of
       RegionMisaligned _ _ \<Rightarrow>
         ''A region entry's file_offset is not 1 MB aligned. All VHDX regions must start at MB ''
         @ ''boundaries per the specification; misalignment indicates manual patching of the ''
         @ ''region table to redirect a structural region.''
       | RegionBeyondContainer _ _ _ \<Rightarrow>
         ''A declared region extends past the end of the container file. The structural region ''
         @ ''physically does not exist; reading it would access out-of-bounds memory '' @ em_dash
         @ '' a potential parser vulnerability or evidence of container truncation.''
       | RegionsOverlap _ _ _ \<Rightarrow>
         ''Two declared regions (BAT and Metadata) have overlapping byte ranges. Overlapping ''
         @ ''regions are structurally impossible in a valid VHDX '' @ em_dash
         @ '' only direct binary manipulation of the region table can produce this state.''
       | LogOverlapsStructuralRegion _ _ \<Rightarrow>
         ''The dirty-log region overlaps a structural zone. Log replay would overwrite VHDX ''
         @ ''structural data (headers, region tables, or the file identifier) '' @ em_dash
         @ '' a targeted log-poisoning vector for corrupting parser-critical structures.''
       | UnknownRequiredRegion _ \<Rightarrow>
         ''A region table entry has Required=1 with an unrecognized GUID. Hyper-V refuses to ''
         @ ''open files with unknown required regions; this state cannot occur through ''
         @ ''legitimate tools and indicates a hand-crafted region table.''
       | RegionTableReservedNonZero _ _ _ \<Rightarrow>
         ''Reserved bytes in the region table are non-zero. These bytes are CRC-protected but ''
         @ ''semantically undefined; non-zero content can carry steganographic payloads that ''
         @ ''survive most sanitization tools.''
       | RegionEntryCountZero _ \<Rightarrow>
         ''The region table declares zero region entries. No BAT or Metadata region is ''
         @ ''registered, making the virtual disk undecodable by standard parsers. A legitimate ''
         @ ''VHDX always declares both BAT and Metadata after the first write cycle; a zero ''
         @ ''count indicates post-initialization patching '' @ em_dash
         @ '' either to block forensic analysis or as part of a deliberately invalid container.''
       | RegionTableChecksumMismatch _ _ _ \<Rightarrow>
         ''A region table copy's CRC32C is invalid. The region table was modified after the ''
         @ ''last legitimate write '' @ em_dash
         @ '' targeted tampering of the structure that maps the physical layout of BAT and ''
         @ ''Metadata regions.''
       | BothRegionTableCopiesInvalid \<Rightarrow>
         ''Both redundant region table copies have invalid CRC32C. The entire region layout is ''
         @ ''unverifiable; BAT and Metadata offsets cannot be trusted, preventing reliable ''
         @ ''forensic decoding of the container.''
       | RegionTableCopyMismatch _ _ _ _ \<Rightarrow>
         ''Two CRC-valid region table copies disagree on a region's offset or size. One was ''
         @ ''patched and re-signed; the copies now describe different physical layouts, making ''
         @ ''the true data location ambiguous.''
       | _ \<Rightarrow> metadata_notes a)"

definition log_notes :: "anomaly \<Rightarrow> string" where
  "log_notes a =
    (case a of
       LogZeroedButDirty _ _ \<Rightarrow>
         ''The header declares a dirty log but all log bytes are zero. This is used to ''
         @ ''preserve the dirty-log indicator (blocking Hyper-V from mounting the disk) while ''
         @ ''destroying the log entries that would reveal which blocks were written.''
       | LogEntrySignatureMissing _ \<Rightarrow>
         ''A log entry position does not contain the expected 'loge' signature. The log region ''
         @ ''was overwritten or the log offset was manipulated to point into an area that was ''
         @ ''never written as log data.''
       | LogEntryCrcMismatch _ _ _ \<Rightarrow>
         ''A log entry's CRC32C is invalid. The entry was modified after writing '' @ em_dash
         @ '' log tampering to alter the on-disk record of which blocks were changed before the ''
         @ ''last checkpoint.''
       | LogEntryGuidMismatch _ _ _ \<Rightarrow>
         ''A log entry's LogGuid does not match the active header's LogGuid. The log was ''
         @ ''transplanted from a different VHDX image, replacing the authentic write history ''
         @ ''with entries from another disk.''
       | LogSequenceNumberGap _ _ _ \<Rightarrow>
         ''Consecutive log entries have a gap in sequence numbers. Entries were deleted from ''
         @ ''the middle of the log sequence to remove evidence of specific write operations that ''
         @ ''occurred between the surviving entries.''
       | FileWriteGuidAllZeros \<Rightarrow>
         ''The FileWriteGuid (disk-level identity GUID) is all zeros. This GUID is updated on ''
         @ ''every write cycle and used to correlate images in audit trails; wiping it severs ''
         @ ''the chain of custody and prevents linkage to prior captures.''
       | DataWriteGuidAllZeros \<Rightarrow>
         ''The DataWriteGuid (data-layer identity GUID) is all zeros. This GUID tracks the ''
         @ ''data state for differencing disk chain verification; zeroing it breaks parent-image ''
         @ ''validation and obscures whether data blocks were modified.''
       | LogGuidWithNoLog _ \<Rightarrow>
         ''The header contains a non-zero LogGuid but LogLength is zero. A non-zero LogGuid ''
         @ ''with no log region indicates the log was cleared without resetting the GUID '' @ em_dash
         @ '' a sign of manual header manipulation between write cycles.''
       | LogGuidAllZerosWithDirtyLog _ \<Rightarrow>
         ''A non-zero LogLength exists but LogGuid is all zeros '' @ em_dash
         @ '' a combination that is structurally impossible through normal Hyper-V operation. ''
         @ ''This indicates a manually constructed dirty-log header designed to block mounting.''
       | LogVersionInvalid _ \<Rightarrow>
         ''The LogVersion field is not 1, the only valid value defined by MS-VHDX. Any other ''
         @ ''value indicates a format version violation or direct binary patching of the header ''
         @ ''without using a legitimate VHDX writer.''
       | VersionInvalid _ \<Rightarrow>
         ''The Version field is not 1, the only defined VHDX format version. This value is set ''
         @ ''at creation and never changed; an unexpected value indicates a hand-crafted header ''
         @ ''or an attempt to trigger version-specific parser bugs.''
       | LogOffsetMisaligned _ \<Rightarrow>
         ''The LogOffset is not 1 MB aligned, violating the VHDX specification. All log ''
         @ ''regions must start at MB boundaries; misalignment indicates manual patching of the ''
         @ ''log pointer to redirect log operations to an arbitrary offset.''
       | LogLengthMisaligned _ \<Rightarrow>
         ''The LogLength is not a multiple of 1 MB. The specification requires MB granularity ''
         @ ''for log regions; a misaligned length indicates direct binary editing of the header ''
         @ ''outside any legitimate VHDX tool.''
       | LogBeyondContainer _ _ _ \<Rightarrow>
         ''The declared log region extends past the end of the file. The log physically does ''
         @ ''not exist in this container; the log pointer was set to reference data that is not ''
         @ ''present, possibly to trigger parser overflow vulnerabilities.''
       | LogInReservedZone _ \<Rightarrow>
         ''The LogOffset places the log inside the header section (below 1 MB). Log replay ''
         @ ''would overwrite VHDX structural data '' @ em_dash
         @ '' a log-poisoning attack that can corrupt headers or region tables on mount.''
       | SequenceNumberGapLarge _ _ _ \<Rightarrow>
         ''The two valid header copies have sequence numbers differing by more than 1. A gap ''
         @ ''larger than 1 means write cycles occurred between the two copies being updated ''
         @ em_dash @ '' one copy was patched without going through a legitimate write.''
       | DirtyLog _ _ \<Rightarrow>
         ''The active header declares a non-zero log region, indicating uncommitted writes ''
         @ ''were present when the image was captured. This is normal for live snapshots but ''
         @ ''means the visible data may not reflect the final committed state.''
       | _ \<Rightarrow> region_notes a)"

definition forensic_significance :: "anomaly \<Rightarrow> string" where
  "forensic_significance a =
    (case a of
       anomaly.BadMagic _ \<Rightarrow>
         ''The 8-byte VHDX magic signature is incorrect. The file is either not a VHDX image, ''
         @ ''was truncated before the identifier section, or the magic was overwritten to ''
         @ ''disguise the container's true format.''
       | ContainerTruncated _ _ \<Rightarrow>
         ''The file is smaller than the minimum VHDX structural size (320 KB). The container ''
         @ ''was either incompletely written, deliberately truncated to destroy evidence, or is ''
         @ ''a stub masquerading as a full image.''
       | HeaderChecksumMismatch _ _ _ \<Rightarrow>
         ''A header copy's CRC32C does not match its content. The header was modified after ''
         @ ''the last legitimate Hyper-V write '' @ em_dash
         @ '' either targeted tampering or storage-layer corruption of the most ''
         @ ''security-critical region.''
       | BothHeaderCopiesInvalid \<Rightarrow>
         ''Both redundant header copies have invalid CRC32C. The entire header region was ''
         @ ''overwritten or corrupted, rendering the disk identity, log pointer, and sequence ''
         @ ''numbers unverifiable.''
       | SequenceNumbersIdentical _ \<Rightarrow>
         ''Both header copies share the same sequence number. Hyper-V increments the sequence ''
         @ ''number on every write cycle; identical values indicate one copy was cloned from the ''
         @ ''other, bypassing the normal redundancy mechanism.''
       | BothSequenceNumbersZero \<Rightarrow>
         ''Both header sequence numbers are zero. A written disk always has at least one ''
         @ ''non-zero sequence number; all-zero values suggest a manually constructed header or ''
         @ ''a factory-reset operation outside normal Hyper-V control.''
       | HeaderCopyMismatch _ _ _ \<Rightarrow>
         ''Two CRC-valid header copies disagree on a named field. This is structurally ''
         @ ''impossible through normal Hyper-V operation '' @ em_dash
         @ '' one copy was patched and re-signed after the fact to introduce conflicting disk ''
         @ ''metadata.''
       | _ \<Rightarrow> log_notes a)"

text \<open>\<open>Observation for VhdxIntegrityAnomaly\<close>.\<close>

record observation =
  obs_severity :: "severity_level option"
  obs_code :: string
  obs_note :: string
  obs_mitre :: "string list"

definition observe :: "anomaly \<Rightarrow> observation" where
  "observe a =
     \<lparr> obs_severity = Some (severity a),
       obs_code = code a,
       obs_note = forensic_significance a,
       obs_mitre = mitre_techniques a \<rparr>"

subsection \<open>The note, like the other parts, depends on the kind of the finding only\<close>

text \<open>A finding of each kind.\<close>

definition kinds :: "anomaly list" where
  "kinds =
     [anomaly.BadMagic [],
      ContainerTruncated 0 0,
      HeaderChecksumMismatch 0 0 0,
      BothHeaderCopiesInvalid,
      SequenceNumbersIdentical 0,
      BothSequenceNumbersZero,
      HeaderCopyMismatch [] 0 0,
      LogZeroedButDirty 0 0,
      LogEntrySignatureMissing 0,
      LogEntryCrcMismatch 0 0 0,
      LogEntryGuidMismatch 0 [] [],
      LogSequenceNumberGap 0 0 0,
      FileWriteGuidAllZeros,
      DataWriteGuidAllZeros,
      LogGuidWithNoLog [],
      LogGuidAllZerosWithDirtyLog 0,
      LogVersionInvalid 0,
      VersionInvalid 0,
      LogOffsetMisaligned 0,
      LogLengthMisaligned 0,
      LogBeyondContainer 0 0 0,
      LogInReservedZone 0,
      SequenceNumberGapLarge 0 0 0,
      DirtyLog 0 0,
      RegionMisaligned [] 0,
      RegionBeyondContainer [] 0 0,
      RegionsOverlap [] [] 0,
      LogOverlapsStructuralRegion 0 [],
      UnknownRequiredRegion [],
      RegionTableReservedNonZero 0 [] 0,
      RegionEntryCountZero 0,
      RegionTableChecksumMismatch 0 0 0,
      BothRegionTableCopiesInvalid,
      RegionTableCopyMismatch [] [] 0 0,
      anomaly.MetadataMissing [],
      BlockSizeInvalid 0 [],
      LogicalSectorSizeInvalid 0,
      VirtualDiskSizeInvalid 0 [],
      VirtualDiskSizeUnderreported 0 0,
      DifferencingDisk,
      PhysicalSectorSizeInvalid 0,
      VirtualDiskIdAllZeros,
      MetadataItemsOverlap 0 0 0,
      MetadataItemBeyondRegion 0 0 0,
      LeaveBlocksAllocatedSet,
      MissingParentLocator,
      VirtualDiskSizeOverreported 0 0,
      BatSizeMetadataMismatch 0 0 0 0 0,
      BatEntryInStructuralRegion 0 0 [],
      MissingSectorBitmap 0 0,
      UndefinedBlockState 0,
      UnmappedBlockInNonDifferencing 0,
      GhostDataInAbsentBlock 0 0 0,
      BatEntryBeyondContainer 0 0 0,
      BatEntryUnaligned 0 0,
      BatEntriesOverlap 0 0 0,
      PartiallyPresentBlock 0,
      SectorBitmapInvalidState 0 0,
      TrailingData 0 0,
      CreatorStringAnomalous [],
      FileIdentifierReservedNonZero 0 0,
      InterRegionGapNonZero [] [] 0 0,
      HeaderReservedNonZero 0 0 0]"

primrec erase :: "anomaly \<Rightarrow> anomaly" where
  "erase (anomaly.BadMagic _) = anomaly.BadMagic []"
  | "erase (ContainerTruncated _ _) = ContainerTruncated 0 0"
  | "erase (HeaderChecksumMismatch _ _ _) = HeaderChecksumMismatch 0 0 0"
  | "erase BothHeaderCopiesInvalid = BothHeaderCopiesInvalid"
  | "erase (SequenceNumbersIdentical _) = SequenceNumbersIdentical 0"
  | "erase BothSequenceNumbersZero = BothSequenceNumbersZero"
  | "erase (HeaderCopyMismatch _ _ _) = HeaderCopyMismatch [] 0 0"
  | "erase (LogZeroedButDirty _ _) = LogZeroedButDirty 0 0"
  | "erase (LogEntrySignatureMissing _) = LogEntrySignatureMissing 0"
  | "erase (LogEntryCrcMismatch _ _ _) = LogEntryCrcMismatch 0 0 0"
  | "erase (LogEntryGuidMismatch _ _ _) = LogEntryGuidMismatch 0 [] []"
  | "erase (LogSequenceNumberGap _ _ _) = LogSequenceNumberGap 0 0 0"
  | "erase FileWriteGuidAllZeros = FileWriteGuidAllZeros"
  | "erase DataWriteGuidAllZeros = DataWriteGuidAllZeros"
  | "erase (LogGuidWithNoLog _) = LogGuidWithNoLog []"
  | "erase (LogGuidAllZerosWithDirtyLog _) = LogGuidAllZerosWithDirtyLog 0"
  | "erase (LogVersionInvalid _) = LogVersionInvalid 0"
  | "erase (VersionInvalid _) = VersionInvalid 0"
  | "erase (LogOffsetMisaligned _) = LogOffsetMisaligned 0"
  | "erase (LogLengthMisaligned _) = LogLengthMisaligned 0"
  | "erase (LogBeyondContainer _ _ _) = LogBeyondContainer 0 0 0"
  | "erase (LogInReservedZone _) = LogInReservedZone 0"
  | "erase (SequenceNumberGapLarge _ _ _) = SequenceNumberGapLarge 0 0 0"
  | "erase (DirtyLog _ _) = DirtyLog 0 0"
  | "erase (RegionMisaligned _ _) = RegionMisaligned [] 0"
  | "erase (RegionBeyondContainer _ _ _) = RegionBeyondContainer [] 0 0"
  | "erase (RegionsOverlap _ _ _) = RegionsOverlap [] [] 0"
  | "erase (LogOverlapsStructuralRegion _ _) = LogOverlapsStructuralRegion 0 []"
  | "erase (UnknownRequiredRegion _) = UnknownRequiredRegion []"
  | "erase (RegionTableReservedNonZero _ _ _) = RegionTableReservedNonZero 0 [] 0"
  | "erase (RegionEntryCountZero _) = RegionEntryCountZero 0"
  | "erase (RegionTableChecksumMismatch _ _ _) = RegionTableChecksumMismatch 0 0 0"
  | "erase BothRegionTableCopiesInvalid = BothRegionTableCopiesInvalid"
  | "erase (RegionTableCopyMismatch _ _ _ _) = RegionTableCopyMismatch [] [] 0 0"
  | "erase (anomaly.MetadataMissing _) = anomaly.MetadataMissing []"
  | "erase (BlockSizeInvalid _ _) = BlockSizeInvalid 0 []"
  | "erase (LogicalSectorSizeInvalid _) = LogicalSectorSizeInvalid 0"
  | "erase (VirtualDiskSizeInvalid _ _) = VirtualDiskSizeInvalid 0 []"
  | "erase (VirtualDiskSizeUnderreported _ _) = VirtualDiskSizeUnderreported 0 0"
  | "erase DifferencingDisk = DifferencingDisk"
  | "erase (PhysicalSectorSizeInvalid _) = PhysicalSectorSizeInvalid 0"
  | "erase VirtualDiskIdAllZeros = VirtualDiskIdAllZeros"
  | "erase (MetadataItemsOverlap _ _ _) = MetadataItemsOverlap 0 0 0"
  | "erase (MetadataItemBeyondRegion _ _ _) = MetadataItemBeyondRegion 0 0 0"
  | "erase LeaveBlocksAllocatedSet = LeaveBlocksAllocatedSet"
  | "erase MissingParentLocator = MissingParentLocator"
  | "erase (VirtualDiskSizeOverreported _ _) = VirtualDiskSizeOverreported 0 0"
  | "erase (BatSizeMetadataMismatch _ _ _ _ _) = BatSizeMetadataMismatch 0 0 0 0 0"
  | "erase (BatEntryInStructuralRegion _ _ _) = BatEntryInStructuralRegion 0 0 []"
  | "erase (MissingSectorBitmap _ _) = MissingSectorBitmap 0 0"
  | "erase (UndefinedBlockState _) = UndefinedBlockState 0"
  | "erase (UnmappedBlockInNonDifferencing _) = UnmappedBlockInNonDifferencing 0"
  | "erase (GhostDataInAbsentBlock _ _ _) = GhostDataInAbsentBlock 0 0 0"
  | "erase (BatEntryBeyondContainer _ _ _) = BatEntryBeyondContainer 0 0 0"
  | "erase (BatEntryUnaligned _ _) = BatEntryUnaligned 0 0"
  | "erase (BatEntriesOverlap _ _ _) = BatEntriesOverlap 0 0 0"
  | "erase (PartiallyPresentBlock _) = PartiallyPresentBlock 0"
  | "erase (SectorBitmapInvalidState _ _) = SectorBitmapInvalidState 0 0"
  | "erase (TrailingData _ _) = TrailingData 0 0"
  | "erase (CreatorStringAnomalous _) = CreatorStringAnomalous []"
  | "erase (FileIdentifierReservedNonZero _ _) = FileIdentifierReservedNonZero 0 0"
  | "erase (InterRegionGapNonZero _ _ _ _) = InterRegionGapNonZero [] [] 0 0"
  | "erase (HeaderReservedNonZero _ _ _) = HeaderReservedNonZero 0 0 0"

lemma note_of_erased: "forensic_significance (erase a) = forensic_significance a"
  by (cases a; simp only: erase.simps forensic_significance_def log_notes_def region_notes_def
      metadata_notes_def bat_notes_def layout_notes_def anomaly.case cong: anomaly.case_cong_weak)

lemma erased_kind: "erase a = kinds ! variant a"
  by (cases a) (simp_all add: kinds_def)

lemma note_of_variant: "variant a = variant b \<Longrightarrow> forensic_significance a = forensic_significance b"
  using note_of_erased [of a] note_of_erased [of b] by (simp add: erased_kind)

lemma parts_of_variant:
  "variant a = variant b \<Longrightarrow> code a = code b \<and> severity a = severity b \<and> mitre_techniques a = mitre_techniques b"
  using variant_tables(2-4) [of a] variant_tables(2-4) [of b] by simp

subsection \<open>Properties\<close>

text \<open>C40: The report of a finding identifies its kind, and so does its machine code alone, whatever
  the fields of the finding; two findings of one kind are reported with the same severity, text and
  techniques. Every code carries the scheme prefix.\<close>

theorem observation_identifies_kind:
  "(observe a = observe b \<longleftrightarrow> variant a = variant b) \<and> (code a = code b \<longleftrightarrow> variant a = variant b)
    \<and> take 5 (obs_code (observe a)) = ''VHDX-''"
  using code_inj [of a b] parts_of_variant [of a b] note_of_variant [of a b] code_prefix [of a]
  by (auto simp: observe_def)

end
