(* ===== verification/Spec2Isabelle.thy ===== *)
theory Spec2Isabelle
  imports Vfs Cli Volume Verdict Notes
begin

text \<open>
  A verification library for the VHDX reader and the forensic analyser of this repository.

  \<^bold>\<open>The program.\<close> The crate \<open>vhdx-core\<close> (\<open>core/src\<close>) opens a VHDX image and serves the bytes
  of the virtual disk in it; \<open>vhdx-forensic\<close> (\<open>forensic/src\<close>) audits the raw bytes of an image
  and repairs some of what it finds; \<open>cli/src/main.rs\<close> prints the size of a disk;
  \<open>core/examples/bounded_memory.rs\<close> writes a sparse image and reads it back. An image is a
  header section (file magic, two header copies, two region tables), a log, a metadata region, a
  block allocation table (BAT) and the blocks it places. Opening finds the active header, replays
  the log (into the bytes, or as an overlay over a backing that is only read), finds the BAT and
  the metadata through the region table, and keeps them with a cursor. A read looks every
  virtual byte up in the BAT and takes it from the image, from the parent of a differencing disk,
  sector by sector from both, or as zero.

  \<^bold>\<open>Theories, in the order of the calls.\<close>
    \<^item> \<open>Prelude\<close>: outcomes (\<open>Ok\<close>, \<open>Err\<close>, \<open>Panic\<close>), fixed-width arithmetic, windows of buffers.
    \<^item> \<open>Error\<close> (\<open>error.rs\<close>), \<open>Bytes\<close> (\<open>bytes.rs\<close>), \<open>Crc32c\<close> (\<open>crc32c\<close> of \<open>header.rs\<close>) and
      \<open>Block\<close>, the sealed structural block that headers and region tables have in common: the
      locale \<open>sealed_block\<close>, interpreted as \<open>hdr\<close> in \<open>Header\<close> and as \<open>rgn\<close> in \<open>Region\<close>.
    \<^item> \<open>Header\<close>, \<open>Region\<close>, \<open>Metadata\<close>, \<open>Bat\<close>, \<open>Backing\<close>, \<open>Log\<close>, \<open>Reader\<close>: one theory for each
      file of \<open>core/src\<close> of that name, with its types, constants, loops and operations.
    \<^item> \<open>Disk\<close>: the abstract disk (\<open>disk\<close>, \<open>disk_byte\<close>, \<open>disk_read\<close>), the relation \<open>represents\<close> of
      readers to disks, and the refinement of \<open>read\<close> through the chain of parents (locale
      \<open>disk_reads\<close>, interpretation \<open>chain\<close>).
    \<^item> \<open>Opening\<close>: what opening yields, the agreement of the two ways to open, sessions of seeks
      and reads (how far a loop of reads gets), totality. \<open>Vfs\<close>: the adapter
      \<open>VhdxSource\<close> of \<open>vfs.rs\<close>.
    \<^item> \<open>Example\<close>: the image builder of \<open>bounded_memory.rs\<close>, the file it writes and the demonstration
      that reads it back. \<open>Dirty\<close>: the same image with a dirty log, on which the theorems about
      replay are instantiated. \<open>Cli\<close>: the command \<open>info\<close> of the tool, with \<open>fmt_commas\<close>.
    \<^item> \<open>Anomaly\<close>: the findings of \<open>integrity.rs\<close> with severity, code, techniques and summary;
      \<open>Notes\<close>: their prose (\<open>forensic_significance\<close>) and the observation made of each.
    \<^item> \<open>Integrity\<close>, \<open>Layout\<close>, \<open>Regions\<close>, \<open>BatAudit\<close>, \<open>Analyse\<close>: the checks of \<open>VhdxIntegrity\<close>, in
      the layers of \<open>analyse\<close>. \<open>Repair\<close>: \<open>VhdxRepair\<close> of \<open>repair.rs\<close>.
    \<^item> \<open>Detection\<close>: what tampering the checks detect (locale \<open>audited_pair\<close>, interpretations \<open>hdrs\<close>
      and \<open>tables\<close>) and that analyser and reader choose the same header.
    \<^item> \<open>Mending\<close>: the writes of a repair as the step relation \<open>mends\<close>. \<open>Findings\<close>: every finding
      names a copy or an entry that is there. \<open>Healing\<close>: the repair as a whole (locales
      \<open>repair_invariant\<close> and \<open>mirrored_copies\<close>, with their interpretations).
    \<^item> \<open>Coverage\<close>: what a clean audit of the BAT and of the metadata guarantees, and what the overlap
      check misses. \<open>Totality\<close>: when the analysis returns and when it panics.
    \<^item> \<open>Verdict\<close>: where analyser and reader disagree on an image. \<open>Sample\<close>, \<open>Volume\<close>: concrete
      images on which these theorems are instantiated.

  \<^bold>\<open>State and operations.\<close> A reader is the value \<open>VhdxReader\<close> (backing, overlay, BAT, metadata,
  cursor, parent); an operation returns its outcome and the reader after it. \<open>VhdxIntegrity\<close> is
  the bytes it borrows; a check returns its findings in the order in which the source pushes
  them. \<open>VhdxRepair\<close> is its bytes, passed through every action.

  \<^bold>\<open>What the theorems show.\<close> Reading is a refinement of the abstract disk (\<open>Disk\<close>, \<open>Vfs\<close>), and
  a client that keeps reading gets on until the end of the disk or a byte that cannot be delivered
  (\<open>Opening\<close>); every positioned read over a file or a stream ends exactly where the system calls
  make it end (\<open>Backing\<close>); the log replays exactly its committed entries (\<open>Log\<close>); on images whose
  log is well formed (\<open>log_ok\<close>, which nothing checks) the two ways of opening and the two forms of
  replay agree and none panics (\<open>Opening\<close>, \<open>Log\<close>, \<open>Cli\<close>); the parsers accept
  exactly, or only, what the format allows and never panic (\<open>Header\<close>, \<open>Region\<close>, \<open>Metadata\<close>,
  \<open>Bat\<close>, \<open>Opening\<close>); the checksum detects every burst of at most 32 bits (\<open>Crc32c\<close>), so a
  sealed structure detects a change within its signature and checksum field, or of four bytes behind
  it, though not every change that straddles the end of that field (\<open>Block\<close>, \<open>Header\<close>), and the
  analysis reports what is detected (\<open>Detection\<close>); analyser and reader agree on the header, the values of the
  metadata and the need for a replay (\<open>Detection\<close>, \<open>Coverage\<close>, \<open>Totality\<close>); a repair returns,
  leaves both copies of the headers and of the region table valid exactly when one was (as long as
  the table of blocks does not point into the structural area: \<open>bat_clear\<close>), writes nowhere else and
  accounts for what it does (\<open>Healing\<close>); the image
  of the example opens and reads back as it was written (\<open>Example\<close>), and the command prints the
  geometry of the disk that the image holds (\<open>Cli\<close>).
  Counterexamples are stated where the code departs from its documentation: log entries whose
  descriptors overrun them, a sector that straddles the end of the image, a chunk ratio of zero,
  overlaps hidden by empty items, a log without an entry that is reported dirty, the item of
  the disk size that the analyser does not recognise (\<open>Verdict\<close>), a seek whose sum overflows.

  \<^bold>\<open>Conventions.\<close>
    \<^item> Machine integers are words where the code stores or compares them, and natural numbers with
      the check or the wrap-around of the operator written out where it computes addresses
      (\<open>add_u\<close>, \<open>checked_add\<close>, \<open>saturating_add\<close>). An unchecked operator that overflows is a
      \<open>Panic\<close>, as in a build with overflow checks; \<open>usize\<close> has 64 bits.
    \<^item> A slice whose bounds follow from the guard before it is a \<open>window\<close>; any other is \<open>slice\<close>,
      which panics out of range.
    \<^item> Loops are recursive functions with a measure (no fuel): the bytes left to read, or to scan.
    \<^item> \<open>sort_unstable_by_key\<close> is modelled by the stable sort, one of the orders it may choose.
    \<^item> The operating system behind a file and the stream of a boxed reader are the parameter
      \<open>os_file\<close>, with its interruptions, short answers and failures. The loop over a file retries an
      interrupted read, the loop over a boxed reader returns it as an error. \<open>read_exact\<close> of the
      standard library, which the reader inherits, would retry a \<open>read\<close> that fails as interrupted;
      its model passes that error on like any other.
    \<^item> The faults of the calls that write the file of the example are the parameter
      \<open>fault\<close>; the order of the severities belongs to the \<open>forensicnomicon\<close> crate and is the
      parameter \<open>le\<close> of \<open>summary\<close> and \<open>anomalies_at_least\<close>.

  \<^bold>\<open>Not modelled.\<close> The parsing of the arguments of the command line tool (\<open>clap\<close> does it) and the
  trait impls that only forward; the mutex of \<open>VhdxSource\<close> beyond one caller at a time; of the
  example, the measurement of the resident set by \<open>ps\<close> (\<open>rss_kib\<close>, its answers are parameters) and
  the removal of the file; the fuzz target, which only calls the parser, and the tests, which
  exercise the code that is modelled here.
\<close>

end
